(* ===== verification/Prelude.thy ===== *)
theory Prelude
  imports Main "HOL-Library.Word"
begin

text \<open>
  Shared vocabulary of the development: the program type (a state transformer that may
  fault), its combinators, the invariant calculus over it, and the
  C string and array helpers that the components use.

  A C function is a \<open>prog\<close>: from a state it either reaches a \<open>fault\<close> (the execution has no
  defined continuation: an \<open>assert\<close> that aborts, a NULL dereference, an access outside an
  array, a read of an uninitialised object, a signed overflow) or returns a value and a new
  state. A loop whose termination depends on a library function takes fuel, and running out of
  it is the fault \<open>OutOfFuel\<close>.
\<close>

named_theorems preserves_intros "rules that push an invariant through a program"
named_theorems ends_intros "rules that show that a program ends with such results"
named_theorems yields_intros "rules that compute what a program's results satisfy"
named_theorems never_intros "rules that keep a fault out of a program"

section \<open>Programs\<close>

datatype fault =
    AssertFail
  | NullDeref
  | OutOfBounds
  | Uninitialised
  | IntOverflow
  | Dangling
  | OutOfFuel

type_synonym ('s, 'a) prog = "'s \<Rightarrow> fault + 'a \<times> 's"

definition ret :: "'a \<Rightarrow> ('s, 'a) prog" where
  "ret a = (\<lambda>s. Inr (a, s))"

definition fail :: "fault \<Rightarrow> ('s, 'a) prog" where
  "fail e = (\<lambda>s. Inl e)"

definition chain :: "('s, 'a) prog \<Rightarrow> ('a \<Rightarrow> ('s, 'b) prog) \<Rightarrow> ('s, 'b) prog" where
  "chain m f = (\<lambda>s. case m s of Inl e \<Rightarrow> Inl e | Inr (a, s') \<Rightarrow> f a s')"

definition gets :: "('s \<Rightarrow> 'a) \<Rightarrow> ('s, 'a) prog" where
  "gets f = (\<lambda>s. Inr (f s, s))"

definition modify :: "('s \<Rightarrow> 's) \<Rightarrow> ('s, unit) prog" where
  "modify f = (\<lambda>s. Inr ((), f s))"

text \<open>
  The C expression \<open>e1 != 0 || e2 != 0 || ...\<close> over calls that return an int: the calls run in
  order until one of them returns something else than 0. The result is the truth value of the
  whole expression.
\<close>

primrec or_chain :: "('s, int) prog list \<Rightarrow> ('s, bool) prog" where
  "or_chain [] = ret False"
| "or_chain (m # ms) = chain m (\<lambda>r. if r \<noteq> 0 then ret True else or_chain ms)"

lemma or_chain_ok:
  "or_chain (m # ms) s = Inr (False, s') \<longleftrightarrow>
     (\<exists>t. m s = Inr (0, t) \<and> or_chain ms t = Inr (False, s'))"
  by (auto simp: chain_def ret_def split: sum.splits prod.splits if_splits)

lemma ret_apply [simp]: "ret a s = Inr (a, s)"
  by (simp add: ret_def)

lemma fail_apply [simp]: "fail e s = Inl e"
  by (simp add: fail_def)

lemma gets_apply [simp]: "gets f s = Inr (f s, s)"
  by (simp add: gets_def)

lemma modify_apply [simp]: "modify f s = Inr ((), f s)"
  by (simp add: modify_def)

lemma chain_ret [simp]: "chain (ret a) f = f a"
  by (simp add: chain_def ret_def)

lemma chain_fail [simp]: "chain (fail e) f = fail e"
  by (simp add: chain_def fail_def)

lemma chain_assoc [simp]: "chain (chain m f) g = chain m (\<lambda>a. chain (f a) g)"
  by (auto simp: chain_def fun_eq_iff split: sum.splits prod.splits)

lemma chain_if: "chain (if b then m else n) f = (if b then chain m f else chain n f)"
  by simp

lemma if_ret_bool: "(if b then ret True else ret False) = ret b"
  by simp

lemma chain_apply_Inr [simp]: "m s = Inr (a, s') \<Longrightarrow> chain m f s = f a s'"
  by (simp add: chain_def)

lemma chain_apply_Inl [simp]: "m s = Inl e \<Longrightarrow> chain m f s = Inl e"
  by (simp add: chain_def)

lemma chain_gets_apply [simp]: "chain (gets g) f s = f (g s) s"
  by (simp add: chain_def)

lemma chain_modify_apply [simp]: "chain (modify g) f s = f () (g s)"
  by (simp add: chain_def)

lemma chain_split:
  "P (chain m f s) \<longleftrightarrow>
     (\<forall>e. m s = Inl e \<longrightarrow> P (Inl e)) \<and> (\<forall>a s'. m s = Inr (a, s') \<longrightarrow> P (f a s'))"
  by (auto simp: chain_def split: sum.splits prod.splits)

lemma chain_eq_Inr:
  "chain m f s = Inr (b, t) \<longleftrightarrow> (\<exists>a s'. m s = Inr (a, s') \<and> f a s' = Inr (b, t))"
  by (auto simp: chain_def split: sum.splits prod.splits)

lemma chain_eq_Inl:
  "chain m f s = Inl e \<longleftrightarrow> m s = Inl e \<or> (\<exists>a s'. m s = Inr (a, s') \<and> f a s' = Inl e)"
  by (auto simp: chain_def split: sum.splits prod.splits)

lemma chain_InrE:
  assumes "chain m f s = Inr (b, t)"
  obtains a s' where "m s = Inr (a, s')" and "f a s' = Inr (b, t)"
  using assms by (auto simp: chain_eq_Inr)

text \<open>Whether a run ends with the value \<open>a\<close>, as a test that evaluates.\<close>

definition returns :: "'a \<Rightarrow> fault + 'a \<times> 's \<Rightarrow> bool" where
  "returns a r = (case r of Inl _ \<Rightarrow> False | Inr (b, _) \<Rightarrow> b = a)"

lemma returnsE:
  assumes "returns a r"
  obtains s' where "r = Inr (a, s')"
  using assms by (auto simp: returns_def split: sum.splits)

definition end_state :: "fault + 'a \<times> 's \<Rightarrow> 's" where
  "end_state r = snd (projr r)"

lemma returns_end_state: "returns a r \<Longrightarrow> r = Inr (a, end_state r)"
  by (auto simp: returns_def end_state_def split: sum.splits)

section \<open>Invariants of programs\<close>

text \<open>
  \<open>preserves I m\<close>: whenever \<open>m\<close> runs to its end from a state in \<open>I\<close>, the state it reaches is in
  \<open>I\<close>. Nothing is said of runs that fault.
\<close>

definition preserves :: "('s \<Rightarrow> bool) \<Rightarrow> ('s, 'a) prog \<Rightarrow> bool" where
  "preserves I m \<longleftrightarrow> (\<forall>s a s'. I s \<longrightarrow> m s = Inr (a, s') \<longrightarrow> I s')"

lemma preservesI: "(\<And>s a s'. I s \<Longrightarrow> m s = Inr (a, s') \<Longrightarrow> I s') \<Longrightarrow> preserves I m"
  by (auto simp: preserves_def)

lemma preservesD: "preserves I m \<Longrightarrow> m s = Inr (a, s') \<Longrightarrow> I s \<Longrightarrow> I s'"
  by (auto simp: preserves_def)

lemma preserves_ret [preserves_intros]: "preserves I (ret a)"
  by (auto simp: preserves_def)

lemma preserves_fail [preserves_intros]: "preserves I (fail e)"
  by (auto simp: preserves_def)

lemma preserves_gets [preserves_intros]: "preserves I (gets f)"
  by (auto simp: preserves_def)

lemma preserves_chain [preserves_intros]:
  "preserves I m \<Longrightarrow> (\<And>a. preserves I (f a)) \<Longrightarrow> preserves I (chain m f)"
  unfolding preserves_def by (metis chain_eq_Inr)

lemma preserves_if [preserves_intros]:
  "(b \<Longrightarrow> preserves I m) \<Longrightarrow> (\<not> b \<Longrightarrow> preserves I n) \<Longrightarrow> preserves I (if b then m else n)"
  by simp

lemma preserves_option [preserves_intros]:
  "(x = None \<Longrightarrow> preserves I m) \<Longrightarrow> (\<And>y. x = Some y \<Longrightarrow> preserves I (f y)) \<Longrightarrow>
    preserves I (case x of None \<Rightarrow> m | Some y \<Rightarrow> f y)"
  by (cases x) auto

lemma preserves_prod [preserves_intros]:
  "(\<And>a b. x = (a, b) \<Longrightarrow> preserves I (f a b)) \<Longrightarrow> preserves I (case x of (a, b) \<Rightarrow> f a b)"
  by (cases x) auto

lemma preserves_let [preserves_intros]:
  "preserves I (f x) \<Longrightarrow> preserves I (let y = x in f y)"
  by simp

lemma preserves_modify [preserves_intros]: "(\<And>s. I s \<Longrightarrow> I (f s)) \<Longrightarrow> preserves I (modify f)"
  by (auto simp: preserves_def)

lemma preserves_or_chain [preserves_intros]:
  "(\<And>m. m \<in> set ms \<Longrightarrow> preserves I m) \<Longrightarrow> preserves I (or_chain ms)"
  by (induction ms) (auto intro!: preserves_intros)

text \<open>\<open>establishes I m\<close>: every run of \<open>m\<close> that ends, ends in \<open>I\<close>, wherever it began.\<close>

definition establishes :: "('s \<Rightarrow> bool) \<Rightarrow> ('s, 'a) prog \<Rightarrow> bool" where
  "establishes I m \<longleftrightarrow> (\<forall>s a s'. m s = Inr (a, s') \<longrightarrow> I s')"

lemma establishesD: "establishes I m \<Longrightarrow> m s = Inr (a, s') \<Longrightarrow> I s'"
  by (auto simp: establishes_def)

lemma establishes_later: "(\<And>a. establishes I (f a)) \<Longrightarrow> establishes I (chain m f)"
  unfolding establishes_def by (metis chain_eq_Inr)

lemma establishes_now:
  "establishes I m \<Longrightarrow> (\<And>a. preserves I (f a)) \<Longrightarrow> establishes I (chain m f)"
  unfolding establishes_def preserves_def by (metis chain_eq_Inr)

section \<open>What results satisfy\<close>

text \<open>
  \<open>yields m s Q\<close>: if \<open>m\<close> runs to its end from \<open>s\<close>, its value and the state it reaches satisfy
  \<open>Q\<close>. The rules follow the program, one per construct.
\<close>

definition yields :: "('s, 'a) prog \<Rightarrow> 's \<Rightarrow> ('a \<Rightarrow> 's \<Rightarrow> bool) \<Rightarrow> bool" where
  "yields m s Q \<longleftrightarrow> (\<forall>a s'. m s = Inr (a, s') \<longrightarrow> Q a s')"

lemma yieldsI: "(\<And>a s'. m s = Inr (a, s') \<Longrightarrow> Q a s') \<Longrightarrow> yields m s Q"
  by (simp add: yields_def)

lemma yieldsD: "yields m s Q \<Longrightarrow> m s = Inr (a, s') \<Longrightarrow> Q a s'"
  by (simp add: yields_def)

lemma yields_chain [yields_intros]:
  "yields m s (\<lambda>a t. yields (f a) t Q) \<Longrightarrow> yields (chain m f) s Q"
  by (auto simp: yields_def chain_eq_Inr)

lemma yields_simple [yields_intros]:
  "Q a s \<Longrightarrow> yields (ret a) s Q"
  "yields (fail e) s P"
  "R (f s) s \<Longrightarrow> yields (gets f) s R"
  "S () (g s) \<Longrightarrow> yields (modify g) s S"
  by (auto simp: yields_def)

lemma yields_cases [yields_intros]:
  "(b \<Longrightarrow> yields m s Q) \<Longrightarrow> (\<not> b \<Longrightarrow> yields n s Q) \<Longrightarrow> yields (if b then m else n) s Q"
  "(x = None \<Longrightarrow> yields m s Q) \<Longrightarrow> (\<And>y. x = Some y \<Longrightarrow> yields (h y) s Q) \<Longrightarrow>
     yields (case x of None \<Rightarrow> m | Some y \<Rightarrow> h y) s Q"
  "(\<And>c d. z = (c, d) \<Longrightarrow> yields (k c d) s Q) \<Longrightarrow> yields (case z of (c, d) \<Rightarrow> k c d) s Q"
  by (auto split: option.split prod.split)

lemma yields_weaken: "yields m s P \<Longrightarrow> (\<And>a t. P a t \<Longrightarrow> Q a t) \<Longrightarrow> yields m s Q"
  by (auto simp: yields_def)

lemma yields_through:
  "yields m s P \<Longrightarrow> (\<And>a t. P a t \<Longrightarrow> yields (f a) t Q) \<Longrightarrow> yields (chain m f) s Q"
  by (blast intro: yields_chain yields_weaken)

text \<open>\<open>ends m s Q\<close>: \<open>m\<close> runs to its end from \<open>s\<close>, without a fault, and its result satisfies \<open>Q\<close>.\<close>

definition ends :: "('s, 'a) prog \<Rightarrow> 's \<Rightarrow> ('a \<Rightarrow> 's \<Rightarrow> bool) \<Rightarrow> bool" where
  "ends m s Q \<longleftrightarrow> (\<exists>a s'. m s = Inr (a, s') \<and> Q a s')"

lemma ends_chain [ends_intros]: "ends m s (\<lambda>a t. ends (f a) t Q) \<Longrightarrow> ends (chain m f) s Q"
  by (auto simp: ends_def chain_eq_Inr)

lemma ends_simple [ends_intros]:
  "Q a s \<Longrightarrow> ends (ret a) s Q"
  "R (f s) s \<Longrightarrow> ends (gets f) s R"
  "S () (g s) \<Longrightarrow> ends (modify g) s S"
  by (auto simp: ends_def)

lemma ends_cases [ends_intros]:
  "(b \<Longrightarrow> ends m s Q) \<Longrightarrow> (\<not> b \<Longrightarrow> ends n s Q) \<Longrightarrow> ends (if b then m else n) s Q"
  "(x = None \<Longrightarrow> ends m s Q) \<Longrightarrow> (\<And>y. x = Some y \<Longrightarrow> ends (h y) s Q) \<Longrightarrow>
     ends (case x of None \<Rightarrow> m | Some y \<Rightarrow> h y) s Q"
  "(\<And>c d. z = (c, d) \<Longrightarrow> ends (k c d) s Q) \<Longrightarrow> ends (case z of (c, d) \<Rightarrow> k c d) s Q"
  by (auto split: option.split prod.split)

lemma ends_weaken: "ends m s P \<Longrightarrow> (\<And>a t. P a t \<Longrightarrow> Q a t) \<Longrightarrow> ends m s Q"
  by (auto simp: ends_def)

lemma ends_through:
  "ends m s P \<Longrightarrow> (\<And>a t. P a t \<Longrightarrow> ends (f a) t Q) \<Longrightarrow> ends (chain m f) s Q"
  by (blast intro: ends_chain ends_weaken)

section \<open>Faults that do not occur\<close>

definition never :: "fault \<Rightarrow> ('s, 'a) prog \<Rightarrow> bool" where
  "never e m \<longleftrightarrow> (\<forall>s. m s \<noteq> Inl e)"

lemma neverI: "(\<And>s. m s \<noteq> Inl e) \<Longrightarrow> never e m"
  by (simp add: never_def)

lemma neverD: "never e m \<Longrightarrow> m s \<noteq> Inl e"
  by (simp add: never_def)

lemma never_simple [never_intros]:
  "never e (ret a)" "never e (gets f)" "never e (modify g)"
  by (simp_all add: never_def)

lemma never_fail [never_intros]: "e \<noteq> f \<Longrightarrow> never e (fail f)"
  by (simp add: never_def)

lemma never_chain [never_intros]:
  "never e m \<Longrightarrow> (\<And>a. never e (f a)) \<Longrightarrow> never e (chain m f)"
  by (auto simp: never_def chain_eq_Inl)

lemma never_if [never_intros]:
  "(b \<Longrightarrow> never e m) \<Longrightarrow> (\<not> b \<Longrightarrow> never e n) \<Longrightarrow> never e (if b then m else n)"
  by simp

lemma never_option [never_intros]:
  "never e m \<Longrightarrow> (\<And>y. never e (f y)) \<Longrightarrow> never e (case x of None \<Rightarrow> m | Some y \<Rightarrow> f y)"
  by (cases x) auto

lemma never_prod [never_intros]:
  "(\<And>a b. never e (f a b)) \<Longrightarrow> never e (case x of (a, b) \<Rightarrow> f a b)"
  by (cases x) auto

lemma never_let [never_intros]: "never e (f x) \<Longrightarrow> never e (let y = x in f y)"
  by simp

lemma never_or_chain [never_intros]:
  "(\<And>m. m \<in> set ms \<Longrightarrow> never e m) \<Longrightarrow> never e (or_chain ms)"
  by (induction ms) (auto intro!: never_intros)

text \<open>The same from the states in \<open>I\<close> on.\<close>

definition avoids :: "('s \<Rightarrow> bool) \<Rightarrow> fault \<Rightarrow> ('s, 'a) prog \<Rightarrow> bool" where
  "avoids I e m \<longleftrightarrow> (\<forall>s. I s \<longrightarrow> m s \<noteq> Inl e)"

lemma avoidsD: "avoids I e m \<Longrightarrow> I s \<Longrightarrow> m s \<noteq> Inl e"
  by (simp add: avoids_def)

lemma never_avoids: "never e m \<Longrightarrow> avoids I e m"
  by (simp add: never_def avoids_def)

lemma avoids_chain:
  "avoids I e m \<Longrightarrow> preserves I m \<Longrightarrow> (\<And>a. avoids I e (f a)) \<Longrightarrow> avoids I e (chain m f)"
  unfolding avoids_def preserves_def chain_eq_Inl by blast

lemma avoids_last: "never e m \<Longrightarrow> avoids I e (chain m (\<lambda>_. ret a))"
  by (rule never_avoids) (intro never_intros)

lemma avoids_cases:
  "(b \<Longrightarrow> avoids I e m) \<Longrightarrow> (\<not> b \<Longrightarrow> avoids I e n) \<Longrightarrow> avoids I e (if b then m else n)"
  "(\<And>c d. avoids I e (g c d)) \<Longrightarrow> avoids I e (case y of (c, d) \<Rightarrow> g c d)"
  "avoids I e (h x) \<Longrightarrow> avoids I e (let z = x in h z)"
  by (auto split: prod.split)

section \<open>C strings and arrays\<close>

text \<open>
  A \<open>const char*\<close> argument is a \<open>string\<close> (its characters up to the terminating NUL), or a
  \<open>string option\<close> where the source tests it against NULL. A \<open>char\<close> array is a \<open>char list\<close> of
  the array's size.
\<close>

definition NUL :: char where
  "NUL = CHR 0x00"

definition c_str :: "char list \<Rightarrow> string" where
  "c_str a = takeWhile (\<lambda>c. c \<noteq> NUL) a"

text \<open>Reading an array as a C string runs off its end when it holds no NUL.\<close>

definition cstr :: "char list \<Rightarrow> ('s, string) prog" where
  "cstr a = (if NUL \<in> set a then ret (c_str a) else fail OutOfBounds)"

text \<open>\<open>strncpy(dst, src, sizeof dst)\<close>: at most \<open>sizeof dst\<close> characters, padded with NULs.\<close>

definition strncpy :: "char list \<Rightarrow> string \<Rightarrow> char list" where
  "strncpy dst src = take (length dst) (src @ replicate (length dst) NUL)"

text \<open>\<open>sprintf\<close> of a text into an array of \<open>n\<close> characters: the text and its NUL must fit.\<close>

definition sprintf_buf :: "nat \<Rightarrow> string \<Rightarrow> ('s, string) prog" where
  "sprintf_buf n t = (if length t < n then ret t else fail OutOfBounds)"

text \<open>\<open>memset(a, 0, n)\<close> on an array.\<close>

definition memset0 :: "char list \<Rightarrow> nat \<Rightarrow> ('s, char list) prog" where
  "memset0 a n = (if n \<le> length a then ret (replicate n NUL @ drop n a) else fail OutOfBounds)"

text \<open>A pointer that the code dereferences.\<close>

definition deref :: "'a option \<Rightarrow> ('s, 'a) prog" where
  "deref p = (case p of None \<Rightarrow> fail NullDeref | Some x \<Rightarrow> ret x)"

text \<open>The decimal text that \<open>%lu\<close> and \<open>%d\<close> print.\<close>

fun show_nat :: "nat \<Rightarrow> string" where
  "show_nat n =
     (if n < 10 then [char_of (48 + n)] else show_nat (n div 10) @ [char_of (48 + n mod 10)])"

declare show_nat.simps [simp del]

definition show_int :: "int \<Rightarrow> string" where
  "show_int i = (if i < 0 then CHR ''-'' # show_nat (nat (- i)) else show_nat (nat i))"

lemma deref_Some [simp]: "deref (Some x) = ret x"
  by (simp add: deref_def)

lemma deref_None [simp]: "deref None = fail NullDeref"
  by (simp add: deref_def)

lemma yields_deref [yields_intros]: "(\<And>x. p = Some x \<Longrightarrow> Q x s) \<Longrightarrow> yields (deref p) s Q"
  by (cases p) (auto simp: yields_def)

lemma ends_cstr [ends_intros]: "NUL \<in> set a \<Longrightarrow> Q (c_str a) s \<Longrightarrow> ends (cstr a) s Q"
  by (simp add: ends_def cstr_def)

lemma yields_cstr [yields_intros]: "(NUL \<in> set a \<Longrightarrow> Q (c_str a) s) \<Longrightarrow> yields (cstr a) s Q"
  by (auto simp: yields_def cstr_def)

lemma preserves_cstr [preserves_intros]: "preserves I (cstr a)"
  by (simp add: cstr_def preserves_intros)

lemma preserves_sprintf_buf [preserves_intros]: "preserves I (sprintf_buf n t)"
  by (simp add: sprintf_buf_def preserves_intros)

lemma preserves_memset0 [preserves_intros]: "preserves I (memset0 a n)"
  by (simp add: memset0_def preserves_intros)

lemma preserves_deref [preserves_intros]: "preserves I (deref p)"
  by (simp add: deref_def preserves_intros split: option.split)

lemma never_access [never_intros]:
  "e \<noteq> OutOfBounds \<Longrightarrow> never e (cstr a)"
  "e \<noteq> OutOfBounds \<Longrightarrow> never e (sprintf_buf n t)"
  "e \<noteq> OutOfBounds \<Longrightarrow> never e (memset0 a n)"
  "e \<noteq> NullDeref \<Longrightarrow> never e (deref p)"
  by (auto simp: cstr_def sprintf_buf_def memset0_def deref_def intro!: never_intros
      split: option.split)

lemma cstr_eq_Inr: "cstr a s = Inr (t, s') \<longleftrightarrow> NUL \<in> set a \<and> t = c_str a \<and> s' = s"
  by (auto simp: cstr_def)

lemma cstr_eq_Inl: "cstr a s = Inl e \<longleftrightarrow> NUL \<notin> set a \<and> e = OutOfBounds"
  by (auto simp: cstr_def)

lemma sprintf_buf_eq_Inr: "sprintf_buf n t s = Inr (u, s') \<longleftrightarrow> length t < n \<and> u = t \<and> s' = s"
  by (auto simp: sprintf_buf_def)

lemma deref_eq_Inr: "deref p s = Inr (x, s') \<longleftrightarrow> p = Some x \<and> s' = s"
  by (auto simp: deref_def split: option.split)

lemma memset0_eq_Inr:
  "memset0 a n s = Inr (b, s') \<longleftrightarrow> n \<le> length a \<and> b = replicate n NUL @ drop n a \<and> s' = s"
  by (auto simp: memset0_def)

lemmas run_iffs = cstr_eq_Inr sprintf_buf_eq_Inr deref_eq_Inr memset0_eq_Inr

lemma length_strncpy [simp]: "length (strncpy dst src) = length dst"
  by (simp add: strncpy_def)

lemma c_str_no_NUL: "NUL \<notin> set (c_str a)"
  by (auto simp: c_str_def dest: set_takeWhileD)

lemma length_c_str_le: "length (c_str a) \<le> length a"
  by (simp add: c_str_def length_takeWhile_le)

lemma c_str_id: "NUL \<notin> set a \<Longrightarrow> c_str a = a"
  by (induction a) (auto simp: c_str_def)

lemma c_str_append_NUL: "NUL \<notin> set t \<Longrightarrow> c_str (t @ NUL # r) = t"
  by (induction t) (auto simp: c_str_def)

lemma length_c_str_less: "NUL \<in> set a \<Longrightarrow> length (c_str a) < length a"
  by (induction a) (auto simp: c_str_def)

text \<open>A copy that fits is a NUL-terminated array whose C string is the source.\<close>

lemma strncpy_fits:
  assumes "length src < length dst"
  shows "strncpy dst src = src @ replicate (length dst - length src) NUL"
  using assms by (simp add: strncpy_def min_def)

lemma strncpy_c_str:
  assumes "length src < length dst" and "NUL \<notin> set src"
  shows "c_str (strncpy dst src) = src" and "NUL \<in> set (strncpy dst src)"
proof -
  obtain m where m: "length dst - length src = Suc m"
    using assms(1) by (metis Suc_diff_Suc)
  show "c_str (strncpy dst src) = src"
    using assms m by (simp add: strncpy_fits c_str_append_NUL)
  show "NUL \<in> set (strncpy dst src)"
    using assms m by (simp add: strncpy_fits)
qed

lemma show_nat_nonempty: "show_nat n \<noteq> []"
  by (subst show_nat.simps) simp

text \<open>A number below \<open>10 ^ d\<close> prints as at most \<open>d\<close> characters.\<close>

lemma length_show_nat: "n < 10 ^ d \<Longrightarrow> 0 < d \<Longrightarrow> length (show_nat n) \<le> d"
proof (induction n arbitrary: d rule: show_nat.induct)
  case (1 n)
  show ?case
  proof (cases "n < 10")
    case True
    then show ?thesis using "1.prems" by (subst show_nat.simps) simp
  next
    case False
    obtain d' where d: "d = Suc d'"
      using "1.prems" by (cases d) auto
    have d': "0 < d'"
      using "1.prems" False d by (cases d') auto
    have "n div 10 < 10 ^ d'" using "1.prems" d by (simp add: less_mult_imp_div_less mult.commute)
    with "1.IH" [OF False this d'] False d show ?thesis by (subst show_nat.simps) simp
  qed
qed

end
