(* ===== verification/Kii.thy ===== *)
theory Kii
  imports Prelude
begin

text \<open>
  The data of the SDK (include/kii_thing_if.h), the part of the Kii library's \<open>kii_t\<close> that the
  SDK's sources name, the environment record that stands for code outside the repository, and
  the state every operation runs on.

  The Kii library (\<open>kii_t\<close>, \<open>kii_api_call_*\<close>, \<open>kii_json_*\<close>, \<open>kii_push_*\<close>) and jsmn are git
  submodules: their functions are fields of \<open>env\<close>, and so are the callbacks that the
  application supplies. Nothing is assumed of them here; what a theorem needs is one of its
  hypotheses.
\<close>

section \<open>Enumerations and structures of the public header\<close>

datatype kii_thing_if_state_t =
    KII_THING_IF_STATE_INITIALIZED
  | KII_THING_IF_STATE_ONBOARDED
  | KII_THING_IF_STATE_STARTED

text \<open>The states in the order in which a thing goes through them, which is that of their values.\<close>

primrec state_value :: "kii_thing_if_state_t \<Rightarrow> nat" where
  "state_value KII_THING_IF_STATE_INITIALIZED = 0"
| "state_value KII_THING_IF_STATE_ONBOARDED = 1"
| "state_value KII_THING_IF_STATE_STARTED = 2"

instantiation kii_thing_if_state_t :: linorder
begin

definition less_eq_kii_thing_if_state_t :: "kii_thing_if_state_t \<Rightarrow> kii_thing_if_state_t \<Rightarrow> bool" where
  "less_eq_kii_thing_if_state_t x y \<longleftrightarrow> state_value x \<le> state_value y"

definition less_kii_thing_if_state_t :: "kii_thing_if_state_t \<Rightarrow> kii_thing_if_state_t \<Rightarrow> bool" where
  "less_kii_thing_if_state_t x y \<longleftrightarrow> state_value x < state_value y"

instance
proof
  fix x y :: kii_thing_if_state_t
  assume "x \<le> y" and "y \<le> x"
  then show "x = y"
    by (cases x; cases y) (simp_all add: less_eq_kii_thing_if_state_t_def)
qed (auto simp: less_eq_kii_thing_if_state_t_def less_kii_thing_if_state_t_def)

end

lemmas life_cycle_order = less_eq_kii_thing_if_state_t_def less_kii_thing_if_state_t_def

text \<open>Short of \<open>STARTED\<close> the order says that an onboarded thing stays onboarded.\<close>

lemma life_cycle_steps:
  fixes x y :: kii_thing_if_state_t
  shows "y < KII_THING_IF_STATE_STARTED \<longleftrightarrow> y \<noteq> KII_THING_IF_STATE_STARTED"
    and "x < KII_THING_IF_STATE_STARTED \<Longrightarrow> y < KII_THING_IF_STATE_STARTED \<Longrightarrow>
      x \<le> y \<longleftrightarrow> (x = KII_THING_IF_STATE_ONBOARDED \<longrightarrow> y = KII_THING_IF_STATE_ONBOARDED)"
  by (cases x; cases y; simp add: life_cycle_order)+

datatype kii_thing_if_error_code_t =
    KII_THING_IF_ERROR_INVALID_STATE
  | KII_THING_IF_ERROR_HTTP
  | KII_THING_IF_ERROR_SOCKET
  | KII_THING_IF_ERROR_INSUFFICIENT_BUFFER
  | KII_THING_IF_ERROR_INSUFFICIENT_ARG_BUFFER
  | KII_THING_IF_ERROR_INVALID_PAYLOAD

record kii_thing_if_error_t =
  code :: kii_thing_if_error_code_t
  http_status_code :: int
  error_code :: "char list"

text \<open>
  Function pointers and buffer addresses are numbers; a pointer that may be NULL is an option.
  The functions behind them are looked up in the environment.
\<close>

type_synonym fn_ptr = nat
type_synonym buf_ptr = nat

record kii_thing_if_command_handler_resource_t =
  ch_buffer :: buf_ptr
  ch_buffer_size :: nat
  ch_mqtt_buffer :: buf_ptr
  ch_mqtt_buffer_size :: nat
  ch_action_handler :: "fn_ptr option"
  ch_state_handler :: "fn_ptr option"
  ch_custom_push_handler :: "fn_ptr option"

record kii_thing_if_state_updater_resource_t =
  su_buffer :: buf_ptr
  su_buffer_size :: nat
  su_period :: int
  su_state_handler :: "fn_ptr option"

record kii_thing_if_system_cb_t =
  cb_task_create :: "fn_ptr option"
  cb_delay_ms :: "fn_ptr option"
  cb_log :: "fn_ptr option"
  cb_socket_connect :: "fn_ptr option"
  cb_socket_send :: "fn_ptr option"
  cb_socket_recv :: "fn_ptr option"
  cb_socket_close :: "fn_ptr option"
  cb_mqtt_socket_connect :: "fn_ptr option"
  cb_mqtt_socket_send :: "fn_ptr option"
  cb_mqtt_socket_recv :: "fn_ptr option"
  cb_mqtt_socket_close :: "fn_ptr option"

section \<open>The members of kii_t that the SDK reads or writes\<close>

datatype kii_http_error =
    KII_HTTP_ERROR_NONE
  | KII_HTTP_ERROR_INSUFFICIENT_BUFFER
  | KII_HTTP_ERROR_SOCKET
  | KII_HTTP_ERROR_INVALID_RESPONSE
  | KII_HTTP_ERROR_unlisted

record kii_author_t =
  author_id :: "char list"
  access_token :: "char list"

text \<open>
  \<open>app_context\<close> is NULL or, after initialisation, the address of the enclosing
  \<open>kii_thing_if_t\<close>. \<open>kii_private\<close> is everything else a \<open>kii_t\<close> holds: only the library's
  functions read or write it.
\<close>

datatype app_context_t = NullContext | ThingIfContext

record 'p kii_t =
  app_id :: string
  app_key :: string
  author :: kii_author_t
  response_code :: int
  response_body :: "string option"
  http_error :: kii_http_error
  http_buffer :: "buf_ptr option"
  http_buffer_size :: nat
  connect_cb :: "fn_ptr option"
  send_cb :: "fn_ptr option"
  recv_cb :: "fn_ptr option"
  close_cb :: "fn_ptr option"
  logger_cb :: "fn_ptr option"
  mqtt_buffer :: "buf_ptr option"
  mqtt_buffer_size :: nat
  mqtt_socket_connect_cb :: "fn_ptr option"
  mqtt_socket_send_cb :: "fn_ptr option"
  mqtt_socket_recv_cb :: "fn_ptr option"
  mqtt_socket_close_cb :: "fn_ptr option"
  task_create_cb :: "fn_ptr option"
  delay_ms_cb :: "fn_ptr option"
  kii_json_resource_cb :: "fn_ptr option"
  app_context :: app_context_t
  kii_private :: 'p

record 'p kii_thing_if_t =
  command_handler :: "'p kii_t"
  state_updater :: "'p kii_t"
  action_handler :: "fn_ptr option"
  state_handler_for_period :: "fn_ptr option"
  state_handler_for_command_reaction :: "fn_ptr option"
  custom_push_handler :: "fn_ptr option"
  state_update_period :: int
  state :: kii_thing_if_state_t

text \<open>The two \<open>kii_t*\<close> values that exist: the addresses of the two members of the thing.\<close>

datatype kii_ptr = CommandHandler | StateUpdater

primrec get_kii :: "kii_ptr \<Rightarrow> 'p kii_thing_if_t \<Rightarrow> 'p kii_t" where
  "get_kii CommandHandler t = command_handler t"
| "get_kii StateUpdater t = state_updater t"

primrec put_kii :: "kii_ptr \<Rightarrow> 'p kii_t \<Rightarrow> 'p kii_thing_if_t \<Rightarrow> 'p kii_thing_if_t" where
  "put_kii CommandHandler k t = t\<lparr>command_handler := k\<rparr>"
| "put_kii StateUpdater k t = t\<lparr>state_updater := k\<rparr>"

section \<open>JSON reading: the types of kii_json and jsmn that the SDK uses\<close>

datatype kii_json_parse_result =
    KII_JSON_PARSE_SUCCESS
  | KII_JSON_PARSE_PARTIAL_SUCCESS
  | KII_JSON_PARSE_ROOT_TYPE_ERROR
  | KII_JSON_PARSE_INVALID_INPUT
  | KII_JSON_PARSE_unlisted

datatype kii_json_field_parse_result =
    KII_JSON_FIELD_PARSE_SUCCESS
  | KII_JSON_FIELD_PARSE_COPY_FAILED
  | KII_JSON_FIELD_PARSE_unlisted

datatype kii_json_field_type =
    KII_JSON_FIELD_TYPE_STRING
  | KII_JSON_FIELD_TYPE_OBJECT
  | KII_JSON_FIELD_TYPE_ARRAY

text \<open>
  One entry of a \<open>kii_json_field_t\<close> array; the entry with a NULL name and path that ends the
  array is the end of the list. \<open>jf_copy\<close> is the array that \<open>field_copy.string\<close> points to:
  the reader hands its new contents back in the same field.
\<close>

record kii_json_field_t =
  jf_name :: "string option"
  jf_path :: "string option"
  jf_type :: kii_json_field_type
  jf_copy :: "char list option"
  jf_copy_size :: nat
  jf_result :: kii_json_field_parse_result
  jf_start :: nat
  jf_end :: nat

datatype jsmntype_t = JSMN_PRIMITIVE | JSMN_OBJECT | JSMN_ARRAY | JSMN_STRING

record jsmntok_t =
  tok_type :: jsmntype_t
  tok_start :: int
  tok_end :: int

datatype jsmn_result = JSMN_count nat | JSMN_ERROR_NOMEM | JSMN_ERROR_INVAL | JSMN_ERROR_PART
  | JSMN_ERROR_unlisted

section \<open>Observable calls\<close>

text \<open>
  The calls that leave the SDK, in the order in which they are made, each with the value it
  returned. The list is part of the state of the model only: the program never reads it.
\<close>

datatype event =
    ApiStart kii_ptr string string "string option" bool int
  | ApiAppend kii_ptr string int
  | ApiRun kii_ptr int
  | ActionCall string string string bool "string option"
  | PushStart kii_ptr int
  | TaskCreate string kii_ptr bool
  | DelayMs "32 word"

section \<open>State and environment\<close>

text \<open>
  \<open>thing\<close> is the \<open>kii_thing_if_t\<close> instance; \<open>err\<close> is the object behind the caller's \<open>error\<close>
  argument (\<open>None\<close> for NULL), which every function passes on unchanged; \<open>msg\<close> is the array
  behind the \<open>buffer\<close> argument of the push callbacks; \<open>heap\<close> holds the buffers that the
  application hands to the initialisers; \<open>world\<close> is everything outside the program.
\<close>

record ('p, 'w) st =
  thing :: "'p kii_thing_if_t"
  err :: "kii_thing_if_error_t option"
  msg :: "char list"
  heap :: "buf_ptr \<Rightarrow> char list option"
  world :: 'w
  trace :: "event list"

text \<open>
  \<open>noassert\<close> says whether the SDK is built with \<open>KII_THING_IF_NOASSERT\<close>; \<open>ulongbufsize\<close> is the
  value of the macro \<open>ULONGBUFSIZE\<close>, which depends on how \<open>limits.h\<close> spells \<open>ULONG_MAX\<close>;
  \<open>token_num\<close> is \<open>KII_JSON_FIXED_TOKEN_NUM\<close>, which CMakeLists.txt sets to 128;
  \<open>field_zero\<close> is the enumerator that \<open>memset(fields, 0, ...)\<close> leaves in \<open>result\<close>, and
  \<open>http_error_zero\<close> the one a zeroed \<open>kii_t\<close> has in \<open>http_error\<close>; \<open>zero_private\<close> is the zeroed remainder of a \<open>kii_t\<close>. The other fields are functions: those
  of the Kii library and jsmn, and the application's callbacks by their pointer.

  \<open>jsmn_parse\<close> returns its result and the tokens it filled in; the entries of the token array
  behind them stay uninitialised. An action handler returns its result and, if it wrote the
  \<open>error\<close> array at all, the message in it.
\<close>

record ('p, 'w) env =
  noassert :: bool
  ulongbufsize :: nat
  token_num :: nat
  field_zero :: kii_json_field_parse_result
  http_error_zero :: kii_http_error
  zero_private :: 'p
  kii_init_with_info :: "'p kii_t \<Rightarrow> string \<Rightarrow> string \<Rightarrow> string \<Rightarrow> string \<Rightarrow> int \<times> 'p kii_t"
  kii_api_call_start ::
    "'p kii_t \<Rightarrow> string \<Rightarrow> string \<Rightarrow> string option \<Rightarrow> bool \<Rightarrow> 'w \<Rightarrow> int \<times> 'p kii_t \<times> 'w"
  kii_api_call_append_body :: "'p kii_t \<Rightarrow> string \<Rightarrow> 'w \<Rightarrow> int \<times> 'p kii_t \<times> 'w"
  kii_api_call_run :: "'p kii_t \<Rightarrow> 'w \<Rightarrow> int \<times> 'p kii_t \<times> 'w"
  kii_push_start_routine :: "'p kii_t \<Rightarrow> 'w \<Rightarrow> int \<times> 'p kii_t \<times> 'w"
  kii_json_read_object ::
    "string \<Rightarrow> kii_json_field_t list \<Rightarrow> kii_json_parse_result \<times> kii_json_field_t list"
  jsmn_parse :: "string \<Rightarrow> nat \<Rightarrow> jsmn_result \<times> jsmntok_t list"
  call_task_create :: "fn_ptr \<Rightarrow> string \<Rightarrow> kii_ptr \<Rightarrow> 'w \<Rightarrow> bool \<times> 'w"
  call_delay_ms :: "fn_ptr \<Rightarrow> 32 word \<Rightarrow> 'w \<Rightarrow> 'w"
  call_action_handler ::
    "fn_ptr \<Rightarrow> string \<Rightarrow> string \<Rightarrow> string \<Rightarrow> 'w \<Rightarrow> (bool \<times> string option) \<times> 'w"
  call_state_handler ::
    "fn_ptr \<Rightarrow> kii_ptr \<Rightarrow> (kii_ptr \<Rightarrow> string \<Rightarrow> (('p, 'w) st, bool) prog) \<Rightarrow>
      (('p, 'w) st, bool) prog"
  call_push_handler :: "fn_ptr \<Rightarrow> kii_ptr \<Rightarrow> nat \<Rightarrow> (('p, 'w) st, bool) prog"

definition kii_of :: "kii_ptr \<Rightarrow> ('p, 'w) st \<Rightarrow> 'p kii_t" where
  "kii_of p s = get_kii p (thing s)"

definition update_kii :: "kii_ptr \<Rightarrow> ('p kii_t \<Rightarrow> 'p kii_t) \<Rightarrow> (('p, 'w) st, unit) prog" where
  "update_kii p f = modify (\<lambda>s. s\<lparr>thing := put_kii p (f (kii_of p s)) (thing s)\<rparr>)"

definition update_thing :: "('p kii_thing_if_t \<Rightarrow> 'p kii_thing_if_t) \<Rightarrow> (('p, 'w) st, unit) prog"
where
  "update_thing f = modify (\<lambda>s. s\<lparr>thing := f (thing s)\<rparr>)"

text \<open>\<open>if (error != NULL) { error->... = ...; }\<close>\<close>

definition update_err ::
  "(kii_thing_if_error_t \<Rightarrow> kii_thing_if_error_t) \<Rightarrow> (('p, 'w) st, unit) prog" where
  "update_err f = modify (\<lambda>s. s\<lparr>err := map_option f (err s)\<rparr>)"

definition set_err_code :: "kii_thing_if_error_code_t \<Rightarrow> (('p, 'w) st, unit) prog" where
  "set_err_code c = update_err (\<lambda>e. e\<lparr>code := c\<rparr>)"

definition m_assert :: "('p, 'w) env \<Rightarrow> bool \<Rightarrow> ('s, unit) prog" where
  "m_assert env b = (if b \<or> noassert env then ret () else fail AssertFail)"

section \<open>Calls of the library\<close>

definition call_kii ::
  "kii_ptr \<Rightarrow> ('p kii_t \<Rightarrow> 'w \<Rightarrow> int \<times> 'p kii_t \<times> 'w) \<Rightarrow> (int \<Rightarrow> event) \<Rightarrow> (('p, 'w) st, int) prog"
where
  "call_kii p f ev = (\<lambda>s. case f (kii_of p s) (world s) of (r, k, w) \<Rightarrow>
     Inr (r, s\<lparr>thing := put_kii p k (thing s), world := w, trace := trace s @ [ev r]\<rparr>))"

definition api_start ::
  "('p, 'w) env \<Rightarrow> kii_ptr \<Rightarrow> string \<Rightarrow> string \<Rightarrow> string option \<Rightarrow> bool \<Rightarrow> (('p, 'w) st, int) prog"
where
  "api_start env p meth path ctype auth =
     call_kii p (\<lambda>k. kii_api_call_start env k meth path ctype auth)
       (ApiStart p meth path ctype auth)"

definition api_append :: "('p, 'w) env \<Rightarrow> kii_ptr \<Rightarrow> string \<Rightarrow> (('p, 'w) st, int) prog" where
  "api_append env p b = call_kii p (\<lambda>k. kii_api_call_append_body env k b) (ApiAppend p b)"

definition api_run :: "('p, 'w) env \<Rightarrow> kii_ptr \<Rightarrow> (('p, 'w) st, int) prog" where
  "api_run env p = call_kii p (kii_api_call_run env) (ApiRun p)"

definition push_start :: "('p, 'w) env \<Rightarrow> kii_ptr \<Rightarrow> (('p, 'w) st, int) prog" where
  "push_start env p = call_kii p (kii_push_start_routine env) (PushStart p)"

definition task_create ::
  "('p, 'w) env \<Rightarrow> fn_ptr \<Rightarrow> string \<Rightarrow> kii_ptr \<Rightarrow> (('p, 'w) st, bool) prog" where
  "task_create env cb name p = (\<lambda>s. case call_task_create env cb name p (world s) of (ok, w) \<Rightarrow>
     Inr (ok, s\<lparr>world := w, trace := trace s @ [TaskCreate name p ok]\<rparr>))"

definition log_event :: "event \<Rightarrow> ('w \<Rightarrow> 'w) \<Rightarrow> (('p, 'w) st, unit) prog" where
  "log_event e f = modify (\<lambda>s. s\<lparr>world := f (world s), trace := trace s @ [e]\<rparr>)"

lemma get_put_kii [simp]: "get_kii p (put_kii q k t) = (if p = q then k else get_kii p t)"
  by (cases p; cases q) auto

lemma put_kii_frame [simp]:
  "state (put_kii p k t) = state t"
  "action_handler (put_kii p k t) = action_handler t"
  "state_handler_for_period (put_kii p k t) = state_handler_for_period t"
  "state_handler_for_command_reaction (put_kii p k t) = state_handler_for_command_reaction t"
  "custom_push_handler (put_kii p k t) = custom_push_handler t"
  "state_update_period (put_kii p k t) = state_update_period t"
  by (cases p; simp)+

lemma update_err_apply [simp]: "update_err f s = Inr ((), s\<lparr>err := map_option f (err s)\<rparr>)"
  by (simp add: update_err_def)

lemma set_err_code_apply [simp]:
  "set_err_code c s = Inr ((), s\<lparr>err := map_option (\<lambda>e. e\<lparr>code := c\<rparr>) (err s)\<rparr>)"
  by (simp add: set_err_code_def)

lemma update_kii_apply [simp]:
  "update_kii p f s = Inr ((), s\<lparr>thing := put_kii p (f (kii_of p s)) (thing s)\<rparr>)"
  by (simp add: update_kii_def)

lemma update_thing_apply [simp]: "update_thing f s = Inr ((), s\<lparr>thing := f (thing s)\<rparr>)"
  by (simp add: update_thing_def)

lemma m_assert_eq_Inr: "m_assert env b s = Inr (u, s') \<longleftrightarrow> (b \<or> noassert env) \<and> s' = s"
  by (auto simp: m_assert_def)

lemma preserves_m_assert [preserves_intros]: "preserves I (m_assert env b)"
  by (simp add: m_assert_def preserves_intros)

end
