(* ===== verification/Api.thy ===== *)
theory Api
  imports Kii
begin

text \<open>
  The contract between the SDK's operations and the calls they make: the HTTP requests that a
  list of observed calls amounts to (the abstract view that the functional theorems are stated
  in), the documented frame of the library's calls, and the interface \<open>api_invariant\<close>, through
  which an invariant of the library's calls becomes an invariant of every operation built on
  them.
\<close>

section \<open>Requests\<close>

record request =
  rq_method :: string
  rq_path :: string
  rq_content_type :: "string option"
  rq_auth :: bool
  rq_body :: string

text \<open>
  The request under construction on one \<open>kii_t\<close>, and the requests that were run on it. A start
  that succeeds opens a request, an append that succeeds extends its body, a run closes it.
\<close>

fun step_request ::
  "kii_ptr \<Rightarrow> event \<Rightarrow> request option \<times> request list \<Rightarrow> request option \<times> request list" where
  "step_request p (ApiStart q meth path ctype auth r) (cur, done) =
     (if q \<noteq> p then (cur, done)
      else if r \<noteq> 0 then (None, done)
      else (Some \<lparr>rq_method = meth, rq_path = path, rq_content_type = ctype, rq_auth = auth,
              rq_body = []\<rparr>, done))"
| "step_request p (ApiAppend q b r) (cur, done) =
     (if q = p \<and> r = 0 then (map_option (rq_body_update (\<lambda>x. x @ b)) cur, done)
      else (cur, done))"
| "step_request p (ApiRun q r) (cur, done) =
     (if q \<noteq> p then (cur, done)
      else (None, done @ (case cur of None \<Rightarrow> [] | Some rq \<Rightarrow> [rq])))"
| "step_request p _ x = x"

definition replay ::
  "kii_ptr \<Rightarrow> event list \<Rightarrow> request option \<times> request list \<Rightarrow> request option \<times> request list" where
  "replay p es x = fold (step_request p) es x"

definition requests :: "kii_ptr \<Rightarrow> event list \<Rightarrow> request list" where
  "requests p es = snd (replay p es (None, []))"

lemma replay_Nil [simp]: "replay p [] x = x"
  by (simp add: replay_def)

lemma replay_Cons [simp]: "replay p (e # es) x = replay p es (step_request p e x)"
  by (simp add: replay_def)

lemma replay_append [simp]: "replay p (es @ fs) x = replay p fs (replay p es x)"
  by (simp add: replay_def)

lemma replay_appends [simp]:
  "replay p (map (\<lambda>c. ApiAppend p c 0) cs) (Some rq, d) =
     (Some (rq_body_update (\<lambda>x. x @ concat cs) rq), d)"
  by (induction cs arbitrary: rq) simp_all

text \<open>The calls of one request that goes through: start, the body's pieces, run.\<close>

definition call_events ::
  "kii_ptr \<Rightarrow> string \<Rightarrow> string \<Rightarrow> string option \<Rightarrow> bool \<Rightarrow> string list \<Rightarrow> event list" where
  "call_events p meth path ctype auth cs =
     ApiStart p meth path ctype auth 0 # map (\<lambda>c. ApiAppend p c 0) cs @ [ApiRun p 0]"

lemma replay_call_events [simp]:
  "replay p (call_events p meth path ctype auth cs) (cur, d) =
     (None, d @ [\<lparr>rq_method = meth, rq_path = path, rq_content_type = ctype, rq_auth = auth,
        rq_body = concat cs\<rparr>])"
  by (simp add: call_events_def)

text \<open>
  \<open>new\<close> runs exactly the requests \<open>rqs\<close> on \<open>p\<close>, whatever was made before it: it leaves no request
  open, and discards one that was.
\<close>

definition runs :: "kii_ptr \<Rightarrow> event list \<Rightarrow> request list \<Rightarrow> bool" where
  "runs p new rqs \<longleftrightarrow> (\<forall>cur d. snd (replay p new (cur, d)) = d @ rqs)"

lemma runs_Nil: "runs p [] []"
  by (simp add: runs_def)

lemma runs_append: "runs p es rqs \<Longrightarrow> runs p fs rqs' \<Longrightarrow> runs p (es @ fs) (rqs @ rqs')"
  unfolding runs_def by (metis append.assoc prod.collapse replay_append)

lemma runs_requests: "runs p new rqs \<Longrightarrow> requests p new = rqs"
  by (simp add: runs_def requests_def)

lemma requests_then_runs: "runs p new rqs \<Longrightarrow> requests p (old @ new) = requests p old @ rqs"
  unfolding runs_def requests_def replay_append by (metis prod.collapse)

lemma runs_call_events:
  "runs p (call_events p meth path ctype auth cs)
     [\<lparr>rq_method = meth, rq_path = path, rq_content_type = ctype, rq_auth = auth,
        rq_body = concat cs\<rparr>]"
  by (simp add: runs_def)

text \<open>
  The calls that a task which works on \<open>p\<close> makes: requests on \<open>p\<close>, action handlers and delays.
  Requests of two such tasks do not depend on how their calls interleave.
\<close>

fun made_on :: "kii_ptr \<Rightarrow> event \<Rightarrow> bool" where
  "made_on p (ApiStart q meth path ctype auth r) = (q = p)"
| "made_on p (ApiAppend q b r) = (q = p)"
| "made_on p (ApiRun q r) = (q = p)"
| "made_on p (ActionCall al name val ok e) = True"
| "made_on p (DelayMs ms) = True"
| "made_on p (PushStart q r) = False"
| "made_on p (TaskCreate name q ok) = False"

lemma made_on_other: "made_on q e \<Longrightarrow> p \<noteq> q \<Longrightarrow> step_request p e x = x"
  by (cases e; cases x) auto

lemma replay_other: "list_all (made_on q) es \<Longrightarrow> p \<noteq> q \<Longrightarrow> replay p es x = x"
  by (induction es) (auto simp: made_on_other)

lemma replay_shuffles:
  assumes "list_all (made_on p) xs" and "list_all (made_on q) ys" and "p \<noteq> q"
    and "es \<in> shuffles xs ys"
  shows "replay p es x = replay p xs x"
  using assms
proof (induction xs ys arbitrary: es x rule: shuffles.induct)
  case (3 a xs b ys)
  then consider (left) fs where "es = a # fs" and "fs \<in> shuffles xs (b # ys)"
    | (right) fs where "es = b # fs" and "fs \<in> shuffles (a # xs) ys"
    by auto
  then show ?case
  proof cases
    case left
    with 3 show ?thesis by simp
  next
    case right
    with 3 made_on_other [of q b p] show ?thesis by simp
  qed
qed (auto simp: replay_other)

lemma requests_shuffles:
  assumes "list_all (made_on p) xs" and "list_all (made_on q) ys" and "p \<noteq> q"
    and "es \<in> shuffles xs ys"
  shows "requests p es = requests p xs" and "requests q es = requests q ys"
proof -
  have "es \<in> shuffles ys xs" using assms(4) by (simp add: shuffles_commutes)
  with replay_shuffles [OF assms(2,1) _ this] replay_shuffles [OF assms]  assms(3)
  show "requests p es = requests p xs" and "requests q es = requests q ys"
    by (simp_all add: requests_def)
qed

section \<open>The frame of the library's calls\<close>

text \<open>
  The Kii library's documentation has a request built and run on a \<open>kii_t\<close> without changing
  the identity it is configured with: application, author, application context and the delay
  callback.
\<close>

definition same_identity :: "'p kii_t \<Rightarrow> 'p kii_t \<Rightarrow> bool" where
  "same_identity k k' \<longleftrightarrow>
     app_id k' = app_id k \<and> app_key k' = app_key k \<and> author k' = author k \<and>
     app_context k' = app_context k \<and> delay_ms_cb k' = delay_ms_cb k"

definition kii_api_frame :: "('p, 'w) env \<Rightarrow> bool" where
  "kii_api_frame env \<longleftrightarrow>
     (\<forall>k w meth path ctype auth.
        same_identity k (fst (snd (kii_api_call_start env k meth path ctype auth w)))) \<and>
     (\<forall>k w b. same_identity k (fst (snd (kii_api_call_append_body env k b w)))) \<and>
     (\<forall>k w. same_identity k (fst (snd (kii_api_call_run env k w))))"

lemma same_identity_refl [simp]: "same_identity k k"
  by (simp add: same_identity_def)

lemma same_identity_trans: "same_identity k l \<Longrightarrow> same_identity l m \<Longrightarrow> same_identity k m"
  by (simp add: same_identity_def)

section \<open>One call\<close>

lemma call_kii_eq_Inr:
  "call_kii p f ev s = Inr (r, s') \<longleftrightarrow>
     (\<exists>k w. f (kii_of p s) (world s) = (r, k, w) \<and>
        s' = s\<lparr>thing := put_kii p k (thing s), world := w, trace := trace s @ [ev r]\<rparr>)"
  by (auto simp: call_kii_def split: prod.splits)

lemma call_kii_total [simp]: "call_kii p f ev s \<noteq> Inl e"
  by (simp add: call_kii_def split: prod.splits)

lemma kii_of_updates [simp]:
  "kii_of p (s\<lparr>world := w\<rparr>) = kii_of p s"
  "kii_of p (s\<lparr>trace := es\<rparr>) = kii_of p s"
  "kii_of p (s\<lparr>err := e\<rparr>) = kii_of p s"
  "kii_of p (s\<lparr>msg := b\<rparr>) = kii_of p s"
  "kii_of p (s\<lparr>heap := h\<rparr>) = kii_of p s"
  "kii_of p (s\<lparr>thing := put_kii q k t\<rparr>) = (if p = q then k else get_kii p t)"
  by (simp_all add: kii_of_def)

lemma call_kii_trace: "call_kii p f ev s = Inr (r, s') \<Longrightarrow> trace s' = trace s @ [ev r]"
  by (auto simp: call_kii_eq_Inr)

lemma call_kii_msg: "call_kii p f ev s = Inr (r, s') \<Longrightarrow> msg s' = msg s"
  by (auto simp: call_kii_eq_Inr)

lemma call_kii_err: "call_kii p f ev s = Inr (r, s') \<Longrightarrow> err s' = err s"
  by (auto simp: call_kii_eq_Inr)

lemma call_kii_state: "call_kii p f ev s = Inr (r, s') \<Longrightarrow> state (thing s') = state (thing s)"
  by (auto simp: call_kii_eq_Inr)

lemma call_kii_other: "call_kii p f ev s = Inr (r, s') \<Longrightarrow> p \<noteq> q \<Longrightarrow> kii_of q s' = kii_of q s"
  by (auto simp: call_kii_eq_Inr kii_of_def)

lemmas api_defs = api_start_def api_append_def api_run_def

lemma api_call_identity:
  assumes "kii_api_frame env"
  shows "api_start env p meth path ctype auth s = Inr (r, s') \<Longrightarrow> same_identity (kii_of p s) (kii_of p s')"
    and "api_append env p b s = Inr (r, s') \<Longrightarrow> same_identity (kii_of p s) (kii_of p s')"
    and "api_run env p s = Inr (r, s') \<Longrightarrow> same_identity (kii_of p s) (kii_of p s')"
  using assms
  by (auto simp: api_defs call_kii_eq_Inr kii_api_frame_def kii_of_def) (metis fst_conv snd_conv)+

section \<open>The interface: invariants of the calls\<close>

text \<open>
  \<open>append_invariant\<close> is what code that only writes a request body on \<open>p\<close> needs to know of a
  state predicate to preserve it; \<open>api_invariant\<close> adds what an operation that builds and runs
  requests needs, \<open>author_invariant\<close> the writes to the author that onboarding makes.
\<close>

locale append_invariant =
  fixes env :: "('p, 'w) env" and p :: kii_ptr and I :: "('p, 'w) st \<Rightarrow> bool"
  assumes append_inv: "preserves I (api_append env p b)"

locale api_invariant = append_invariant +
  assumes start_inv: "preserves I (api_start env p meth path ctype auth)"
    and run_inv: "preserves I (api_run env p)"
    and err_inv: "preserves I (update_err f)"
begin

lemmas call_intros = start_inv append_inv run_inv err_inv preserves_intros

lemma set_err_code_inv: "preserves I (set_err_code c)"
  unfolding set_err_code_def by (rule err_inv)

end

locale author_invariant = api_invariant +
  assumes author_inv: "preserves I (update_kii p (\<lambda>k. k\<lparr>author := a k\<rparr>))"

text \<open>
  Facts that hold whatever the library does: the life cycle state, the other \<open>kii_t\<close>, the
  message buffer and the calls made so far are out of reach of a request on \<open>p\<close>.
\<close>

interpretation state_frame: author_invariant env p "\<lambda>s. state (thing s) = x"
  for env :: "('p, 'w) env" and p x
  by unfold_locales
    (auto intro!: preservesI dest: call_kii_state simp: api_defs)

interpretation msg_frame: author_invariant env p "\<lambda>s. msg s = x"
  for env :: "('p, 'w) env" and p x
  by unfold_locales
    (auto intro!: preservesI dest: call_kii_msg simp: api_defs)

interpretation updater_frame: author_invariant env CommandHandler "\<lambda>s. kii_of StateUpdater s = x"
  for env :: "('p, 'w) env" and x
  by unfold_locales
    (auto intro!: preservesI dest: call_kii_other simp: api_defs kii_of_def)

interpretation handler_frame: author_invariant env StateUpdater "\<lambda>s. kii_of CommandHandler s = x"
  for env :: "('p, 'w) env" and x
  by unfold_locales
    (auto intro!: preservesI dest: call_kii_other simp: api_defs kii_of_def)

interpretation trace_prefix: author_invariant env p "\<lambda>s. \<exists>es. trace s = x @ es"
  for env :: "('p, 'w) env" and p x
  by unfold_locales
    (auto intro!: preservesI dest!: call_kii_trace simp: api_defs)

definition grows_on :: "kii_ptr \<Rightarrow> event list \<Rightarrow> ('p, 'w) st \<Rightarrow> bool" where
  "grows_on p x s \<longleftrightarrow> (\<exists>es. trace s = x @ es \<and> list_all (made_on p) es)"

interpretation own_calls: author_invariant env p "grows_on p x"
  for env :: "('p, 'w) env" and p x
  by unfold_locales
    (auto intro!: preservesI dest!: call_kii_trace simp: api_defs grows_on_def)

text \<open>Under the documented frame, the identity of the \<open>kii_t\<close> that a request runs on is kept.\<close>

lemma identity_frame:
  assumes "kii_api_frame env"
  shows "api_invariant env p (\<lambda>s. same_identity k (kii_of p s))"
  by unfold_locales
    (auto intro!: preservesI intro: same_identity_trans dest: api_call_identity [OF assms])

lemma identity_append:
  "kii_api_frame env \<Longrightarrow> append_invariant env p (\<lambda>s. same_identity k (kii_of p s))"
  by (rule api_invariant.axioms(1) [OF identity_frame])

end
