(* ===== verification/Json_Body.thy ===== *)
theory Json_Body
  imports Api
begin

text \<open>
  Writing the members of a JSON request body (kii_thing_if.c, \<open>prv_append_key_value\<close> and its
  callers \<open>prv_append_key_value_string\<close>, \<open>..._string_optional\<close>, \<open>..._object_optional\<close> and
  \<open>..._bool\<close>), the reference they are compared with (\<open>append_chunks\<close>: a list of texts appended
  in order until one is refused), and the text that a member comes to.
\<close>

definition dquote :: string where
  "dquote = [CHR 0x22]"

section \<open>The code\<close>

definition prv_append_key_value ::
  "('p, 'w) env \<Rightarrow> kii_ptr \<Rightarrow> string option \<Rightarrow> string option \<Rightarrow> bool \<Rightarrow> bool \<Rightarrow> (('p, 'w) st, int) prog"
where
  "prv_append_key_value env kii key value is_successor is_string =
     (case key of
        None \<Rightarrow> ret (- 1)
      | Some key \<Rightarrow>
          (case value of
             None \<Rightarrow> ret (- 1)
           | Some value \<Rightarrow>
               chain (if is_successor then api_append env kii '','' else ret 0) (\<lambda>r.
               if r \<noteq> 0 then ret (- 1)
               else
                 chain (or_chain
                   [api_append env kii dquote,
                    api_append env kii key,
                    api_append env kii (dquote @ '':'')]) (\<lambda>failed.
                 if failed then ret (- 1)
                 else if is_string then
                   chain (or_chain
                     [api_append env kii dquote,
                      api_append env kii value,
                      api_append env kii dquote]) (\<lambda>failed.
                   if failed then ret (- 1) else ret 0)
                 else
                   chain (api_append env kii value) (\<lambda>r.
                   if r \<noteq> 0 then ret (- 1) else ret 0)))))"

definition prv_append_key_value_string ::
  "('p, 'w) env \<Rightarrow> kii_ptr \<Rightarrow> string option \<Rightarrow> string option \<Rightarrow> bool \<Rightarrow> (('p, 'w) st, int) prog"
where
  "prv_append_key_value_string env kii key value is_successor =
     prv_append_key_value env kii key value is_successor True"

definition prv_append_key_value_string_optional ::
  "('p, 'w) env \<Rightarrow> kii_ptr \<Rightarrow> string option \<Rightarrow> string option \<Rightarrow> bool \<Rightarrow> (('p, 'w) st, int) prog"
where
  "prv_append_key_value_string_optional env kii key value is_successor =
     (if key = None \<or> value = None then ret 0
      else prv_append_key_value env kii key value is_successor True)"

definition prv_append_key_value_object_optional ::
  "('p, 'w) env \<Rightarrow> kii_ptr \<Rightarrow> string option \<Rightarrow> string option \<Rightarrow> bool \<Rightarrow> (('p, 'w) st, int) prog"
where
  "prv_append_key_value_object_optional env kii key value is_successor =
     (if key = None \<or> value = None then ret 0
      else prv_append_key_value env kii key value is_successor False)"

definition prv_append_key_value_bool ::
  "('p, 'w) env \<Rightarrow> kii_ptr \<Rightarrow> string option \<Rightarrow> bool \<Rightarrow> bool \<Rightarrow> (('p, 'w) st, int) prog"
where
  "prv_append_key_value_bool env kii key value is_successor =
     prv_append_key_value env kii key (Some (if value then ''true'' else ''false'')) is_successor
       False"

section \<open>The reference\<close>

primrec append_chunks :: "('p, 'w) env \<Rightarrow> kii_ptr \<Rightarrow> string list \<Rightarrow> (('p, 'w) st, int) prog" where
  "append_chunks env p [] = ret 0"
| "append_chunks env p (c # cs) =
     chain (api_append env p c) (\<lambda>r. if r \<noteq> 0 then ret (- 1) else append_chunks env p cs)"

text \<open>The pieces of one member: \<open>"key":"value"\<close> or \<open>"key":value\<close>, after a comma or not.\<close>

definition kv_chunks :: "string \<Rightarrow> string \<Rightarrow> bool \<Rightarrow> bool \<Rightarrow> string list" where
  "kv_chunks k v is_successor is_string =
     (if is_successor then ['',''] else []) @ [dquote, k, dquote @ '':''] @
     (if is_string then [dquote, v, dquote] else [v])"

definition kv_text :: "string \<Rightarrow> string \<Rightarrow> bool \<Rightarrow> string" where
  "kv_text k v is_string =
     dquote @ k @ dquote @ '':'' @ (if is_string then dquote @ v @ dquote else v)"

definition opt_chunks :: "string \<Rightarrow> string option \<Rightarrow> bool \<Rightarrow> string list" where
  "opt_chunks k v is_string = (case v of None \<Rightarrow> [] | Some x \<Rightarrow> kv_chunks k x True is_string)"

lemma concat_kv_chunks:
  "concat (kv_chunks k v is_successor is_string) =
     (if is_successor then '','' else []) @ kv_text k v is_string"
  by (simp add: kv_chunks_def kv_text_def)

lemma concat_opt_chunks:
  "concat (opt_chunks k v is_string) =
     (case v of None \<Rightarrow> [] | Some x \<Rightarrow> '','' @ kv_text k x is_string)"
  by (simp add: opt_chunks_def concat_kv_chunks split: option.split)

section \<open>The code is the reference\<close>

lemma append_chunks_append:
  "append_chunks env p (xs @ ys) =
     chain (append_chunks env p xs) (\<lambda>r. if r \<noteq> 0 then ret (- 1) else append_chunks env p ys)"
  by (induction xs) (simp_all add: chain_if cong: if_cong del: ret_apply)

lemma append_chunks_appI:
  "append_chunks env p xs s = Inr (0, t) \<Longrightarrow> append_chunks env p ys t = Inr (0, u) \<Longrightarrow>
     append_chunks env p (xs @ ys) s = Inr (0, u)"
  by (simp add: append_chunks_append)

lemma or_chain_api_append:
  "or_chain (api_append env p c # ms) = or_chain (append_chunks env p [c] # ms)"
  by (simp add: chain_if cong: if_cong del: ret_apply)

lemma or_chain_api_append2:
  "or_chain (m # api_append env p c # ms) = or_chain (m # append_chunks env p [c] # ms)"
  by (simp add: chain_if cong: if_cong del: ret_apply)

lemma or_chain_chunks:
  "or_chain (append_chunks env p xs # append_chunks env p ys # ms) =
     or_chain (append_chunks env p (xs @ ys) # ms)"
  by (simp add: append_chunks_append chain_if cong: if_cong del: ret_apply)

lemma or_chain_last:
  "or_chain [append_chunks env p xs] = chain (append_chunks env p xs) (\<lambda>r. ret (r \<noteq> 0))"
  by (simp add: if_ret_bool cong: if_cong del: ret_apply)

lemmas or_chain_norm = or_chain_api_append or_chain_api_append2 or_chain_chunks or_chain_last

text \<open>
  The result of the reference is 0 or -1, it never faults, and what was appended is the whole
  list, or a proper prefix of it followed by the piece that was refused.
\<close>

lemma append_chunks_outcome:
  obtains (all) s' where "append_chunks env p cs s = Inr (0, s')"
      and "trace s' = trace s @ map (\<lambda>c. ApiAppend p c 0) cs"
  | (refused) s' ds c es r where "append_chunks env p cs s = Inr (- 1, s')"
      and "cs = ds @ c # es" and "r \<noteq> 0"
      and "trace s' = trace s @ map (\<lambda>c. ApiAppend p c 0) ds @ [ApiAppend p c r]"
proof (induction cs arbitrary: s thesis)
  case Nil
  then show ?case by simp
next
  case (Cons c cs)
  obtain r t where r: "api_append env p c s = Inr (r, t)"
    by (cases "api_append env p c s") (auto simp: api_append_def)
  then have tr: "trace t = trace s @ [ApiAppend p c r]"
    unfolding api_append_def by (rule call_kii_trace)
  show ?case
  proof (cases "r = 0")
    case False
    with r tr show ?thesis
      by (intro Cons.prems(2) [where ds = "[]" and c = c and es = cs and r = r and s' = t]) auto
  next
    case True
    show ?thesis
    proof (rule Cons.IH [of t])
      fix u
      assume "append_chunks env p cs t = Inr (0, u)"
        and "trace u = trace t @ map (\<lambda>c. ApiAppend p c 0) cs"
      with r tr True show ?thesis
        by (intro Cons.prems(1) [where s' = u]) auto
    next
      fix u ds d es q
      assume "append_chunks env p cs t = Inr (- 1, u)" and "cs = ds @ d # es" and "q \<noteq> 0"
        and "trace u = trace t @ map (\<lambda>c. ApiAppend p c 0) ds @ [ApiAppend p d q]"
      with r tr True show ?thesis
        by (intro Cons.prems(2) [where ds = "c # ds" and c = d and es = es and r = q and s' = u])
          auto
    qed
  qed
qed

lemma append_chunks_ok_trace:
  "append_chunks env p cs s = Inr (0, s') \<Longrightarrow>
    trace s' = trace s @ map (\<lambda>c. ApiAppend p c 0) cs"
  by (rule append_chunks_outcome [of env p cs s]) auto

lemma append_chunks_err: "append_chunks env p cs s = Inr (r, s') \<Longrightarrow> err s' = err s"
  by (induction cs arbitrary: s)
    (auto simp: chain_eq_Inr api_append_def dest!: call_kii_err split: if_splits)

lemma append_chunks_total [simp]: "append_chunks env p cs s \<noteq> Inl e"
  by (rule append_chunks_outcome [of env p cs s]) auto

lemma prv_append_key_value_chunks:
  "prv_append_key_value env p (Some k) (Some v) is_successor is_string =
     append_chunks env p (kv_chunks k v is_successor is_string)"
  by (simp add: prv_append_key_value_def kv_chunks_def chain_if cong: if_cong del: ret_apply)

lemma prv_append_key_value_NULL:
  "k = None \<or> v = None \<Longrightarrow> prv_append_key_value env p k v is_successor is_string = ret (- 1)"
  by (auto simp: prv_append_key_value_def split: option.split)

lemma prv_append_optional_chunks:
  "prv_append_key_value_string_optional env p (Some k) v True =
     append_chunks env p (opt_chunks k v True)"
  "prv_append_key_value_object_optional env p (Some k) v True =
     append_chunks env p (opt_chunks k v False)"
  by (cases v; simp add: prv_append_key_value_string_optional_def opt_chunks_def
      prv_append_key_value_object_optional_def prv_append_key_value_chunks)+

lemma prv_append_key_value_bool_chunks:
  "prv_append_key_value_bool env p (Some k) b is_successor =
     append_chunks env p (kv_chunks k (if b then ''true'' else ''false'') is_successor False)"
  by (simp add: prv_append_key_value_bool_def prv_append_key_value_chunks)

lemmas body_chunks = prv_append_key_value_string_def prv_append_key_value_chunks
  prv_append_optional_chunks prv_append_key_value_bool_chunks

lemma append_string_ok:
  "prv_append_key_value_string env p (Some k) v is_successor s = Inr (0, s') \<longleftrightarrow>
     (\<exists>x. v = Some x \<and> append_chunks env p (kv_chunks k x is_successor True) s = Inr (0, s'))"
  by (cases v)
    (simp_all add: prv_append_key_value_string_def prv_append_key_value_chunks
      prv_append_key_value_NULL)

section \<open>Invariants\<close>

context append_invariant
begin

lemma append_chunks_inv: "preserves I (append_chunks env p cs)"
  by (induction cs) (simp_all add: append_inv preserves_intros del: ret_apply)

lemma prv_append_key_value_inv: "preserves I (prv_append_key_value env p k v is_successor is_string)"
  by (cases k; cases v)
    (simp_all add: prv_append_key_value_NULL prv_append_key_value_chunks append_chunks_inv
      preserves_ret)

lemma append_members_inv:
  "preserves I (prv_append_key_value_string env p k v is_successor)"
  "preserves I (prv_append_key_value_string_optional env p k v is_successor)"
  "preserves I (prv_append_key_value_object_optional env p k v is_successor)"
  "preserves I (prv_append_key_value_bool env p k b is_successor)"
  by (simp_all add: prv_append_key_value_string_def prv_append_key_value_string_optional_def
      prv_append_key_value_object_optional_def prv_append_key_value_bool_def
      prv_append_key_value_inv preserves_ret)

lemma append_chunks_I: "append_chunks env p cs s = Inr (r, s') \<Longrightarrow> I s \<Longrightarrow> I s'"
  by (rule preservesD [OF append_chunks_inv])

lemmas append_intros = append_chunks_inv append_members_inv append_inv preserves_intros

end

context api_invariant
begin

lemmas body_intros = append_chunks_inv append_members_inv call_intros set_err_code_inv

end

lemma append_chunks_ok:
  assumes "kii_api_frame env" and "append_chunks env p cs s = Inr (0, s')"
  shows "trace s' = trace s @ map (\<lambda>c. ApiAppend p c 0) cs"
    and "same_identity (kii_of p s) (kii_of p s')"
  using append_invariant.append_chunks_I [OF identity_append [OF assms(1)] assms(2)]
    append_chunks_ok_trace [OF assms(2)] by auto

section \<open>Properties\<close>

text \<open>
  C35. Writing a member. \<open>prv_append_key_value\<close>, with its nested tests, is the reference that
  appends a list of pieces until one is refused, and \<open>-1\<close> when key or value is NULL; its callers
  for optional members do the same, but succeed without an append where key or value is NULL. The
  pieces come to the text of a JSON member, behind a comma for a successor. Neither key nor value
  is escaped, and an empty value is written: as \<open>"key":""\<close>, or as \<open>"key":\<close> with nothing behind the
  colon, which is no JSON, where it is an object (the header says that empty values are ignored).
\<close>

theorem prv_append_key_value_reference:
  "prv_append_key_value env kii key val is_successor is_string =
     (case (key, val) of
        (Some k, Some v) \<Rightarrow> append_chunks env kii (kv_chunks k v is_successor is_string)
      | _ \<Rightarrow> ret (- 1)) \<and>
   prv_append_key_value_string_optional env kii key val is_successor =
     (case (key, val) of
        (Some k, Some v) \<Rightarrow> append_chunks env kii (kv_chunks k v is_successor True)
      | _ \<Rightarrow> ret 0) \<and>
   prv_append_key_value_object_optional env kii key val is_successor =
     (case (key, val) of
        (Some k, Some v) \<Rightarrow> append_chunks env kii (kv_chunks k v is_successor False)
      | _ \<Rightarrow> ret 0) \<and>
   concat (kv_chunks name txt is_successor is_string) =
     (if is_successor then '','' else []) @ dquote @ name @ dquote @ '':'' @
     (if is_string then dquote @ txt @ dquote else txt)"
  by (cases key; cases val)
    (simp_all add: prv_append_key_value_chunks prv_append_key_value_NULL
      prv_append_key_value_string_optional_def prv_append_key_value_object_optional_def
      concat_kv_chunks kv_text_def)

end
