(* ===== verification/Sample_Env.thy ===== *)
theory Sample_Env
  imports Api
begin

text \<open>
  A concrete environment at which the theorems with hypotheses about the library are evaluated:
  a library that builds requests in a bounded buffer, a server that answers from a list, a JSON
  reader for compact texts without escapes, and simple callbacks. It stands for no code of the
  repository and no theorem about the SDK rests on it; it shows that their hypotheses can hold.
\<close>

section \<open>Reading compact JSON\<close>

text \<open>The length of the value at the head of a text; \<open>d\<close> is the nesting depth.\<close>

fun json_value_len :: "nat \<Rightarrow> bool \<Rightarrow> string \<Rightarrow> nat" where
  "json_value_len d in_str [] = 0"
| "json_value_len d True (c # cs) =
     (if c = CHR 0x22 then (if d = 0 then 1 else Suc (json_value_len d False cs))
      else Suc (json_value_len d True cs))"
| "json_value_len d False (c # cs) =
     (if c = CHR 0x22 then Suc (json_value_len d True cs)
      else if c = CHR ''{'' \<or> c = CHR ''['' then Suc (json_value_len (Suc d) False cs)
      else if c = CHR ''}'' \<or> c = CHR '']'' then
        (if d \<le> 1 then d else Suc (json_value_len (d - 1) False cs))
      else if c = CHR '','' \<and> d = 0 then 0
      else Suc (json_value_len d False cs))"

text \<open>The span of a value, without the quotes of a string.\<close>

definition span_of :: "nat \<Rightarrow> string \<Rightarrow> nat \<times> nat" where
  "span_of off t =
     (let n = json_value_len 0 False t
      in if t \<noteq> [] \<and> hd t = CHR 0x22 then (off + 1, off + n - 1) else (off, off + n))"

fun members :: "nat \<Rightarrow> nat \<Rightarrow> string \<Rightarrow> (string \<times> nat \<times> nat) list" where
  "members 0 off t = []"
| "members (Suc fuel) off t =
     (if t = [] \<or> hd t \<noteq> CHR 0x22 then []
      else
        let k = json_value_len 0 False t;
            key = take (k - 2) (tl t);
            rest = drop (Suc k) t;
            v = json_value_len 0 False rest;
            more = drop v rest
        in (key, span_of (off + Suc k) rest) #
           (if more \<noteq> [] \<and> hd more = CHR '','' then members fuel (off + Suc k + Suc v) (tl more)
            else []))"

fun elements :: "nat \<Rightarrow> nat \<Rightarrow> nat \<Rightarrow> string \<Rightarrow> (nat \<times> nat \<times> nat) list" where
  "elements 0 i off t = []"
| "elements (Suc fuel) i off t =
     (if t = [] \<or> hd t = CHR '']'' then []
      else
        let v = json_value_len 0 False t; more = drop v t
        in (i, span_of off t) #
           (if more \<noteq> [] \<and> hd more = CHR '','' then
              elements fuel (Suc i) (off + Suc v) (tl more)
            else []))"

definition spans :: "string \<Rightarrow> (string \<times> nat \<times> nat) list" where
  "spans t =
     (if t = [] then []
      else if hd t = CHR ''{'' then
        map (\<lambda>(k, r). (CHR ''/'' # k, r)) (members (length t) 1 (tl t))
      else if hd t = CHR ''['' then
        map (\<lambda>(i, r). (''/['' @ show_nat i @ '']'', r)) (elements (length t) 0 1 (tl t))
      else [])"

definition read_field ::
  "string \<Rightarrow> (string \<times> nat \<times> nat) list \<Rightarrow> kii_json_field_t \<Rightarrow> kii_json_field_t" where
  "read_field t sp f =
     (let key = (case jf_path f of Some q \<Rightarrow> q
                 | None \<Rightarrow> (case jf_name f of Some n \<Rightarrow> CHR ''/'' # n | None \<Rightarrow> []))
      in case map_of sp key of
           None \<Rightarrow> f\<lparr>jf_result := KII_JSON_FIELD_PARSE_unlisted\<rparr>
         | Some (b, e) \<Rightarrow>
             (let g = f\<lparr>jf_start := b, jf_end := e, jf_result := KII_JSON_FIELD_PARSE_SUCCESS\<rparr>
              in case jf_copy f of
                   None \<Rightarrow> g
                 | Some a \<Rightarrow>
                     if e - b < jf_copy_size f \<and> jf_copy_size f \<le> length a then
                       g\<lparr>jf_copy := Some (strncpy a (take (e - b) (drop b t)))\<rparr>
                     else g\<lparr>jf_result := KII_JSON_FIELD_PARSE_COPY_FAILED\<rparr>))"

definition sample_read ::
  "string \<Rightarrow> kii_json_field_t list \<Rightarrow> kii_json_parse_result \<times> kii_json_field_t list" where
  "sample_read t fs =
     (if t = [] \<or> hd t \<noteq> CHR ''{'' \<and> hd t \<noteq> CHR ''['' then (KII_JSON_PARSE_INVALID_INPUT, fs)
      else
        let gs = map (read_field t (spans t)) fs
        in (if list_all (\<lambda>g. jf_result g = KII_JSON_FIELD_PARSE_SUCCESS) gs
            then KII_JSON_PARSE_SUCCESS else KII_JSON_PARSE_PARTIAL_SUCCESS, gs))"

text \<open>The first member of an object as jsmn tokens.\<close>

definition sample_jsmn :: "string \<Rightarrow> nat \<Rightarrow> jsmn_result \<times> jsmntok_t list" where
  "sample_jsmn t n =
     (if t = [] \<or> hd t \<noteq> CHR ''{'' then (JSMN_ERROR_INVAL, [])
      else if n < 3 then (JSMN_ERROR_NOMEM, [])
      else case members 1 1 (tl t) of
          [] \<Rightarrow> (JSMN_count 1, [\<lparr>tok_type = JSMN_OBJECT, tok_start = 0, tok_end = int (length t)\<rparr>])
        | (k, b, e) # _ \<Rightarrow>
            (JSMN_count 3,
             [\<lparr>tok_type = JSMN_OBJECT, tok_start = 0, tok_end = int (length t)\<rparr>,
              \<lparr>tok_type = JSMN_STRING, tok_start = 2, tok_end = int (2 + length k)\<rparr>,
              \<lparr>tok_type = JSMN_PRIMITIVE, tok_start = int b, tok_end = int e\<rparr>]))"

section \<open>The library and the callbacks\<close>

text \<open>
  \<open>kii_private\<close> is the room left in the HTTP buffer; the world is the list of the server's
  answers, each a status and a body.
\<close>

type_synonym sample_world = "(int \<times> string) list"

definition sample_start ::
  "nat kii_t \<Rightarrow> string \<Rightarrow> string \<Rightarrow> string option \<Rightarrow> bool \<Rightarrow> sample_world \<Rightarrow>
     int \<times> nat kii_t \<times> sample_world" where
  "sample_start k meth path ctype auth w =
     (if length path \<le> http_buffer_size k
      then (0, k\<lparr>kii_private := http_buffer_size k - length path\<rparr>, w) else (- 1, k, w))"

definition sample_append ::
  "nat kii_t \<Rightarrow> string \<Rightarrow> sample_world \<Rightarrow> int \<times> nat kii_t \<times> sample_world" where
  "sample_append k b w =
     (if length b \<le> kii_private k then (0, k\<lparr>kii_private := kii_private k - length b\<rparr>, w)
      else (- 1, k, w))"

definition sample_run :: "nat kii_t \<Rightarrow> sample_world \<Rightarrow> int \<times> nat kii_t \<times> sample_world" where
  "sample_run k w =
     (case w of
        [] \<Rightarrow> (- 1, k\<lparr>http_error := KII_HTTP_ERROR_SOCKET\<rparr>, [])
      | (c, b) # w' \<Rightarrow>
          (0, k\<lparr>http_error := KII_HTTP_ERROR_NONE, response_code := c, response_body := Some b\<rparr>,
           w'))"

definition sample_env :: "(nat, sample_world) env" where
  "sample_env =
     \<lparr>noassert = False,
      ulongbufsize = 35,
      token_num = 128,
      field_zero = KII_JSON_FIELD_PARSE_SUCCESS,
      http_error_zero = KII_HTTP_ERROR_NONE,
      zero_private = 0,
      kii_init_with_info = (\<lambda>k host appid appkey info. (0, k\<lparr>app_id := appid, app_key := appkey\<rparr>)),
      kii_api_call_start = sample_start,
      kii_api_call_append_body = sample_append,
      kii_api_call_run = sample_run,
      kii_push_start_routine = (\<lambda>k w. (0, k, w)),
      kii_json_read_object = sample_read,
      jsmn_parse = sample_jsmn,
      call_task_create = (\<lambda>f name p w. (True, w)),
      call_delay_ms = (\<lambda>f ms w. w),
      call_action_handler = (\<lambda>f al name val w. ((True, None), w)),
      call_state_handler = (\<lambda>f p wr. wr p (''{'' @ [CHR 0x22] @ ''power'' @ [CHR 0x22] @ '':true}'')),
      call_push_handler = (\<lambda>f p n. ret False)\<rparr>"

definition sample_author :: kii_author_t where
  "sample_author =
     \<lparr>author_id = ''thing1'' @ replicate 10 NUL, access_token = ''token1'' @ replicate 10 NUL\<rparr>"

definition sample_kii :: "nat kii_t" where
  "sample_kii =
     \<lparr>app_id = ''app1'', app_key = ''key1'', author = sample_author, response_code = 0,
      response_body = None, http_error = KII_HTTP_ERROR_NONE, http_buffer = Some 1,
      http_buffer_size = 1000, connect_cb = Some 1, send_cb = Some 2, recv_cb = Some 3,
      close_cb = Some 4, logger_cb = None, mqtt_buffer = Some 2, mqtt_buffer_size = 1000,
      mqtt_socket_connect_cb = Some 5, mqtt_socket_send_cb = Some 6,
      mqtt_socket_recv_cb = Some 7, mqtt_socket_close_cb = Some 8, task_create_cb = Some 9,
      delay_ms_cb = Some 10, kii_json_resource_cb = None, app_context = ThingIfContext,
      kii_private = 0\<rparr>"

definition sample_thing :: "kii_thing_if_state_t \<Rightarrow> nat kii_thing_if_t" where
  "sample_thing x =
     \<lparr>command_handler = sample_kii, state_updater = sample_kii, action_handler = Some 11,
      state_handler_for_period = Some 12, state_handler_for_command_reaction = Some 12,
      custom_push_handler = None, state_update_period = 60, state = x\<rparr>"

definition sample_error :: kii_thing_if_error_t where
  "sample_error =
     \<lparr>code = KII_THING_IF_ERROR_HTTP, http_status_code = 0, error_code = replicate 64 NUL\<rparr>"

definition sample_st :: "kii_thing_if_state_t \<Rightarrow> sample_world \<Rightarrow> (nat, sample_world) st" where
  "sample_st x w =
     \<lparr>thing = sample_thing x, err = Some sample_error, msg = [], heap = (\<lambda>_. None), world = w,
      trace = []\<rparr>"

lemma sample_frame: "kii_api_frame sample_env"
  by (simp add: kii_api_frame_def sample_env_def sample_start_def sample_append_def sample_run_def
      same_identity_def split: list.split)

lemma sample_env_simps [simp]:
  "noassert sample_env = False"
  "kii_api_call_start sample_env = sample_start"
  "kii_api_call_append_body sample_env = sample_append"
  "kii_api_call_run sample_env = sample_run"
  "kii_json_read_object sample_env = sample_read"
  by (simp_all add: sample_env_def)

text \<open>The server's answers: a token, a registration, one string member.\<close>

definition member_text :: "string \<Rightarrow> string \<Rightarrow> string" where
  "member_text k v = [CHR 0x22] @ k @ [CHR 0x22] @ '':'' @ [CHR 0x22] @ v @ [CHR 0x22]"

definition sample_answers :: sample_world where
  "sample_answers =
     [(200, ''{'' @ member_text ''access_token'' ''anon'' @ ''}''),
      (200, ''{'' @ member_text ''thingID'' ''th2'' @ '','' @ member_text ''accessToken'' ''tok2'' @
         ''}'')]"

end
