(* ===== verification/Http_Session.thy ===== *)
theory Http_Session
  imports Json_Body Sample_Env
begin

text \<open>
  Starting a request, reading a JSON response and running the request
  (kii_thing_if.c, \<open>prv_kii_api_call_start\<close>, \<open>prv_kii_thing_if_json_read_object\<close>,
  \<open>prv_execute_http_session\<close>).
\<close>

section \<open>Fields of a JSON read\<close>

text \<open>
  \<open>memset(fields, 0, ...)\<close> and the assignments that follow it. A field is looked up by \<open>path\<close>
  or by \<open>name\<close>; \<open>copy\<close> is the array that a string is copied into, with its size.
\<close>

definition field_by_path ::
  "('p, 'w) env \<Rightarrow> string \<Rightarrow> kii_json_field_type \<Rightarrow> (char list \<times> nat) option \<Rightarrow> kii_json_field_t"
where
  "field_by_path env path ty copy =
     \<lparr>jf_name = None, jf_path = Some path, jf_type = ty, jf_copy = map_option fst copy,
      jf_copy_size = (case copy of None \<Rightarrow> 0 | Some (_, n) \<Rightarrow> n), jf_result = field_zero env,
      jf_start = 0, jf_end = 0\<rparr>"

definition field_by_name ::
  "('p, 'w) env \<Rightarrow> string \<Rightarrow> kii_json_field_type \<Rightarrow> (char list \<times> nat) option \<Rightarrow> kii_json_field_t"
where
  "field_by_name env name ty copy =
     \<lparr>jf_name = Some name, jf_path = None, jf_type = ty, jf_copy = map_option fst copy,
      jf_copy_size = (case copy of None \<Rightarrow> 0 | Some (_, n) \<Rightarrow> n), jf_result = field_zero env,
      jf_start = 0, jf_end = 0\<rparr>"

definition field_at :: "kii_json_field_t list \<Rightarrow> nat \<Rightarrow> ('s, kii_json_field_t) prog" where
  "field_at fs n = (if n < length fs then ret (fs ! n) else fail OutOfBounds)"

text \<open>What the array behind \<open>field_copy.string\<close> holds after the read.\<close>

definition copied :: "kii_json_field_t \<Rightarrow> char list \<Rightarrow> char list" where
  "copied f old = (case jf_copy f of None \<Rightarrow> old | Some a \<Rightarrow> a)"

lemma field_at_eq_Inr: "field_at fs n s = Inr (f, s') \<longleftrightarrow> n < length fs \<and> f = fs ! n \<and> s' = s"
  by (auto simp: field_at_def)

lemma preserves_field_at [preserves_intros]: "preserves I (field_at fs n)"
  by (simp add: field_at_def preserves_intros)

section \<open>The code\<close>

definition prv_kii_api_call_start ::
  "('p, 'w) env \<Rightarrow> kii_ptr \<Rightarrow> string \<Rightarrow> string \<Rightarrow> string option \<Rightarrow> bool \<Rightarrow> (('p, 'w) st, int) prog"
where
  "prv_kii_api_call_start env kii http_method resource_path content_type
       set_authentication_header =
     chain (api_start env kii http_method resource_path content_type set_authentication_header)
       (\<lambda>retval.
     if retval \<noteq> 0 then
       chain (set_err_code KII_THING_IF_ERROR_INSUFFICIENT_BUFFER) (\<lambda>_. ret retval)
     else ret retval)"

text \<open>
  The error string buffer and the token resource that the source passes along are not consulted
  by the callers; the reader's result and the fields it fills in are.
\<close>

definition prv_kii_thing_if_json_read_object ::
  "('p, 'w) env \<Rightarrow> string \<Rightarrow> kii_json_field_t list \<Rightarrow>
     kii_json_parse_result \<times> kii_json_field_t list" where
  "prv_kii_thing_if_json_read_object env json_string fs =
     kii_json_read_object env json_string fs"

definition prv_execute_http_session :: "('p, 'w) env \<Rightarrow> kii_ptr \<Rightarrow> (('p, 'w) st, bool) prog" where
  "prv_execute_http_session env kii =
     chain (api_run env kii) (\<lambda>r.
     if r \<noteq> 0 then
       chain (gets err) (\<lambda>e.
       case e of
         None \<Rightarrow> ret False
       | Some _ \<Rightarrow>
           chain (gets (\<lambda>s. http_error (kii_of kii s))) (\<lambda>h.
           chain (case h of
               KII_HTTP_ERROR_NONE \<Rightarrow> set_err_code KII_THING_IF_ERROR_INSUFFICIENT_BUFFER
             | KII_HTTP_ERROR_INSUFFICIENT_BUFFER \<Rightarrow>
                 set_err_code KII_THING_IF_ERROR_INSUFFICIENT_BUFFER
             | KII_HTTP_ERROR_SOCKET \<Rightarrow> set_err_code KII_THING_IF_ERROR_SOCKET
             | KII_HTTP_ERROR_INVALID_RESPONSE \<Rightarrow> m_assert env False
             | KII_HTTP_ERROR_unlisted \<Rightarrow> m_assert env False) (\<lambda>_.
           ret False)))
     else
       chain (gets (\<lambda>s. response_code (kii_of kii s))) (\<lambda>status.
       if status < 200 \<or> status \<ge> 300 then
         chain (gets err) (\<lambda>e.
         case e of
           None \<Rightarrow> ret False
         | Some e \<Rightarrow>
             chain (gets (\<lambda>s. response_body (kii_of kii s))) (\<lambda>b.
             chain (deref b) (\<lambda>body.
             case prv_kii_thing_if_json_read_object env body
                 [field_by_path env ''/errorCode'' KII_JSON_FIELD_TYPE_STRING
                    (Some (error_code e, length (error_code e)))] of
               (_, fs) \<Rightarrow>
                 chain (field_at fs 0) (\<lambda>f.
                 chain (update_err (\<lambda>e. e\<lparr>error_code := copied f (error_code e)\<rparr>)) (\<lambda>_.
                 chain (set_err_code KII_THING_IF_ERROR_HTTP) (\<lambda>_.
                 chain (update_err (\<lambda>e. e\<lparr>http_status_code := status\<rparr>)) (\<lambda>_.
                 ret False)))))))
       else ret True))"

section \<open>Outcome\<close>

text \<open>The error code for a run that did not complete; \<open>None\<close> where the source asserts.\<close>

definition transport_error :: "kii_http_error \<Rightarrow> kii_thing_if_error_code_t option" where
  "transport_error h =
     (if h = KII_HTTP_ERROR_SOCKET then Some KII_THING_IF_ERROR_SOCKET
      else if h = KII_HTTP_ERROR_NONE \<or> h = KII_HTTP_ERROR_INSUFFICIENT_BUFFER
        then Some KII_THING_IF_ERROR_INSUFFICIENT_BUFFER
      else None)"

lemma api_run_eq_Inr:
  "api_run env p s = Inr (r, s') \<longleftrightarrow>
     (\<exists>k w. kii_api_call_run env (kii_of p s) (world s) = (r, k, w) \<and>
        s' = s\<lparr>thing := put_kii p k (thing s), world := w, trace := trace s @ [ApiRun p r]\<rparr>)"
  by (auto simp: api_run_def call_kii_eq_Inr)

lemma api_run_apply:
  "kii_api_call_run env (kii_of p s) (world s) = (r, k, w) \<Longrightarrow>
     api_run env p s =
       Inr (r, s\<lparr>thing := put_kii p k (thing s), world := w, trace := trace s @ [ApiRun p r]\<rparr>)"
  by (simp add: api_run_def call_kii_def)

lemma session_failed_run:
  assumes "kii_api_call_run env (kii_of p s) (world s) = (r, k, w)" and "r \<noteq> 0"
    and s1: "s1 = s\<lparr>thing := put_kii p k (thing s), world := w, trace := trace s @ [ApiRun p r]\<rparr>"
  shows "prv_execute_http_session env p s =
     (case err s of
        None \<Rightarrow> Inr (False, s1)
      | Some e \<Rightarrow>
          (case transport_error (http_error k) of
             Some c \<Rightarrow> Inr (False, s1\<lparr>err := Some (e\<lparr>code := c\<rparr>)\<rparr>)
           | None \<Rightarrow> if noassert env then Inr (False, s1) else Inl AssertFail))"
  using assms(2)
  by (cases "err s"; cases "http_error k")
    (simp_all add: prv_execute_http_session_def api_run_apply [OF assms(1)] s1 kii_of_def
      transport_error_def m_assert_def)

lemma session_completed_run:
  assumes "kii_api_call_run env (kii_of p s) (world s) = (0, k, w)"
    and s1: "s1 = s\<lparr>thing := put_kii p k (thing s), world := w, trace := trace s @ [ApiRun p 0]\<rparr>"
  shows "prv_execute_http_session env p s =
     (if 200 \<le> response_code k \<and> response_code k < 300 then Inr (True, s1)
      else case err s of
        None \<Rightarrow> Inr (False, s1)
      | Some e \<Rightarrow>
          (case response_body k of
             None \<Rightarrow> Inl NullDeref
           | Some b \<Rightarrow>
               (case snd (kii_json_read_object env b
                   [field_by_path env ''/errorCode'' KII_JSON_FIELD_TYPE_STRING
                     (Some (error_code e, length (error_code e)))]) of
                  [] \<Rightarrow> Inl OutOfBounds
                | f # _ \<Rightarrow> Inr (False, s1\<lparr>err := Some (e\<lparr>code := KII_THING_IF_ERROR_HTTP,
                    http_status_code := response_code k,
                    error_code := copied f (error_code e)\<rparr>)\<rparr>))))"
  by (cases "err s"; cases "response_body k")
    (auto simp add: prv_execute_http_session_def api_run_apply [OF assms(1)] s1 kii_of_def
      prv_kii_thing_if_json_read_object_def field_at_def split: prod.split list.split)

lemma session_run_obtain:
  obtains r k w where "kii_api_call_run env (kii_of p s) (world s) = (r, k, w)"
  by (cases "kii_api_call_run env (kii_of p s) (world s)") auto

lemma session_success:
  assumes "prv_execute_http_session env p s = Inr (True, s')"
  shows "\<exists>k w. kii_api_call_run env (kii_of p s) (world s) = (0, k, w) \<and>
     200 \<le> response_code k \<and> response_code k < 300 \<and>
     s' = s\<lparr>thing := put_kii p k (thing s), world := w, trace := trace s @ [ApiRun p 0]\<rparr>"
proof -
  obtain r k w where run: "kii_api_call_run env (kii_of p s) (world s) = (r, k, w)"
    by (rule session_run_obtain)
  show ?thesis
  proof (cases "r = 0")
    case True
    with run assms show ?thesis
      by (auto simp: session_completed_run split: if_splits option.splits list.splits)
  next
    case False
    with assms show ?thesis
      by (auto simp: session_failed_run [OF run False refl] split: if_splits option.splits)
  qed
qed

lemma session_trace:
  assumes "prv_execute_http_session env p s = Inr (ok, s')"
  shows "\<exists>r. trace s' = trace s @ [ApiRun p r] \<and> (ok \<longrightarrow> r = 0)"
proof -
  obtain r k w where run: "kii_api_call_run env (kii_of p s) (world s) = (r, k, w)"
    by (rule session_run_obtain)
  show ?thesis
  proof (cases "r = 0")
    case True
    with run assms show ?thesis
      by (auto simp: session_completed_run split: if_splits option.splits list.splits)
  next
    case False
    with assms show ?thesis
      by (auto simp: session_failed_run [OF run False refl] split: if_splits option.splits)
  qed
qed

lemma prv_kii_api_call_start_ok:
  "prv_kii_api_call_start env p meth path ctype auth s = Inr (0, s') \<longleftrightarrow>
     api_start env p meth path ctype auth s = Inr (0, s')"
  by (auto simp: prv_kii_api_call_start_def chain_eq_Inr split: if_splits)

section \<open>Invariants\<close>

lemma preserves_http_error [preserves_intros]:
  "(h = KII_HTTP_ERROR_NONE \<Longrightarrow> preserves I a) \<Longrightarrow>
   (h = KII_HTTP_ERROR_INSUFFICIENT_BUFFER \<Longrightarrow> preserves I b) \<Longrightarrow>
   (h = KII_HTTP_ERROR_SOCKET \<Longrightarrow> preserves I c) \<Longrightarrow>
   (h = KII_HTTP_ERROR_INVALID_RESPONSE \<Longrightarrow> preserves I d) \<Longrightarrow>
   (h = KII_HTTP_ERROR_unlisted \<Longrightarrow> preserves I e) \<Longrightarrow>
   preserves I (case h of KII_HTTP_ERROR_NONE \<Rightarrow> a | KII_HTTP_ERROR_INSUFFICIENT_BUFFER \<Rightarrow> b
     | KII_HTTP_ERROR_SOCKET \<Rightarrow> c | KII_HTTP_ERROR_INVALID_RESPONSE \<Rightarrow> d
     | KII_HTTP_ERROR_unlisted \<Rightarrow> e)"
  by (cases h) auto

context api_invariant
begin

lemma prv_kii_api_call_start_inv:
  "preserves I (prv_kii_api_call_start env p meth path ctype auth)"
  unfolding prv_kii_api_call_start_def by (intro body_intros preserves_intros)

lemma prv_execute_http_session_inv: "preserves I (prv_execute_http_session env p)"
  unfolding prv_execute_http_session_def by (intro body_intros preserves_intros)

lemmas session_intros = body_intros prv_kii_api_call_start_inv prv_execute_http_session_inv

end

section \<open>A request that goes through\<close>

lemma request_ok:
  assumes frame: "kii_api_frame env"
    and start: "api_start env p meth path ctype auth s = Inr (0, s1)"
    and body: "append_chunks env p cs s1 = Inr (0, s2)"
    and run: "prv_execute_http_session env p s2 = Inr (True, s3)"
  shows "trace s3 = trace s @ call_events p meth path ctype auth cs"
    and "same_identity (kii_of p s) (kii_of p s3)"
proof -
  have "trace s1 = trace s @ [ApiStart p meth path ctype auth 0]"
    using start unfolding api_start_def by (rule call_kii_trace)
  with append_chunks_ok(1) [OF frame body] session_trace [OF run]
  show "trace s3 = trace s @ call_events p meth path ctype auth cs"
    by (auto simp: call_events_def)
  have "same_identity (kii_of p s2) (kii_of p s3)"
    using api_invariant.prv_execute_http_session_inv [OF identity_frame [OF frame]] run
    by (rule preservesD) simp
  with api_call_identity(1) [OF frame start] append_chunks_ok(2) [OF frame body]
  show "same_identity (kii_of p s) (kii_of p s3)"
    by (blast intro: same_identity_trans)
qed

section \<open>Properties\<close>

text \<open>
  C18. Running a request. \<open>prv_execute_http_session\<close> returns \<open>KII_TRUE\<close> exactly when the run
  completes and the HTTP status is in 200..299. It makes one call. It leaves the error object
  alone on success and when the caller passed none; on an HTTP failure it sets the code
  \<open>ERROR_HTTP\<close> and the status, on a failed run the code of the transport error, with the
  status left as it was.
\<close>

theorem prv_execute_http_session_outcome:
  assumes run: "kii_api_call_run env (kii_of p s) (world s) = (r, k, w)"
    and exec: "prv_execute_http_session env p s = Inr (ok, s')"
  shows "ok = (r = 0 \<and> 200 \<le> response_code k \<and> response_code k < 300)
    \<and> thing s' = put_kii p k (thing s) \<and> world s' = w \<and> trace s' = trace s @ [ApiRun p r]
    \<and> (if ok \<or> err s = None then err s' = err s
       else if r = 0 then
         map_option code (err s') = Some KII_THING_IF_ERROR_HTTP \<and>
         map_option http_status_code (err s') = Some (response_code k)
       else
         map_option http_status_code (err s') = map_option http_status_code (err s) \<and>
         (case transport_error (http_error k) of
            None \<Rightarrow> noassert env \<and> err s' = err s
          | Some c \<Rightarrow> map_option code (err s') = Some c))"
proof (cases "r = 0")
  case True
  with run exec show ?thesis
    by (auto simp: session_completed_run split: if_splits option.splits list.splits)
next
  case False
  with exec show ?thesis
    by (auto simp: session_failed_run [OF run False refl] split: if_splits option.splits)
qed

definition sample_session :: "fault + bool \<times> (nat, sample_world) st" where
  "sample_session = prv_execute_http_session sample_env CommandHandler
     (sample_st KII_THING_IF_STATE_ONBOARDED [(404, ''{'' @ member_text ''errorCode'' ''GONE'' @ ''}'')])"

theorem prv_execute_http_session_outcome_witness:
  "\<exists>s'. sample_session = Inr (False, s') \<and> map_option http_status_code (err s') = Some 404"
proof -
  let ?w = "[(404, ''{'' @ member_text ''errorCode'' ''GONE'' @ ''}'')]"
  let ?s = "sample_st KII_THING_IF_STATE_ONBOARDED ?w"
  let ?k = "sample_kii\<lparr>http_error := KII_HTTP_ERROR_NONE, response_code := 404,
    response_body := Some (''{'' @ member_text ''errorCode'' ''GONE'' @ ''}'')\<rparr>"
  have run: "kii_api_call_run sample_env (kii_of CommandHandler ?s) (world ?s) = (0, ?k, [])"
    by (simp add: sample_run_def sample_st_def sample_thing_def kii_of_def)
  have err: "err ?s \<noteq> None"
    by (simp add: sample_st_def)
  have "returns False sample_session" by code_simp
  then obtain s' where s': "sample_session = Inr (False, s')" by (rule returnsE)
  have "map_option http_status_code (err s') = Some 404"
    using prv_execute_http_session_outcome [OF run s' [unfolded sample_session_def]] err by simp
  with s' show ?thesis by blast
qed

end
