(* ===== verification/Resource_Path.thy ===== *)
theory Resource_Path
  imports Kii
begin

text \<open>
  The resource paths of the REST calls (kii_thing_if.c, the path macros and the functions
  \<open>prv_set_onboard_resource_path\<close>, \<open>prv_set_state_resource_path\<close>,
  \<open>prv_set_firmware_version_resource_path\<close>, \<open>prv_set_thing_type_resource_path\<close>). The four
  share one contract, the locale \<open>path_setter\<close>: the path is written when it fits into the
  caller's array with its NUL; when it does not, the debug build aborts at the assertion and
  the other returns \<open>KII_FALSE\<close>; nothing is ever written out of bounds.

  A setter returns \<open>Some path\<close> for \<open>KII_TRUE\<close> with the path in the caller's array and \<open>None\<close>
  for \<open>KII_FALSE\<close> with the array untouched.
\<close>

definition APP_PATH :: string where "APP_PATH = ''api/apps/''"
definition OAUTH_PATH :: string where "OAUTH_PATH = ''/oauth2/token''"
definition THING_IF_APP_PATH :: string where "THING_IF_APP_PATH = ''thing-if/apps/''"
definition ONBOARDING_PATH :: string where "ONBOARDING_PATH = ''/onboardings''"
definition TARGET_PART :: string where "TARGET_PART = ''/targets/thing:''"
definition COMMAND_PART :: string where "COMMAND_PART = ''/commands/''"
definition RESULTS_PART :: string where "RESULTS_PART = ''/action-results''"
definition STATES_PART :: string where "STATES_PART = ''/states''"
definition THINGS_PART :: string where "THINGS_PART = ''/things/''"
definition FIRMWARE_VERSION_PART :: string where "FIRMWARE_VERSION_PART = ''/firmware-version''"
definition THING_TYPE_PART :: string where "THING_TYPE_PART = ''/thing-type''"

lemmas path_parts = APP_PATH_def OAUTH_PATH_def THING_IF_APP_PATH_def ONBOARDING_PATH_def
  TARGET_PART_def COMMAND_PART_def RESULTS_PART_def STATES_PART_def THINGS_PART_def
  FIRMWARE_VERSION_PART_def THING_TYPE_PART_def

section \<open>The code\<close>

definition prv_set_onboard_resource_path ::
  "('p, 'w) env \<Rightarrow> string \<Rightarrow> nat \<Rightarrow> ('s, string option) prog" where
  "prv_set_onboard_resource_path env appid resource_path_len =
     (let onboard_resource_path_length =
        length THING_IF_APP_PATH + length appid + length ONBOARDING_PATH
      in if resource_path_len \<le> onboard_resource_path_length then
           chain (m_assert env False) (\<lambda>_. ret None)
         else
           chain (sprintf_buf resource_path_len (THING_IF_APP_PATH @ appid @ ONBOARDING_PATH))
             (\<lambda>path. ret (Some path)))"

definition prv_set_state_resource_path ::
  "('p, 'w) env \<Rightarrow> string \<Rightarrow> string \<Rightarrow> nat \<Rightarrow> ('s, string option) prog" where
  "prv_set_state_resource_path env appid authorid resource_path_len =
     (let state_resource_path_length =
        length THING_IF_APP_PATH + length appid + length TARGET_PART + length authorid +
        length STATES_PART
      in if resource_path_len \<le> state_resource_path_length then
           chain (m_assert env False) (\<lambda>_. ret None)
         else
           chain (sprintf_buf resource_path_len
               (THING_IF_APP_PATH @ appid @ TARGET_PART @ authorid @ STATES_PART))
             (\<lambda>path. ret (Some path)))"

definition prv_set_firmware_version_resource_path ::
  "('p, 'w) env \<Rightarrow> string \<Rightarrow> string \<Rightarrow> nat \<Rightarrow> ('s, string option) prog" where
  "prv_set_firmware_version_resource_path env appid authorid resource_path_len =
     (let firmware_version_resource_path_length =
        length THING_IF_APP_PATH + length appid + length THINGS_PART + length authorid +
        length FIRMWARE_VERSION_PART
      in if resource_path_len \<le> firmware_version_resource_path_length then
           chain (m_assert env False) (\<lambda>_. ret None)
         else
           chain (sprintf_buf resource_path_len
               (THING_IF_APP_PATH @ appid @ THINGS_PART @ authorid @ FIRMWARE_VERSION_PART))
             (\<lambda>path. ret (Some path)))"

definition prv_set_thing_type_resource_path ::
  "('p, 'w) env \<Rightarrow> string \<Rightarrow> string \<Rightarrow> nat \<Rightarrow> ('s, string option) prog" where
  "prv_set_thing_type_resource_path env appid authorid resource_path_len =
     (let thing_type_path_length =
        length THING_IF_APP_PATH + length appid + length THINGS_PART + length authorid +
        length THING_TYPE_PART
      in if resource_path_len \<le> thing_type_path_length then
           chain (m_assert env False) (\<lambda>_. ret None)
         else
           chain (sprintf_buf resource_path_len
               (THING_IF_APP_PATH @ appid @ THINGS_PART @ authorid @ THING_TYPE_PART))
             (\<lambda>path. ret (Some path)))"

section \<open>The texts\<close>

definition onboard_path :: "string \<Rightarrow> string" where
  "onboard_path app = ''thing-if/apps/'' @ app @ ''/onboardings''"

definition state_path :: "string \<Rightarrow> string \<Rightarrow> string" where
  "state_path app thing_id = ''thing-if/apps/'' @ app @ ''/targets/thing:'' @ thing_id @ ''/states''"

definition firmware_path :: "string \<Rightarrow> string \<Rightarrow> string" where
  "firmware_path app thing_id =
     ''thing-if/apps/'' @ app @ ''/things/'' @ thing_id @ ''/firmware-version''"

definition thing_type_path :: "string \<Rightarrow> string \<Rightarrow> string" where
  "thing_type_path app thing_id =
     ''thing-if/apps/'' @ app @ ''/things/'' @ thing_id @ ''/thing-type''"

lemmas path_texts = onboard_path_def state_path_def firmware_path_def thing_type_path_def

section \<open>The contract\<close>

locale path_setter =
  fixes env :: "('p, 'w) env"
    and setter :: "string \<Rightarrow> string \<Rightarrow> nat \<Rightarrow> ('s, string option) prog"
    and path_text :: "string \<Rightarrow> string \<Rightarrow> string"
  assumes fits:
      "length (path_text app i) < n \<Longrightarrow> setter app i n = ret (Some (path_text app i))"
    and too_long:
      "n \<le> length (path_text app i) \<Longrightarrow>
        setter app i n = (if noassert env then ret None else fail AssertFail)"
begin

lemma setter_cases:
  "setter app i n =
     (if length (path_text app i) < n then ret (Some (path_text app i))
      else if noassert env then ret None else fail AssertFail)"
  using fits [of app i n] too_long [of n app i] by auto

lemma setter_Some:
  "setter app i n s = Inr (Some q, s') \<longleftrightarrow>
     q = path_text app i \<and> length q < n \<and> s' = s"
  by (auto simp: setter_cases)

lemma setter_None:
  "setter app i n s = Inr (None, s') \<longleftrightarrow>
     noassert env \<and> n \<le> length (path_text app i) \<and> s' = s"
  by (auto simp: setter_cases)

lemma setter_fault:
  "setter app i n s = Inl e \<longleftrightarrow>
     e = AssertFail \<and> \<not> noassert env \<and> n \<le> length (path_text app i)"
  by (auto simp: setter_cases)

lemma preserves_setter: "preserves I (setter app i n)"
  by (simp add: setter_cases preserves_intros)

end

text \<open>Where the thing's ID is part of the path, different things have different paths.\<close>

locale thing_path_setter = path_setter +
  assumes thing_injective: "path_text app i = path_text app j \<Longrightarrow> i = j"
begin

lemma setter_injective:
  "setter app i n s = Inr (Some q, s') \<Longrightarrow> setter app j n s = Inr (Some q, s'') \<Longrightarrow> i = j"
  by (simp add: setter_Some) (metis thing_injective)

end

lemmas setter_defs = prv_set_onboard_resource_path_def prv_set_state_resource_path_def
  prv_set_firmware_version_resource_path_def prv_set_thing_type_resource_path_def

interpretation onboard_setter: path_setter env
  "\<lambda>app i. prv_set_onboard_resource_path env app" "\<lambda>app i. onboard_path app"
  for env :: "('p, 'w) env"
  by unfold_locales
    (auto simp: setter_defs path_texts path_parts m_assert_def sprintf_buf_def)

interpretation state_setter: thing_path_setter env
  "prv_set_state_resource_path env" state_path
  for env :: "('p, 'w) env"
  by unfold_locales
    (auto simp: setter_defs path_texts path_parts m_assert_def sprintf_buf_def)

interpretation firmware_setter: thing_path_setter env
  "prv_set_firmware_version_resource_path env" firmware_path
  for env :: "('p, 'w) env"
  by unfold_locales
    (auto simp: setter_defs path_texts path_parts m_assert_def sprintf_buf_def)

interpretation thing_type_setter: thing_path_setter env
  "prv_set_thing_type_resource_path env" thing_type_path
  for env :: "('p, 'w) env"
  by unfold_locales
    (auto simp: setter_defs path_texts path_parts m_assert_def sprintf_buf_def)

lemmas setters_Some = onboard_setter.setter_Some state_setter.setter_Some
  firmware_setter.setter_Some thing_type_setter.setter_Some

lemmas setters_None = onboard_setter.setter_None state_setter.setter_None
  firmware_setter.setter_None thing_type_setter.setter_None

lemmas setters_fault = onboard_setter.setter_fault state_setter.setter_fault
  firmware_setter.setter_fault thing_type_setter.setter_fault

lemmas preserves_setters [preserves_intros] = onboard_setter.preserves_setter
  state_setter.preserves_setter firmware_setter.preserves_setter
  thing_type_setter.preserves_setter

section \<open>Properties\<close>

text \<open>
  C36. The four resource paths. Each setter writes the whole path, with its NUL, into an array
  that is large enough and refuses every other: an assertion stops the program, or, in a build
  without assertions, it returns \<open>KII_FALSE\<close> with nothing written. No path is ever cut short.
\<close>

theorem resource_paths_fit:
  "prv_set_onboard_resource_path env app n s =
     (if length app + 26 < n then Inr (Some (onboard_path app), s)
      else if noassert env then Inr (None, s) else Inl AssertFail) \<and>
   prv_set_state_resource_path env app i n s =
     (if length app + length i + 36 < n then Inr (Some (state_path app i), s)
      else if noassert env then Inr (None, s) else Inl AssertFail) \<and>
   prv_set_firmware_version_resource_path env app i n s =
     (if length app + length i + 39 < n then Inr (Some (firmware_path app i), s)
      else if noassert env then Inr (None, s) else Inl AssertFail) \<and>
   prv_set_thing_type_resource_path env app i n s =
     (if length app + length i + 33 < n then Inr (Some (thing_type_path app i), s)
      else if noassert env then Inr (None, s) else Inl AssertFail)"
  by (simp add: onboard_setter.setter_cases state_setter.setter_cases
      firmware_setter.setter_cases thing_type_setter.setter_cases path_texts)

end
