(* ===== verification/Onboarding.thy ===== *)
theory Onboarding
  imports Http_Session Resource_Path Sample_Env
begin

text \<open>
  Onboarding (kii_thing_if.c: \<open>prv_kii_thing_if_get_anonymous_token\<close>,
  \<open>prv_thing_if_parse_onboarding_response\<close>, \<open>prv_onboard_with_vendor_thing_id\<close>,
  \<open>prv_onboard_with_thing_id\<close>, \<open>prv_set_author\<close> and the two public functions).

  Onboarding runs two requests on the command handler's \<open>kii_t\<close>: an anonymous token is
  obtained and stored as the author's access token, then the thing is registered under it and
  the response overwrites the author's ID and token. Only when both succeed is the author
  copied to the state updater's \<open>kii_t\<close> and the thing marked onboarded.
\<close>

definition CONTENT_TYPE_VENDOR_THING_ID :: string where
  "CONTENT_TYPE_VENDOR_THING_ID = ''application/vnd.kii.OnboardingWithVendorThingIDByThing+json''"

definition CONTENT_TYPE_THING_ID :: string where
  "CONTENT_TYPE_THING_ID = ''application/vnd.kii.OnboardingWithThingIDByThing+json''"

section \<open>The code\<close>

definition prv_kii_thing_if_get_anonymous_token ::
  "('p, 'w) env \<Rightarrow> kii_ptr \<Rightarrow> (('p, 'w) st, int) prog" where
  "prv_kii_thing_if_get_anonymous_token env kii =
     chain (gets (\<lambda>s. app_id (kii_of kii s))) (\<lambda>appid.
     let oauth_path_length = length APP_PATH + length appid + length OAUTH_PATH in
     if 64 \<le> oauth_path_length then
       chain (set_err_code KII_THING_IF_ERROR_INSUFFICIENT_BUFFER) (\<lambda>_. ret (- 1))
     else
       chain (sprintf_buf 64 (APP_PATH @ appid @ OAUTH_PATH)) (\<lambda>resource_path.
       chain (api_start env kii ''POST'' resource_path (Some ''application/json'') False) (\<lambda>r.
       if r \<noteq> 0 then
         chain (set_err_code KII_THING_IF_ERROR_INSUFFICIENT_BUFFER) (\<lambda>_. ret (- 1))
       else
         chain (or_chain
           [api_append env kii ''{'',
            prv_append_key_value_string env kii (Some ''grant_type'') (Some ''client_credentials'')
              False,
            chain (gets (\<lambda>s. app_id (kii_of kii s))) (\<lambda>a.
              prv_append_key_value_string env kii (Some ''client_id'') (Some a) True),
            chain (gets (\<lambda>s. app_key (kii_of kii s))) (\<lambda>a.
              prv_append_key_value_string env kii (Some ''client_secret'') (Some a) True),
            api_append env kii ''}'']) (\<lambda>failed.
         if failed then
           chain (set_err_code KII_THING_IF_ERROR_INSUFFICIENT_BUFFER) (\<lambda>_. ret (- 1))
         else
           chain (prv_execute_http_session env kii) (\<lambda>ok.
           if \<not> ok then ret (- 1)
           else
             chain (gets (\<lambda>s. access_token (author (kii_of kii s)))) (\<lambda>token.
             chain (gets (\<lambda>s. response_body (kii_of kii s))) (\<lambda>b.
             chain (deref b) (\<lambda>body.
             case prv_kii_thing_if_json_read_object env body
                 [field_by_path env ''/access_token'' KII_JSON_FIELD_TYPE_STRING
                    (Some (token, length token))] of
               (result, fs) \<Rightarrow>
                 chain (field_at fs 0) (\<lambda>f.
                 chain (update_kii kii (\<lambda>k. k\<lparr>author :=
                     (author k)\<lparr>access_token := copied f (access_token (author k))\<rparr>\<rparr>)) (\<lambda>_.
                 if result \<noteq> KII_JSON_PARSE_SUCCESS then
                   chain (set_err_code KII_THING_IF_ERROR_INVALID_PAYLOAD) (\<lambda>_. ret (- 1))
                 else ret 0)))))))))) "

definition prv_thing_if_parse_onboarding_response ::
  "('p, 'w) env \<Rightarrow> kii_ptr \<Rightarrow> (('p, 'w) st, int) prog" where
  "prv_thing_if_parse_onboarding_response env kii =
     chain (gets (\<lambda>s. author (kii_of kii s))) (\<lambda>a.
     chain (gets (\<lambda>s. response_body (kii_of kii s))) (\<lambda>b.
     chain (deref b) (\<lambda>body.
     case prv_kii_thing_if_json_read_object env body
         [field_by_name env ''thingID'' KII_JSON_FIELD_TYPE_STRING
            (Some (author_id a, length (author_id a))),
          field_by_name env ''accessToken'' KII_JSON_FIELD_TYPE_STRING
            (Some (access_token a, length (access_token a)))] of
       (result, fs) \<Rightarrow>
         chain (field_at fs 0) (\<lambda>f0.
         chain (field_at fs 1) (\<lambda>f1.
         chain (update_kii kii (\<lambda>k. k\<lparr>author :=
             \<lparr>author_id = copied f0 (author_id (author k)),
              access_token = copied f1 (access_token (author k))\<rparr>\<rparr>)) (\<lambda>_.
         if result \<noteq> KII_JSON_PARSE_SUCCESS then
           chain (set_err_code KII_THING_IF_ERROR_INVALID_PAYLOAD) (\<lambda>_. ret (- 1))
         else ret 0))))))"

definition prv_onboard_with_vendor_thing_id ::
  "('p, 'w) env \<Rightarrow> kii_ptr \<Rightarrow> string option \<Rightarrow> string option \<Rightarrow> string option \<Rightarrow> string option \<Rightarrow>
     string option \<Rightarrow> string option \<Rightarrow> (('p, 'w) st, bool) prog" where
  "prv_onboard_with_vendor_thing_id env kii vendor_thing_id password thing_type thing_properties
       firmware_version layout_position =
     chain (prv_kii_thing_if_get_anonymous_token env kii) (\<lambda>r.
     if r \<noteq> 0 then ret False
     else
       chain (gets (\<lambda>s. app_id (kii_of kii s))) (\<lambda>appid.
       chain (prv_set_onboard_resource_path env appid 64) (\<lambda>succeeded.
       case succeeded of
         None \<Rightarrow> ret False
       | Some resource_path \<Rightarrow>
           chain (api_start env kii ''POST'' resource_path (Some CONTENT_TYPE_VENDOR_THING_ID) True)
             (\<lambda>r.
           if r \<noteq> 0 then
             chain (set_err_code KII_THING_IF_ERROR_INSUFFICIENT_BUFFER) (\<lambda>_. ret False)
           else
             chain (or_chain
               [api_append env kii ''{'',
                prv_append_key_value_string env kii (Some ''vendorThingID'') vendor_thing_id False,
                prv_append_key_value_string env kii (Some ''thingPassword'') password True,
                prv_append_key_value_string_optional env kii (Some ''thingType'') thing_type True,
                prv_append_key_value_object_optional env kii (Some ''thingProperties'')
                  thing_properties True,
                prv_append_key_value_string_optional env kii (Some ''firmwareVersion'')
                  firmware_version True,
                prv_append_key_value_string_optional env kii (Some ''layoutPosition'')
                  layout_position True,
                api_append env kii ''}'']) (\<lambda>failed.
             if failed then
               chain (set_err_code KII_THING_IF_ERROR_INSUFFICIENT_BUFFER) (\<lambda>_. ret False)
             else
               chain (prv_execute_http_session env kii) (\<lambda>ok.
               if \<not> ok then ret False
               else
                 chain (prv_thing_if_parse_onboarding_response env kii) (\<lambda>r.
                 if r \<noteq> 0 then ret False else ret True)))))))"

definition prv_onboard_with_thing_id ::
  "('p, 'w) env \<Rightarrow> kii_ptr \<Rightarrow> string option \<Rightarrow> string option \<Rightarrow> string option \<Rightarrow> string option \<Rightarrow>
     string option \<Rightarrow> string option \<Rightarrow> (('p, 'w) st, bool) prog" where
  "prv_onboard_with_thing_id env kii thing_id password thing_type thing_properties
       firmware_version layout_position =
     chain (prv_kii_thing_if_get_anonymous_token env kii) (\<lambda>r.
     if r \<noteq> 0 then ret False
     else
       chain (gets (\<lambda>s. app_id (kii_of kii s))) (\<lambda>appid.
       chain (prv_set_onboard_resource_path env appid 64) (\<lambda>succeeded.
       case succeeded of
         None \<Rightarrow> ret False
       | Some resource_path \<Rightarrow>
           \<comment> \<open>a start that fails is logged only\<close>
           chain (api_start env kii ''POST'' resource_path (Some CONTENT_TYPE_THING_ID) True) (\<lambda>_.
           chain (or_chain
             [api_append env kii ''{'',
              prv_append_key_value_string env kii (Some ''thingID'') thing_id False,
              prv_append_key_value_string env kii (Some ''thingPassword'') password True,
              prv_append_key_value_string_optional env kii (Some ''thingType'') thing_type True,
              prv_append_key_value_object_optional env kii (Some ''thingProperties'')
                thing_properties True,
              prv_append_key_value_string_optional env kii (Some ''firmwareVersion'')
                firmware_version True,
              prv_append_key_value_string_optional env kii (Some ''layoutPosition'')
                layout_position True,
              api_append env kii ''}'']) (\<lambda>failed.
           if failed then ret False
           else
             chain (prv_execute_http_session env kii) (\<lambda>ok.
             if \<not> ok then ret False
             else
               chain (prv_thing_if_parse_onboarding_response env kii) (\<lambda>r.
               if r \<noteq> 0 then ret False else ret True)))))))"

text \<open>
  \<open>prv_set_author\<close> takes the arrays behind its two pointers (\<open>None\<close> for NULL) and returns its
  result with the author it leaves behind.
\<close>

definition prv_set_author ::
  "kii_author_t \<Rightarrow> char list option \<Rightarrow> char list option \<Rightarrow> ('s, bool \<times> kii_author_t) prog" where
  "prv_set_author a thing_id token =
     chain (deref thing_id) (\<lambda>t.
     chain (cstr t) (\<lambda>tid.
     if length (author_id a) \<le> length tid then ret (False, a)
     else
       chain (deref token) (\<lambda>t.
       chain (cstr t) (\<lambda>tok.
       if length (access_token a) \<le> length tok then ret (False, a)
       else ret (True, a\<lparr>author_id := strncpy (author_id a) tid,
                access_token := strncpy (access_token a) tok\<rparr>)))))"

definition onboard_with_vendor_thing_id ::
  "('p, 'w) env \<Rightarrow> string option \<Rightarrow> string option \<Rightarrow> string option \<Rightarrow> string option \<Rightarrow>
     string option \<Rightarrow> string option \<Rightarrow> (('p, 'w) st, bool) prog" where
  "onboard_with_vendor_thing_id env vendor_thing_id password thing_type firmware_version
       layout_position thing_properties =
     chain (gets (\<lambda>s. state (thing s))) (\<lambda>x.
     if x = KII_THING_IF_STATE_STARTED then
       chain (set_err_code KII_THING_IF_ERROR_INVALID_STATE) (\<lambda>_. ret False)
     else
       chain (prv_onboard_with_vendor_thing_id env CommandHandler vendor_thing_id password
           thing_type thing_properties firmware_version layout_position) (\<lambda>ok.
       if \<not> ok then ret False
       else
         chain (gets (\<lambda>s. author (kii_of CommandHandler s))) (\<lambda>a.
         chain (gets (\<lambda>s. author (kii_of StateUpdater s))) (\<lambda>u.
         chain (prv_set_author u (Some (author_id a)) (Some (access_token a))) (\<lambda>(ok, u').
         chain (update_kii StateUpdater (\<lambda>k. k\<lparr>author := u'\<rparr>)) (\<lambda>_.
         if \<not> ok then ret False
         else
           chain (update_thing (\<lambda>t. t\<lparr>state := KII_THING_IF_STATE_ONBOARDED\<rparr>)) (\<lambda>_.
           ret True)))))))"

definition onboard_with_thing_id ::
  "('p, 'w) env \<Rightarrow> string option \<Rightarrow> string option \<Rightarrow> string option \<Rightarrow> string option \<Rightarrow>
     string option \<Rightarrow> string option \<Rightarrow> (('p, 'w) st, bool) prog" where
  "onboard_with_thing_id env thing_id password thing_type firmware_version layout_position
       thing_properties =
     chain (gets (\<lambda>s. state (thing s))) (\<lambda>x.
     if x = KII_THING_IF_STATE_STARTED then
       chain (set_err_code KII_THING_IF_ERROR_INVALID_STATE) (\<lambda>_. ret False)
     else
       chain (prv_onboard_with_thing_id env CommandHandler thing_id password thing_type
           thing_properties firmware_version layout_position) (\<lambda>ok.
       if \<not> ok then ret False
       else
         chain (gets (\<lambda>s. author (kii_of CommandHandler s))) (\<lambda>a.
         chain (gets (\<lambda>s. author (kii_of StateUpdater s))) (\<lambda>u.
         chain (prv_set_author u (Some (author_id a)) (Some (access_token a))) (\<lambda>(ok, u').
         chain (update_kii StateUpdater (\<lambda>k. k\<lparr>author := u'\<rparr>)) (\<lambda>_.
         if \<not> ok then ret False
         else
           chain (update_thing (\<lambda>t. t\<lparr>state := KII_THING_IF_STATE_ONBOARDED\<rparr>)) (\<lambda>_.
           ret True)))))))"

section \<open>The request bodies\<close>

definition oauth_request :: "string \<Rightarrow> string \<Rightarrow> request" where
  "oauth_request appid appkey =
     \<lparr>rq_method = ''POST'', rq_path = ''api/apps/'' @ appid @ ''/oauth2/token'',
      rq_content_type = Some ''application/json'', rq_auth = False,
      rq_body = ''{'' @ kv_text ''grant_type'' ''client_credentials'' True @ '','' @
        kv_text ''client_id'' appid True @ '','' @ kv_text ''client_secret'' appkey True @ ''}''\<rparr>"

definition opt_member :: "string \<Rightarrow> string option \<Rightarrow> bool \<Rightarrow> string" where
  "opt_member k v is_string = (case v of None \<Rightarrow> [] | Some x \<Rightarrow> '','' @ kv_text k x is_string)"

definition onboard_request ::
  "string \<Rightarrow> string \<Rightarrow> string \<Rightarrow> string \<Rightarrow> string \<Rightarrow> string option \<Rightarrow> string option \<Rightarrow> string option \<Rightarrow>
     string option \<Rightarrow> request" where
  "onboard_request ctype idkey appid i pw thing_type thing_properties firmware_version
       layout_position =
     \<lparr>rq_method = ''POST'', rq_path = onboard_path appid, rq_content_type = Some ctype,
      rq_auth = True,
      rq_body = ''{'' @ kv_text idkey i True @ '','' @ kv_text ''thingPassword'' pw True @
        opt_member ''thingType'' thing_type True @
        opt_member ''thingProperties'' thing_properties False @
        opt_member ''firmwareVersion'' firmware_version True @
        opt_member ''layoutPosition'' layout_position True @ ''}''\<rparr>"

definition oauth_chunks :: "string \<Rightarrow> string \<Rightarrow> string list" where
  "oauth_chunks appid appkey =
     ''{'' # kv_chunks ''grant_type'' ''client_credentials'' False True @
     kv_chunks ''client_id'' appid True True @ kv_chunks ''client_secret'' appkey True True @ [''}'']"

definition onboard_chunks ::
  "string \<Rightarrow> string \<Rightarrow> string \<Rightarrow> string option \<Rightarrow> string option \<Rightarrow> string option \<Rightarrow> string option \<Rightarrow>
     string list" where
  "onboard_chunks idkey i pw thing_type thing_properties firmware_version layout_position =
     [''{''] @ kv_chunks idkey i False True @ kv_chunks ''thingPassword'' pw True True @
     opt_chunks ''thingType'' thing_type True @
     opt_chunks ''thingProperties'' thing_properties False @
     opt_chunks ''firmwareVersion'' firmware_version True @
     opt_chunks ''layoutPosition'' layout_position True @ [''}'']"

lemma concat_oauth_chunks: "concat (oauth_chunks a k) = rq_body (oauth_request a k)"
  by (simp add: oauth_chunks_def oauth_request_def concat_kv_chunks)

lemma concat_onboard_chunks:
  "concat (onboard_chunks idkey i pw tt tp fv lp) =
     rq_body (onboard_request ctype idkey appid i pw tt tp fv lp)"
  by (simp add: onboard_chunks_def onboard_request_def concat_kv_chunks concat_opt_chunks
      opt_member_def)

text \<open>The two onboarding functions write the same members, but for the key of the ID.\<close>

lemma onboard_body_ok:
  assumes "or_chain
     [api_append env p ''{'',
      prv_append_key_value_string env p (Some idkey) i False,
      prv_append_key_value_string env p (Some ''thingPassword'') pw True,
      prv_append_key_value_string_optional env p (Some ''thingType'') tt True,
      prv_append_key_value_object_optional env p (Some ''thingProperties'') tp True,
      prv_append_key_value_string_optional env p (Some ''firmwareVersion'') fv True,
      prv_append_key_value_string_optional env p (Some ''layoutPosition'') lp True,
      api_append env p ''}''] s = Inr (False, s')"
  shows "\<exists>x y. i = Some x \<and> pw = Some y \<and>
     append_chunks env p (onboard_chunks idkey x y tt tp fv lp) s = Inr (0, s')"
proof -
  obtain x y where x: "i = Some x" and y: "pw = Some y"
    using assms by (auto simp only: or_chain_ok append_string_ok)
  from assms show ?thesis
    unfolding x y body_chunks or_chain_norm
    by (auto simp: onboard_chunks_def chain_eq_Inr)
qed

section \<open>The anonymous token\<close>

lemma same_identityD:
  "same_identity k k' \<Longrightarrow> app_id k' = app_id k"
  "same_identity k k' \<Longrightarrow> app_key k' = app_key k"
  "same_identity k k' \<Longrightarrow> author k' = author k"
  "same_identity k k' \<Longrightarrow> app_context k' = app_context k"
  by (simp_all add: same_identity_def)

text \<open>The configuration of a \<open>kii_t\<close>: what is left of its identity without the author.\<close>

definition same_app :: "'p kii_t \<Rightarrow> 'p kii_t \<Rightarrow> bool" where
  "same_app k k' \<longleftrightarrow>
     app_id k' = app_id k \<and> app_key k' = app_key k \<and> app_context k' = app_context k"

lemma same_identity_app: "same_identity k k' \<Longrightarrow> same_app k k'"
  by (simp add: same_identity_def same_app_def)

lemma same_app_trans: "same_app k l \<Longrightarrow> same_app l m \<Longrightarrow> same_app k m"
  by (simp add: same_app_def)

lemma oauth_body_ok:
  assumes frame: "kii_api_frame env"
    and body: "or_chain
      [api_append env p ''{'',
       prv_append_key_value_string env p (Some ''grant_type'') (Some ''client_credentials'') False,
       chain (gets (\<lambda>s. app_id (kii_of p s))) (\<lambda>a.
         prv_append_key_value_string env p (Some ''client_id'') (Some a) True),
       chain (gets (\<lambda>s. app_key (kii_of p s))) (\<lambda>a.
         prv_append_key_value_string env p (Some ''client_secret'') (Some a) True),
       api_append env p ''}''] s = Inr (False, s')"
  shows "append_chunks env p (oauth_chunks (app_id (kii_of p s)) (app_key (kii_of p s))) s
    = Inr (0, s')"
proof -
  let ?k = "kii_of p s"
  obtain t1 t2 t3 t4
    where a1: "append_chunks env p [''{''] s = Inr (0, t1)"
      and a2: "append_chunks env p (kv_chunks ''grant_type'' ''client_credentials'' False True) t1
        = Inr (0, t2)"
      and a3: "append_chunks env p (kv_chunks ''client_id'' (app_id (kii_of p t2)) True True) t2
        = Inr (0, t3)"
      and a4: "append_chunks env p (kv_chunks ''client_secret'' (app_key (kii_of p t3)) True True) t3
        = Inr (0, t4)"
      and a5: "append_chunks env p [''}''] t4 = Inr (0, s')"
    using body unfolding or_chain_api_append or_chain_ok
    by (auto simp: body_chunks chain_eq_Inr)
  have k2: "same_identity ?k (kii_of p t2)"
    using append_chunks_ok(2) [OF frame a1] append_chunks_ok(2) [OF frame a2]
    by (rule same_identity_trans)
  have k3: "same_identity ?k (kii_of p t3)"
    using k2 append_chunks_ok(2) [OF frame a3] by (rule same_identity_trans)
  have "append_chunks env p ([''{''] @ kv_chunks ''grant_type'' ''client_credentials'' False True @
      kv_chunks ''client_id'' (app_id (kii_of p t2)) True True @
      kv_chunks ''client_secret'' (app_key (kii_of p t3)) True True @ [''}'']) s = Inr (0, s')"
    by (rule append_chunks_appI [OF a1 append_chunks_appI [OF a2 append_chunks_appI
            [OF a3 append_chunks_appI [OF a4 a5]]]])
  then show ?thesis
    by (simp only: oauth_chunks_def same_identityD(1) [OF k2] same_identityD(2) [OF k3]
        append_Cons append_Nil)
qed

text \<open>The calls of the token request.\<close>

definition token_calls :: "kii_ptr \<Rightarrow> string \<Rightarrow> string \<Rightarrow> event list" where
  "token_calls p appid appkey =
     call_events p ''POST'' (APP_PATH @ appid @ OAUTH_PATH) (Some ''application/json'') False
       (oauth_chunks appid appkey)"

lemma replay_token_calls [simp]:
  "replay p (token_calls p a k) (cur, d) = (None, d @ [oauth_request a k])"
  by (simp add: token_calls_def concat_oauth_chunks oauth_request_def path_parts)

text \<open>
  What a token request that succeeds leaves: an author whose token is what the reader copied from
  the response over the old one.
\<close>

definition token_author :: "('p, 'w) env \<Rightarrow> kii_author_t \<Rightarrow> kii_author_t \<Rightarrow> bool" where
  "token_author env a a' \<longleftrightarrow>
     (\<exists>body. case prv_kii_thing_if_json_read_object env body
          [field_by_path env ''/access_token'' KII_JSON_FIELD_TYPE_STRING
             (Some (access_token a, length (access_token a)))] of
        (result, fs) \<Rightarrow> result = KII_JSON_PARSE_SUCCESS \<and> fs \<noteq> [] \<and>
          a' = a\<lparr>access_token := copied (fs ! 0) (access_token a)\<rparr>)"

lemma token_authorI:
  assumes "x = prv_kii_thing_if_json_read_object env body
      [field_by_path env ''/access_token'' KII_JSON_FIELD_TYPE_STRING
         (Some (access_token a, length (access_token a)))]"
    and "fst x = KII_JSON_PARSE_SUCCESS" and "snd x \<noteq> []"
  shows "token_author env a (a\<lparr>access_token := copied (snd x ! 0) (access_token a)\<rparr>)"
  unfolding token_author_def
  by (rule exI [where x = body]) (use assms in \<open>auto simp: case_prod_beta\<close>)

lemma get_anonymous_token_ok:
  assumes frame: "kii_api_frame env"
    and ok: "prv_kii_thing_if_get_anonymous_token env p s = Inr (0, s')"
  shows "trace s' = trace s @ token_calls p (app_id (kii_of p s)) (app_key (kii_of p s))"
    and "same_app (kii_of p s) (kii_of p s')"
    and "token_author env (author (kii_of p s)) (author (kii_of p s'))"
proof -
  let ?a = "app_id (kii_of p s)" and ?key = "app_key (kii_of p s)"
  let ?path = "APP_PATH @ ?a @ OAUTH_PATH"
  let ?read = "\<lambda>k b. prv_kii_thing_if_json_read_object env b
    [field_by_path env ''/access_token'' KII_JSON_FIELD_TYPE_STRING
      (Some (access_token (author k), length (access_token (author k))))]"
  obtain s1 s2 s3 b
    where s1: "api_start env p ''POST'' ?path (Some ''application/json'') False s = Inr (0, s1)"
    and members: "or_chain
      [api_append env p ''{'',
       prv_append_key_value_string env p (Some ''grant_type'') (Some ''client_credentials'') False,
       chain (gets (\<lambda>s. app_id (kii_of p s))) (\<lambda>a.
         prv_append_key_value_string env p (Some ''client_id'') (Some a) True),
       chain (gets (\<lambda>s. app_key (kii_of p s))) (\<lambda>a.
         prv_append_key_value_string env p (Some ''client_secret'') (Some a) True),
       api_append env p ''}''] s1 = Inr (False, s2)"
    and run: "prv_execute_http_session env p s2 = Inr (True, s3)"
    and read: "fst (?read (kii_of p s3) b) = KII_JSON_PARSE_SUCCESS" "snd (?read (kii_of p s3) b) \<noteq> []"
    and s': "s' = s3\<lparr>thing := put_kii p (kii_of p s3\<lparr>author := (author (kii_of p s3))\<lparr>access_token :=
      copied (snd (?read (kii_of p s3) b) ! 0) (access_token (author (kii_of p s3)))\<rparr>\<rparr>) (thing s3)\<rparr>"
    using ok unfolding prv_kii_thing_if_get_anonymous_token_def Let_def
    by (auto simp: chain_eq_Inr run_iffs field_at_eq_Inr case_prod_beta kii_of_def
        simp del: or_chain.simps split: if_splits)
  have tr: "trace s' = trace s3" and app: "same_app (kii_of p s3) (kii_of p s')"
    and tok: "token_author env (author (kii_of p s3)) (author (kii_of p s'))"
    using token_authorI [OF refl read] by (simp_all add: s' same_app_def)
  note body = oauth_body_ok [OF frame members]
  note id1 = api_call_identity(1) [OF frame s1]
  show "trace s' = trace s @ token_calls p ?a ?key"
    using request_ok(1) [OF frame s1 body run] id1 tr by (simp add: same_identityD token_calls_def)
  show "token_author env (author (kii_of p s)) (author (kii_of p s'))"
    using request_ok(2) [OF frame s1 body run] tok by (simp add: same_identityD)
  show "same_app (kii_of p s) (kii_of p s')"
    using request_ok(2) [OF frame s1 body run] app
    by (blast intro: same_identity_app same_app_trans)
qed

section \<open>Registration\<close>

lemma parse_onboarding_response_ok:
  assumes "prv_thing_if_parse_onboarding_response env p s = Inr (0, s')"
  shows "trace s' = trace s" and "same_app (kii_of p s) (kii_of p s')"
    and "state (thing s') = state (thing s)"
  using assms
  by (auto simp: prv_thing_if_parse_onboarding_response_def chain_eq_Inr run_iffs field_at_eq_Inr
      same_app_def kii_of_def case_prod_beta split: if_splits)

lemma prv_onboard_with_vendor_thing_id_ok:
  assumes frame: "kii_api_frame env"
    and ok: "prv_onboard_with_vendor_thing_id env p i pw tt tp fv lp s = Inr (True, s')"
  shows "\<exists>x y new. i = Some x \<and> pw = Some y \<and> trace s' = trace s @ new \<and>
     requests p new =
       [oauth_request (app_id (kii_of p s)) (app_key (kii_of p s)),
        onboard_request CONTENT_TYPE_VENDOR_THING_ID ''vendorThingID'' (app_id (kii_of p s)) x y
          tt tp fv lp]"
proof -
  let ?a = "app_id (kii_of p s)" and ?key = "app_key (kii_of p s)"
  obtain s1 path s2 s3 s4
    where tok: "prv_kii_thing_if_get_anonymous_token env p s = Inr (0, s1)"
      and path: "prv_set_onboard_resource_path env (app_id (kii_of p s1)) 64 s1 = Inr (Some path, s1)"
      and start: "api_start env p ''POST'' path (Some CONTENT_TYPE_VENDOR_THING_ID) True s1
        = Inr (0, s2)"
      and body: "or_chain
       [api_append env p ''{'',
        prv_append_key_value_string env p (Some ''vendorThingID'') i False,
        prv_append_key_value_string env p (Some ''thingPassword'') pw True,
        prv_append_key_value_string_optional env p (Some ''thingType'') tt True,
        prv_append_key_value_object_optional env p (Some ''thingProperties'') tp True,
        prv_append_key_value_string_optional env p (Some ''firmwareVersion'') fv True,
        prv_append_key_value_string_optional env p (Some ''layoutPosition'') lp True,
        api_append env p ''}''] s2 = Inr (False, s3)"
      and run: "prv_execute_http_session env p s3 = Inr (True, s4)"
      and parse: "prv_thing_if_parse_onboarding_response env p s4 = Inr (0, s')"
    using ok unfolding prv_onboard_with_vendor_thing_id_def
    by (auto simp: chain_eq_Inr setters_Some simp del: or_chain.simps
        split: if_splits option.splits)
  have path': "path = onboard_path ?a"
    using path get_anonymous_token_ok(2) [OF frame tok] by (simp add: setters_Some same_app_def)
  obtain x y where x: "i = Some x" and y: "pw = Some y"
    and app: "append_chunks env p (onboard_chunks ''vendorThingID'' x y tt tp fv lp) s2 = Inr (0, s3)"
    using onboard_body_ok [OF body] by blast
  let ?new = "token_calls p ?a ?key"
  note new = get_anonymous_token_ok(1) [OF frame tok]
  have "trace s' = trace s @ (?new @ call_events p ''POST'' path (Some CONTENT_TYPE_VENDOR_THING_ID)
      True (onboard_chunks ''vendorThingID'' x y tt tp fv lp))"
    using request_ok(1) [OF frame start app run] parse_onboarding_response_ok(1) [OF parse] new
    by simp
  moreover have "requests p (?new @ call_events p ''POST'' path (Some CONTENT_TYPE_VENDOR_THING_ID)
      True (onboard_chunks ''vendorThingID'' x y tt tp fv lp)) =
     [oauth_request ?a ?key,
      onboard_request CONTENT_TYPE_VENDOR_THING_ID ''vendorThingID'' ?a x y tt tp fv lp]"
    by (simp add: requests_def path' onboard_request_def
        concat_onboard_chunks [of _ _ _ _ _ _ _ CONTENT_TYPE_VENDOR_THING_ID ?a])
  ultimately show ?thesis using x y by blast
qed

text \<open>
  The twin of the vendor's function goes on after a start that failed: whatever the start returned,
  a success made the same calls.
\<close>

definition thing_id_calls ::
  "kii_ptr \<Rightarrow> string \<Rightarrow> string \<Rightarrow> string \<Rightarrow> string option \<Rightarrow> string option \<Rightarrow> string option \<Rightarrow>
     string option \<Rightarrow> int \<Rightarrow> event list" where
  "thing_id_calls p appid i pw thing_type thing_properties firmware_version layout_position r =
     ApiStart p ''POST'' (onboard_path appid) (Some CONTENT_TYPE_THING_ID) True r #
     map (\<lambda>c. ApiAppend p c 0) (onboard_chunks ''thingID'' i pw thing_type thing_properties
       firmware_version layout_position) @ [ApiRun p 0]"

lemma replay_unstarted: "replay p (map (\<lambda>c. ApiAppend p c 0) cs) (None, d) = (None, d)"
  by (induction cs) simp_all

lemma requests_thing_id:
  "requests p (token_calls p a key @ thing_id_calls p a x y tt tp fv lp r) =
     oauth_request a key # (if r = 0 then [onboard_request CONTENT_TYPE_THING_ID ''thingID'' a x y tt tp fv lp]
       else [])"
  by (simp add: requests_def thing_id_calls_def replay_unstarted onboard_request_def
      concat_onboard_chunks [of _ _ _ _ _ _ _ CONTENT_TYPE_THING_ID a])

lemma prv_onboard_with_thing_id_ok:
  assumes frame: "kii_api_frame env"
    and ok: "prv_onboard_with_thing_id env p i pw tt tp fv lp s = Inr (True, s')"
  shows "\<exists>x y r. i = Some x \<and> pw = Some y \<and> trace s' = trace s @
     token_calls p (app_id (kii_of p s)) (app_key (kii_of p s)) @
     thing_id_calls p (app_id (kii_of p s)) x y tt tp fv lp r"
proof -
  let ?a = "app_id (kii_of p s)"
  obtain s1 path s2 s3 s4 r
    where tok: "prv_kii_thing_if_get_anonymous_token env p s = Inr (0, s1)"
      and path: "prv_set_onboard_resource_path env (app_id (kii_of p s1)) 64 s1 = Inr (Some path, s1)"
      and start: "api_start env p ''POST'' path (Some CONTENT_TYPE_THING_ID) True s1 = Inr (r, s2)"
      and body: "or_chain
       [api_append env p ''{'',
        prv_append_key_value_string env p (Some ''thingID'') i False,
        prv_append_key_value_string env p (Some ''thingPassword'') pw True,
        prv_append_key_value_string_optional env p (Some ''thingType'') tt True,
        prv_append_key_value_object_optional env p (Some ''thingProperties'') tp True,
        prv_append_key_value_string_optional env p (Some ''firmwareVersion'') fv True,
        prv_append_key_value_string_optional env p (Some ''layoutPosition'') lp True,
        api_append env p ''}''] s2 = Inr (False, s3)"
      and run: "prv_execute_http_session env p s3 = Inr (True, s4)"
      and parse: "prv_thing_if_parse_onboarding_response env p s4 = Inr (0, s')"
    using ok unfolding prv_onboard_with_thing_id_def
    by (auto simp: chain_eq_Inr setters_Some simp del: or_chain.simps
        split: if_splits option.splits)
  have path': "path = onboard_path ?a"
    using path get_anonymous_token_ok(2) [OF frame tok] by (simp add: setters_Some same_app_def)
  obtain x y where x: "i = Some x" and y: "pw = Some y"
    and app: "append_chunks env p (onboard_chunks ''thingID'' x y tt tp fv lp) s2 = Inr (0, s3)"
    using onboard_body_ok [OF body] by blast
  have "trace s' = trace s @ token_calls p ?a (app_key (kii_of p s)) @
      thing_id_calls p ?a x y tt tp fv lp r"
    using get_anonymous_token_ok(1) [OF frame tok] call_kii_trace [OF start [unfolded api_start_def]]
      append_chunks_ok_trace [OF app] session_trace [OF run] parse_onboarding_response_ok(1) [OF parse]
    by (auto simp: thing_id_calls_def path')
  with x y show ?thesis by blast
qed

section \<open>Invariants of onboarding\<close>

context author_invariant
begin

lemma get_anonymous_token_inv: "preserves I (prv_kii_thing_if_get_anonymous_token env p)"
  unfolding prv_kii_thing_if_get_anonymous_token_def Let_def
  by (intro session_intros author_inv preserves_intros)
    (auto intro!: session_intros preserves_intros)

lemma parse_onboarding_response_inv: "preserves I (prv_thing_if_parse_onboarding_response env p)"
  unfolding prv_thing_if_parse_onboarding_response_def
  by (intro session_intros author_inv preserves_intros)

lemma prv_onboard_with_vendor_thing_id_inv:
  "preserves I (prv_onboard_with_vendor_thing_id env p i pw tt tp fv lp)"
  unfolding prv_onboard_with_vendor_thing_id_def
  by (intro session_intros get_anonymous_token_inv parse_onboarding_response_inv preserves_intros)
    (auto intro!: session_intros preserves_intros)

lemma prv_onboard_with_thing_id_inv:
  "preserves I (prv_onboard_with_thing_id env p i pw tt tp fv lp)"
  unfolding prv_onboard_with_thing_id_def
  by (intro session_intros get_anonymous_token_inv parse_onboarding_response_inv preserves_intros)
    (auto intro!: session_intros preserves_intros)

end

section \<open>The public functions\<close>

text \<open>Both public functions are the same gate around the registration.\<close>

definition onboard_gate :: "(('p, 'w) st, bool) prog \<Rightarrow> (('p, 'w) st, bool) prog" where
  "onboard_gate m =
     chain (gets (\<lambda>s. state (thing s))) (\<lambda>x.
     if x = KII_THING_IF_STATE_STARTED then
       chain (set_err_code KII_THING_IF_ERROR_INVALID_STATE) (\<lambda>_. ret False)
     else
       chain m (\<lambda>ok.
       if \<not> ok then ret False
       else
         chain (gets (\<lambda>s. author (kii_of CommandHandler s))) (\<lambda>a.
         chain (gets (\<lambda>s. author (kii_of StateUpdater s))) (\<lambda>u.
         chain (prv_set_author u (Some (author_id a)) (Some (access_token a))) (\<lambda>(ok, u').
         chain (update_kii StateUpdater (\<lambda>k. k\<lparr>author := u'\<rparr>)) (\<lambda>_.
         if \<not> ok then ret False
         else
           chain (update_thing (\<lambda>t. t\<lparr>state := KII_THING_IF_STATE_ONBOARDED\<rparr>)) (\<lambda>_.
           ret True)))))))"

lemma onboard_gates:
  "onboard_with_vendor_thing_id env i pw tt fv lp tp =
     onboard_gate (prv_onboard_with_vendor_thing_id env CommandHandler i pw tt tp fv lp)"
  "onboard_with_thing_id env i pw tt fv lp tp =
     onboard_gate (prv_onboard_with_thing_id env CommandHandler i pw tt tp fv lp)"
  by (simp_all only: onboard_with_vendor_thing_id_def onboard_with_thing_id_def onboard_gate_def)

text \<open>Two authors name the same thing and token.\<close>

definition same_author :: "kii_author_t \<Rightarrow> kii_author_t \<Rightarrow> bool" where
  "same_author a u \<longleftrightarrow>
     c_str (author_id u) = c_str (author_id a) \<and> c_str (access_token u) = c_str (access_token a)"

definition terminated :: "kii_author_t \<Rightarrow> bool" where
  "terminated a \<longleftrightarrow> NUL \<in> set (author_id a) \<and> NUL \<in> set (access_token a)"

lemma prv_set_author_eq_Inr:
  "prv_set_author a (Some t) (Some k) s = Inr ((ok, a'), s') \<longleftrightarrow>
     s' = s \<and> NUL \<in> set t \<and>
     (if length (author_id a) \<le> length (c_str t) then \<not> ok \<and> a' = a
      else NUL \<in> set k \<and>
        (if length (access_token a) \<le> length (c_str k) then \<not> ok \<and> a' = a
         else ok \<and> a' = a\<lparr>author_id := strncpy (author_id a) (c_str t),
           access_token := strncpy (access_token a) (c_str k)\<rparr>))"
  by (auto simp: prv_set_author_def chain_eq_Inr cstr_eq_Inr)

lemma prv_set_author_True:
  assumes "prv_set_author a (Some t) (Some k) s = Inr ((True, a'), s')"
  shows "c_str (author_id a') = c_str t" and "c_str (access_token a') = c_str k"
    and "terminated a'"
    and "length (author_id a') = length (author_id a)"
    and "length (access_token a') = length (access_token a)"
  using assms
  by (auto simp: prv_set_author_eq_Inr terminated_def strncpy_c_str c_str_no_NUL split: if_splits)

lemma prv_set_author_False:
  "prv_set_author a t k s = Inr ((False, a'), s') \<Longrightarrow> a' = a"
  by (auto simp: prv_set_author_def chain_eq_Inr split: if_splits)

lemma onboard_gate_True:
  assumes "onboard_gate m s = Inr (True, s')"
  shows "\<exists>s1. m s = Inr (True, s1) \<and> trace s' = trace s1 \<and> err s' = err s1 \<and>
     kii_of CommandHandler s' = kii_of CommandHandler s1"
    and "state (thing s) \<noteq> KII_THING_IF_STATE_STARTED"
    and "state (thing s') = KII_THING_IF_STATE_ONBOARDED"
    and "same_author (author (kii_of CommandHandler s')) (author (kii_of StateUpdater s'))"
    and "terminated (author (kii_of StateUpdater s'))"
  using assms
  by (auto simp: onboard_gate_def chain_eq_Inr kii_of_def same_author_def terminated_def
      prv_set_author_eq_Inr strncpy_c_str c_str_no_NUL split: if_splits)

lemma onboard_gate_False:
  assumes "onboard_gate m s = Inr (False, s')"
    and m_state: "\<And>x. preserves (\<lambda>s. state (thing s) = x) m"
    and m_upd: "\<And>x. preserves (\<lambda>s. kii_of StateUpdater s = x) m"
  shows "state (thing s') = state (thing s)" and "kii_of StateUpdater s' = kii_of StateUpdater s"
proof -
  consider (started) "s' = s\<lparr>err := map_option (\<lambda>e. e\<lparr>code := KII_THING_IF_ERROR_INVALID_STATE\<rparr>) (err s)\<rparr>"
    | (inner) "m s = Inr (False, s')"
    | (author) s1 where "m s = Inr (True, s1)"
        and "s' = s1\<lparr>thing := put_kii StateUpdater (kii_of StateUpdater s1) (thing s1)\<rparr>"
    using assms(1)
    by (auto simp: onboard_gate_def chain_eq_Inr kii_of_def prv_set_author_eq_Inr split: if_splits)
  then have "state (thing s') = state (thing s) \<and> kii_of StateUpdater s' = kii_of StateUpdater s"
  proof cases
    case started
    then show ?thesis by simp
  next
    case inner
    then show ?thesis using preservesD [OF m_state inner] preservesD [OF m_upd inner] by simp
  next
    case author
    then show ?thesis
      using preservesD [OF m_state author(1)] preservesD [OF m_upd author(1)]
      by (simp add: kii_of_def)
  qed
  then show "state (thing s') = state (thing s)" and "kii_of StateUpdater s' = kii_of StateUpdater s"
    by auto
qed

lemma onboard_gate_STARTED:
  "state (thing s) = KII_THING_IF_STATE_STARTED \<Longrightarrow>
     onboard_gate m s =
       Inr (False, s\<lparr>err := map_option (code_update (\<lambda>_. KII_THING_IF_ERROR_INVALID_STATE)) (err s)\<rparr>)"
  by (simp add: onboard_gate_def)

section \<open>Runs after the anonymous token\<close>

lemma yields_preserves: "preserves I m \<Longrightarrow> I s \<Longrightarrow> yields m s (\<lambda>_. I)"
  by (auto simp: yields_def preserves_def)

lemma yields_kept:
  "preserves I m \<Longrightarrow> I s \<Longrightarrow> (\<And>a t. I t \<Longrightarrow> yields (f a) t Q) \<Longrightarrow> yields (chain m f) s Q"
  by (rule yields_through [OF yields_preserves])

text \<open>
  The author is still the one that the token request left, or the registration ran to a response
  of success.
\<close>

definition registered_or_same :: "kii_ptr \<Rightarrow> 'p kii_t \<Rightarrow> ('p, 'w) st \<Rightarrow> bool" where
  "registered_or_same p k s \<longleftrightarrow> same_identity k (kii_of p s) \<or>
     200 \<le> response_code (kii_of p s) \<and> response_code (kii_of p s) < 300 \<and> last (trace s) = ApiRun p 0"

lemma registered_or_same_ret:
  "same_identity k (kii_of p s) \<Longrightarrow> yields (ret b) s (\<lambda>_. registered_or_same p k)"
  by (simp add: yields_def registered_or_same_def)

lemma registration_end:
  assumes frame: "kii_api_frame env" and s: "same_identity k (kii_of p s)"
  shows "yields (chain (prv_execute_http_session env p) (\<lambda>ok.
      if \<not> ok then ret False
      else
        chain (prv_thing_if_parse_onboarding_response env p) (\<lambda>r.
        if r \<noteq> 0 then ret False else ret True))) s (\<lambda>_. registered_or_same p k)"
proof (rule yields_chain, rule yieldsI)
  fix ok t
  assume session: "prv_execute_http_session env p s = Inr (ok, t)"
  have same: "same_identity k (kii_of p t)"
    using preservesD [OF api_invariant.prv_execute_http_session_inv [OF identity_frame [OF frame]] session s] .
  show "yields (if \<not> ok then ret False
      else
        chain (prv_thing_if_parse_onboarding_response env p) (\<lambda>r.
        if r \<noteq> 0 then ret False else ret True)) t (\<lambda>_. registered_or_same p k)"
  proof (cases ok)
    case False
    with same show ?thesis by (simp add: yields_def registered_or_same_def)
  next
    case True
    then have "200 \<le> response_code (kii_of p t)" "response_code (kii_of p t) < 300"
      "last (trace t) = ApiRun p 0"
      using session_success [of env p s t] session by (auto simp: kii_of_def)
    then show ?thesis
      by (auto simp: yields_def prv_thing_if_parse_onboarding_response_def chain_eq_Inr run_iffs
          field_at_eq_Inr kii_of_def registered_or_same_def case_prod_beta set_err_code_def update_err_def
          split: if_splits)
  qed
qed

lemma after_token:
  assumes frame: "kii_api_frame env"
    and token: "prv_kii_thing_if_get_anonymous_token env p s = Inr (0, s1)"
  shows "yields (prv_onboard_with_vendor_thing_id env p i pw tt tp fv lp) s
      (\<lambda>_. registered_or_same p (kii_of p s1))"
    and "yields (prv_onboard_with_thing_id env p i pw tt tp fv lp) s
      (\<lambda>_. registered_or_same p (kii_of p s1))"
proof -
  note inv = api_invariant.session_intros [OF identity_frame [OF frame, where k = "kii_of p s1"]]
    preserves_intros
  have s1: "yields (chain (prv_kii_thing_if_get_anonymous_token env p) f) s Q" if "yields (f 0) s1 Q"
    for f :: "int \<Rightarrow> (('a, 'b) st, bool) prog" and Q
    using that by (simp add: yields_def token)
  note steps = registration_end [OF frame] registered_or_same_ret yields_cases
    yields_kept [where I = "\<lambda>t. same_identity (kii_of p s1) (kii_of p t)"]
  show "yields (prv_onboard_with_vendor_thing_id env p i pw tt tp fv lp) s
      (\<lambda>_. registered_or_same p (kii_of p s1))"
    unfolding prv_onboard_with_vendor_thing_id_def
    by (rule s1, simp only: if_False refl simp_thms, intro steps) (auto intro!: inv)
  show "yields (prv_onboard_with_thing_id env p i pw tt tp fv lp) s
      (\<lambda>_. registered_or_same p (kii_of p s1))"
    unfolding prv_onboard_with_thing_id_def
    by (rule s1, simp only: if_False refl simp_thms, intro steps) (auto intro!: inv)
qed

text \<open>The vendor function stops at a start that is refused.\<close>

lemma vendor_start_refused:
  assumes token: "prv_kii_thing_if_get_anonymous_token env p s = Inr (0, s1)"
    and fits: "length (onboard_path (app_id (kii_of p s1))) < 64"
    and start: "api_start env p ''POST'' (onboard_path (app_id (kii_of p s1)))
      (Some CONTENT_TYPE_VENDOR_THING_ID) True s1 = Inr (q, t)" and "q \<noteq> 0"
  shows "prv_onboard_with_vendor_thing_id env p i pw tt tp fv lp s =
    Inr (False, t\<lparr>err := map_option (code_update (\<lambda>_. KII_THING_IF_ERROR_INSUFFICIENT_BUFFER)) (err t)\<rparr>)"
  using assms
  by (simp add: prv_onboard_with_vendor_thing_id_def onboard_setter.fits set_err_code_def update_err_def)

text \<open>Its twin goes on: the first call behind the refused start is an append.\<close>

lemma thing_id_start_refused:
  assumes token: "prv_kii_thing_if_get_anonymous_token env p s = Inr (0, s1)"
    and fits: "length (onboard_path (app_id (kii_of p s1))) < 64"
    and start: "api_start env p ''POST'' (onboard_path (app_id (kii_of p s1)))
      (Some CONTENT_TYPE_THING_ID) True s1 = Inr (r, s2)"
    and run: "prv_onboard_with_thing_id env p i pw tt tp fv lp s = Inr (ok, s')"
  shows "\<exists>q more. trace s' = trace s2 @ ApiAppend p ''{'' q # more"
proof -
  obtain q s3 where q: "api_append env p ''{'' s2 = Inr (q, s3)"
    by (cases "api_append env p ''{'' s2") (auto simp: api_append_def)
  have trace: "trace s3 = trace s2 @ [ApiAppend p ''{'' q]"
    using call_kii_trace [OF q [unfolded api_append_def]] .
  note inv = trace_prefix.session_intros trace_prefix.parse_onboarding_response_inv preserves_intros
  obtain m where "m s3 = Inr (ok, s')" and "preserves (\<lambda>s. \<exists>es. trace s = trace s3 @ es) m"
  proof -
    have "\<exists>m. m s3 = Inr (ok, s') \<and> preserves (\<lambda>s. \<exists>es. trace s = trace s3 @ es) m"
      using run token fits start q unfolding prv_onboard_with_thing_id_def
      by (simp add: onboard_setter.fits) (rule exI, rule conjI, assumption, intro inv, auto intro!: inv)
    with that show thesis by blast
  qed
  then have "\<exists>es. trace s' = trace s3 @ es"
    using preservesD [of "\<lambda>s. \<exists>es. trace s = trace s3 @ es" m s3 ok s'] by simp
  with trace show ?thesis by auto
qed

section \<open>Properties\<close>

text \<open>
  C3. Onboarding by vendor thing ID. When \<open>onboard_with_vendor_thing_id\<close> returns \<open>KII_TRUE\<close>,
  the ID and the password were given, the requests it ran are exactly the anonymous token
  request and the registration with the members it was given (the optional ones in the source's
  order, left out where NULL; an empty string is written, though the header says it is ignored),
  the thing is onboarded, and the state updater has the author that the command handler received.
\<close>

theorem onboard_with_vendor_thing_id_success:
  assumes "kii_api_frame env"
    and "onboard_with_vendor_thing_id env vendor_thing_id password thing_type firmware_version
       layout_position thing_properties s = Inr (True, s')"
  shows "\<exists>i pw new. vendor_thing_id = Some i \<and> password = Some pw \<and> trace s' = trace s @ new \<and>
      requests CommandHandler new =
        [oauth_request (app_id (kii_of CommandHandler s)) (app_key (kii_of CommandHandler s)),
         onboard_request CONTENT_TYPE_VENDOR_THING_ID ''vendorThingID''
           (app_id (kii_of CommandHandler s)) i pw thing_type thing_properties firmware_version
           layout_position] \<and>
      state (thing s) \<noteq> KII_THING_IF_STATE_STARTED \<and>
      state (thing s') = KII_THING_IF_STATE_ONBOARDED \<and>
      same_author (author (kii_of CommandHandler s')) (author (kii_of StateUpdater s')) \<and>
      terminated (author (kii_of StateUpdater s'))"
proof -
  note gate = onboard_gate_True [OF assms(2) [unfolded onboard_gates]]
  obtain s1 where s1: "prv_onboard_with_vendor_thing_id env CommandHandler vendor_thing_id password
      thing_type thing_properties firmware_version layout_position s = Inr (True, s1)"
    and tr: "trace s' = trace s1"
    using gate(1) by blast
  show ?thesis
    using prv_onboard_with_vendor_thing_id_ok [OF assms(1) s1] tr gate(2-5) by auto
qed

definition sample_onboarding :: "fault + bool \<times> (nat, sample_world) st" where
  "sample_onboarding =
     onboard_with_vendor_thing_id sample_env (Some ''v1'') (Some ''pw'') None (Some ''2.0'') None
       None (sample_st KII_THING_IF_STATE_INITIALIZED sample_answers)"

theorem onboard_with_vendor_thing_id_success_witness:
  "\<exists>s'. sample_onboarding = Inr (True, s') \<and> state (thing s') = KII_THING_IF_STATE_ONBOARDED \<and>
     length (requests CommandHandler (trace s')) = 2"
proof -
  have "returns True sample_onboarding" by code_simp
  then obtain s' where s': "sample_onboarding = Inr (True, s')" by (rule returnsE)
  have "trace (sample_st KII_THING_IF_STATE_INITIALIZED sample_answers) = []"
    by (simp add: sample_st_def)
  with onboard_with_vendor_thing_id_success
    [OF sample_frame s' [unfolded sample_onboarding_def]] s'
  show ?thesis by auto
qed

text \<open>
  C16. Onboarding by thing ID. When \<open>onboard_with_thing_id\<close> returns \<open>KII_TRUE\<close>, the calls it made
  are those of the anonymous token request and those of the registration by thing ID, with the
  members it was given (left out where NULL; an empty string is written, though the header says it
  is ignored). So the two requests were run, with one exception: where the start of the
  registration failed, which the function does not mind, only the first. The thing is onboarded and
  both \<open>kii_t\<close> have the same author.
\<close>

theorem onboard_with_thing_id_success:
  assumes "kii_api_frame env"
    and "onboard_with_thing_id env thing_id password thing_type firmware_version
       layout_position thing_properties s = Inr (True, s')"
  shows "\<exists>i pw r. thing_id = Some i \<and> password = Some pw \<and>
      (let a = app_id (kii_of CommandHandler s); k = app_key (kii_of CommandHandler s);
         new = token_calls CommandHandler a k @ thing_id_calls CommandHandler a i pw thing_type
           thing_properties firmware_version layout_position r
       in trace s' = trace s @ new \<and>
          requests CommandHandler new = oauth_request a k #
            (if r = 0 then [onboard_request CONTENT_TYPE_THING_ID ''thingID'' a i pw thing_type
               thing_properties firmware_version layout_position] else [])) \<and>
      state (thing s) \<noteq> KII_THING_IF_STATE_STARTED \<and>
      state (thing s') = KII_THING_IF_STATE_ONBOARDED \<and>
      same_author (author (kii_of CommandHandler s')) (author (kii_of StateUpdater s')) \<and>
      terminated (author (kii_of StateUpdater s'))"
proof -
  note gate = onboard_gate_True [OF assms(2) [unfolded onboard_gates]]
  obtain s1 where s1: "prv_onboard_with_thing_id env CommandHandler thing_id password
      thing_type thing_properties firmware_version layout_position s = Inr (True, s1)"
    and tr: "trace s' = trace s1"
    using gate(1) by blast
  show ?thesis
    using prv_onboard_with_thing_id_ok [OF assms(1) s1] tr gate(2-5)
    unfolding Let_def requests_thing_id by auto
qed

definition sample_thing_onboarding :: "fault + bool \<times> (nat, sample_world) st" where
  "sample_thing_onboarding =
     onboard_with_thing_id sample_env (Some ''t1'') (Some ''pw'') None None None None
       (sample_st KII_THING_IF_STATE_INITIALIZED sample_answers)"

theorem onboard_with_thing_id_success_witness:
  "\<exists>s'. sample_thing_onboarding = Inr (True, s') \<and>
     state (thing s') = KII_THING_IF_STATE_ONBOARDED"
proof -
  have "returns True sample_thing_onboarding" by code_simp
  then obtain s' where s': "sample_thing_onboarding = Inr (True, s')" by (rule returnsE)
  with onboard_with_thing_id_success [OF sample_frame s' [unfolded sample_thing_onboarding_def]]
  show ?thesis by auto
qed

text \<open>
  C6. A failed onboarding changes neither the life cycle state nor the state updater's
  \<open>kii_t\<close>, whatever the library does; on a started thing both functions fail without any call,
  with the code \<open>ERROR_INVALID_STATE\<close>, which the header says they do not set.
\<close>

theorem onboard_failure_keeps_thing:
  assumes "onboard_with_vendor_thing_id env i pw tt fv lp tp s = Inr (False, s') \<or>
     onboard_with_thing_id env i pw tt fv lp tp s = Inr (False, s')"
  shows "state (thing s') = state (thing s) \<and> kii_of StateUpdater s' = kii_of StateUpdater s \<and>
     (state (thing s) = KII_THING_IF_STATE_STARTED \<longrightarrow>
        trace s' = trace s \<and> map_option code (err s') =
          map_option (\<lambda>_. KII_THING_IF_ERROR_INVALID_STATE) (err s))"
proof -
  obtain m where m: "onboard_gate m s = Inr (False, s')"
    and ms: "\<And>x. preserves (\<lambda>s. state (thing s) = x) m"
    and mu: "\<And>x. preserves (\<lambda>s. kii_of StateUpdater s = x) m"
    using assms unfolding onboard_gates
    by (blast intro: state_frame.prv_onboard_with_vendor_thing_id_inv
        state_frame.prv_onboard_with_thing_id_inv
        updater_frame.prv_onboard_with_vendor_thing_id_inv
        updater_frame.prv_onboard_with_thing_id_inv)
  have "trace s' = trace s \<and> map_option code (err s') =
      map_option (\<lambda>_. KII_THING_IF_ERROR_INVALID_STATE) (err s)"
    if "state (thing s) = KII_THING_IF_STATE_STARTED"
    using m onboard_gate_STARTED [OF that, of m] by (cases "err s") auto
  then show ?thesis
    using onboard_gate_False [OF m ms mu] by simp
qed

definition sample_refused :: "fault + bool \<times> (nat, sample_world) st" where
  "sample_refused =
     onboard_with_thing_id sample_env (Some ''t1'') (Some ''pw'') None None None None
       (sample_st KII_THING_IF_STATE_STARTED sample_answers)"

theorem onboard_failure_keeps_thing_witness:
  "\<exists>s'. sample_refused = Inr (False, s') \<and> trace s' = []"
proof -
  have "returns False sample_refused" by code_simp
  then obtain s' where s': "sample_refused = Inr (False, s')" by (rule returnsE)
  have "state (thing (sample_st KII_THING_IF_STATE_STARTED sample_answers)) =
      KII_THING_IF_STATE_STARTED"
    and "trace (sample_st KII_THING_IF_STATE_STARTED sample_answers) = []"
    by (simp_all add: sample_st_def sample_thing_def)
  with onboard_failure_keeps_thing [OF disjI2 [OF s' [unfolded sample_refused_def]]] s'
  show ?thesis by auto
qed

definition refusing_env :: "(nat, sample_world) env" where
  "refusing_env = sample_env\<lparr>kii_api_call_start := (\<lambda>k meth path ctype auth w.
     if auth then (- 1, k, w) else sample_start k meth path ctype auth w)\<rparr>"

text \<open>
  C38. A registration that cannot be started. With a library that refuses the start of every
  authorised request, once the anonymous token was obtained: \<open>onboard_with_thing_id\<close> does not stop
  at the refused start of the registration, its next call appends to the request that was not
  started; and where it reports success, the thing is onboarded although the token request is the
  only one that was run. The vendor function makes no call behind the refused start, returns
  \<open>KII_FALSE\<close> with the code \<open>ERROR_INSUFFICIENT_BUFFER\<close> and keeps the life cycle state.
\<close>

theorem onboard_with_thing_id_ignores_failed_start:
  assumes "kii_api_frame env"
    and refuses: "\<And>k meth path ctype w. fst (kii_api_call_start env k meth path ctype True w) \<noteq> 0"
    and "state (thing s) \<noteq> KII_THING_IF_STATE_STARTED"
    and token: "prv_kii_thing_if_get_anonymous_token env CommandHandler s = Inr (0, s1)"
    and "length (onboard_path (app_id (kii_of CommandHandler s))) < 64"
    and run: "onboard_with_thing_id env i pw tt fv lp tp s = Inr (ok, s')"
  shows "(\<exists>r q more. r \<noteq> 0 \<and> trace s' = trace s1 @ ApiStart CommandHandler ''POST''
        (onboard_path (app_id (kii_of CommandHandler s))) (Some CONTENT_TYPE_THING_ID) True r #
        ApiAppend CommandHandler ''{'' q # more) \<and>
    (ok \<longrightarrow> state (thing s') = KII_THING_IF_STATE_ONBOARDED \<and>
       (\<exists>new. trace s' = trace s @ new \<and> requests CommandHandler new =
          [oauth_request (app_id (kii_of CommandHandler s)) (app_key (kii_of CommandHandler s))])) \<and>
    (\<exists>q t. q \<noteq> 0 \<and> onboard_with_vendor_thing_id env v pw tt fv lp tp s = Inr (False, t) \<and>
       trace t = trace s1 @ [ApiStart CommandHandler ''POST''
         (onboard_path (app_id (kii_of CommandHandler s))) (Some CONTENT_TYPE_VENDOR_THING_ID) True q] \<and>
       state (thing t) = state (thing s) \<and> map_option code (err t) =
         map_option (\<lambda>_. KII_THING_IF_ERROR_INSUFFICIENT_BUFFER) (err s1))"
proof -
  let ?path = "onboard_path (app_id (kii_of CommandHandler s))" and ?CH = CommandHandler
  have app: "app_id (kii_of ?CH s1) = app_id (kii_of ?CH s)"
    using get_anonymous_token_ok(2) [OF assms(1) token] by (simp add: same_app_def)
  have fits: "length (onboard_path (app_id (kii_of ?CH s1))) < 64"
    using assms(5) app by simp
  have starts: "\<exists>r t. r \<noteq> 0 \<and> api_start env ?CH ''POST'' ?path ctype True s1 = Inr (r, t)" for ctype
    using refuses [of "kii_of ?CH s1" "''POST''" ?path ctype "world s1"]
    by (cases "kii_api_call_start env (kii_of ?CH s1) ''POST'' ?path ctype True (world s1)")
      (auto simp: api_start_def call_kii_def)
  obtain r s2 where r: "r \<noteq> 0"
    and start: "api_start env ?CH ''POST'' ?path (Some CONTENT_TYPE_THING_ID) True s1 = Inr (r, s2)"
    using starts by blast
  obtain ok' t where inner: "prv_onboard_with_thing_id env ?CH i pw tt tp fv lp s = Inr (ok', t)"
    and tr: "trace s' = trace t" and ok': "ok \<longrightarrow> ok'"
    using run assms(3)
    by (auto simp: onboard_with_thing_id_def chain_eq_Inr prv_set_author_eq_Inr split: if_splits)
  obtain q more where goes_on: "trace s' = trace s1 @ ApiStart ?CH ''POST'' ?path
      (Some CONTENT_TYPE_THING_ID) True r # ApiAppend ?CH ''{'' q # more"
    using thing_id_start_refused [OF token fits start [folded app] inner] tr
      call_kii_trace [OF start [unfolded api_start_def]] by auto
  have success: "state (thing s') = KII_THING_IF_STATE_ONBOARDED \<and>
    (\<exists>new. trace s' = trace s @ new \<and> requests ?CH new =
      [oauth_request (app_id (kii_of ?CH s)) (app_key (kii_of ?CH s))])" if ok
  proof -
    have "prv_onboard_with_thing_id env ?CH i pw tt tp fv lp s = Inr (True, t)"
      using inner ok' that by simp
    from prv_onboard_with_thing_id_ok [OF assms(1) this]
    obtain x y r' where "trace t = trace s @ token_calls ?CH (app_id (kii_of ?CH s)) (app_key (kii_of ?CH s)) @
        thing_id_calls ?CH (app_id (kii_of ?CH s)) x y tt tp fv lp r'"
      by blast
    moreover from this have "r' \<noteq> 0"
      using goes_on r unfolding tr get_anonymous_token_ok(1) [OF assms(1) token]
      by (simp add: thing_id_calls_def)
    moreover have "state (thing s') = KII_THING_IF_STATE_ONBOARDED"
      using onboard_gate_True(3) [of "prv_onboard_with_thing_id env ?CH i pw tt tp fv lp" s s'] run that
      unfolding onboard_gates by simp
    ultimately show ?thesis
      using requests_thing_id tr by auto
  qed
  obtain q' u where q': "q' \<noteq> 0"
    and vendor: "api_start env ?CH ''POST'' ?path (Some CONTENT_TYPE_VENDOR_THING_ID) True s1 = Inr (q', u)"
    using starts by blast
  have stops: "onboard_with_vendor_thing_id env v pw tt fv lp tp s = Inr (False,
      u\<lparr>err := map_option (code_update (\<lambda>_. KII_THING_IF_ERROR_INSUFFICIENT_BUFFER)) (err u)\<rparr>)"
    using assms(3) vendor_start_refused [OF token fits vendor [folded app] q']
    by (simp add: onboard_with_vendor_thing_id_def)
  have "state (thing u) = state (thing s)"
    using call_kii_state [OF vendor [unfolded api_start_def]]
      preservesD [OF state_frame.get_anonymous_token_inv token refl] by simp
  then show ?thesis
    using goes_on r success stops q' call_kii_trace [OF vendor [unfolded api_start_def]]
      call_kii_err [OF vendor [unfolded api_start_def]]
    by (auto simp: option.map_comp comp_def)
qed

definition refused_start :: "(nat, sample_world) st" where
  "refused_start = sample_st KII_THING_IF_STATE_INITIALIZED sample_answers"

lemma refused_runs:
  "returns 0 (prv_kii_thing_if_get_anonymous_token refusing_env CommandHandler refused_start)"
  "returns True (onboard_with_thing_id refusing_env (Some ''t1'') (Some ''pw'') None None None None refused_start)"
  by code_simp+

theorem onboard_with_thing_id_ignores_failed_start_witness:
  "\<exists>s' new. onboard_with_thing_id refusing_env (Some ''t1'') (Some ''pw'') None None None None refused_start
      = Inr (True, s') \<and> state (thing s') = KII_THING_IF_STATE_ONBOARDED \<and> trace s' = new \<and>
    length (requests CommandHandler new) = 1"
proof -
  have frame: "kii_api_frame refusing_env"
    using sample_frame by (auto simp: kii_api_frame_def refusing_env_def same_identity_def)
  have refuses: "fst (kii_api_call_start refusing_env k meth path ctype True w) \<noteq> 0" for k meth path ctype w
    by (simp add: refusing_env_def)
  obtain s1 where s1: "prv_kii_thing_if_get_anonymous_token refusing_env CommandHandler refused_start = Inr (0, s1)"
    using refused_runs(1) by (rule returnsE)
  obtain s' where s': "onboard_with_thing_id refusing_env (Some ''t1'') (Some ''pw'') None None None None
      refused_start = Inr (True, s')"
    using refused_runs(2) by (rule returnsE)
  have "state (thing refused_start) \<noteq> KII_THING_IF_STATE_STARTED" "trace refused_start = []"
    "length (onboard_path (app_id (kii_of CommandHandler refused_start))) < 64"
    by (simp_all add: refused_start_def sample_st_def sample_thing_def kii_of_def sample_kii_def onboard_path_def)
  with onboard_with_thing_id_ignores_failed_start [OF frame refuses this(1) s1 this(3) s'] s'
  show ?thesis by auto
qed

text \<open>
  C39. A re-onboarding that fails after the anonymous token was obtained. Unless the registration
  itself ran to a response of success, the command handler is left with the author whose token is
  the anonymous one, read from the response to the token request, and with the ID it had; the
  life cycle state and the state updater's author are what they were, so an onboarded thing stays
  onboarded with two different tokens.
\<close>

theorem failed_onboarding_keeps_anonymous_token:
  assumes frame: "kii_api_frame env" and "state (thing s) \<noteq> KII_THING_IF_STATE_STARTED"
    and token: "prv_kii_thing_if_get_anonymous_token env CommandHandler s = Inr (0, s1)"
    and failed: "onboard_with_vendor_thing_id env i pw tt fv lp tp s = Inr (False, s') \<or>
      onboard_with_thing_id env i pw tt fv lp tp s = Inr (False, s')"
    and unregistered: "last (trace s') \<noteq> ApiRun CommandHandler 0 \<or>
      \<not> (200 \<le> response_code (kii_of CommandHandler s') \<and> response_code (kii_of CommandHandler s') < 300)"
  shows "token_author env (author (kii_of CommandHandler s)) (author (kii_of CommandHandler s')) \<and>
    author (kii_of StateUpdater s') = author (kii_of StateUpdater s) \<and> state (thing s') = state (thing s)"
proof -
  obtain m where m: "onboard_gate m s = Inr (False, s')"
    and ms: "\<And>x. preserves (\<lambda>s. state (thing s) = x) m"
    and mu: "\<And>x. preserves (\<lambda>s. kii_of StateUpdater s = x) m"
    and after: "yields m s (\<lambda>_. registered_or_same CommandHandler (kii_of CommandHandler s1))"
    using failed after_token [OF frame token] unfolding onboard_gates
    by (blast intro: state_frame.prv_onboard_with_vendor_thing_id_inv
        state_frame.prv_onboard_with_thing_id_inv
        updater_frame.prv_onboard_with_vendor_thing_id_inv
        updater_frame.prv_onboard_with_thing_id_inv)
  obtain ok t where "m s = Inr (ok, t)"
    and t: "kii_of CommandHandler s' = kii_of CommandHandler t" "trace s' = trace t"
    using m assms(2)
    by (auto simp: onboard_gate_def chain_eq_Inr kii_of_def prv_set_author_eq_Inr split: if_splits)
  from yieldsD [OF after this(1)] unregistered
  have "same_identity (kii_of CommandHandler s1) (kii_of CommandHandler s')"
    by (auto simp: registered_or_same_def t)
  then have "author (kii_of CommandHandler s') = author (kii_of CommandHandler s1)"
    by (rule same_identityD)
  with get_anonymous_token_ok(3) [OF frame token] onboard_gate_False [OF m ms mu] show ?thesis
    by simp
qed

definition reonboarding_start :: "(nat, sample_world) st" where
  "reonboarding_start = sample_st KII_THING_IF_STATE_ONBOARDED
     [(200, ''{'' @ member_text ''access_token'' ''anon'' @ ''}''), (404, ''{}'')]"

lemma reonboarding_runs:
  "returns 0 (prv_kii_thing_if_get_anonymous_token sample_env CommandHandler reonboarding_start)"
  "case onboard_with_thing_id sample_env (Some ''t1'') (Some ''pw'') None None None None reonboarding_start of
     Inl _ \<Rightarrow> False
   | Inr (ok, s') \<Rightarrow> \<not> ok \<and> response_code (kii_of CommandHandler s') = 404 \<and>
       c_str (access_token (author (kii_of CommandHandler s'))) = ''anon''"
  by code_simp+

theorem failed_onboarding_keeps_anonymous_token_witness:
  "\<exists>s'. onboard_with_thing_id sample_env (Some ''t1'') (Some ''pw'') None None None None reonboarding_start
      = Inr (False, s') \<and> state (thing s') = KII_THING_IF_STATE_ONBOARDED \<and>
    c_str (access_token (author (kii_of CommandHandler s'))) = ''anon'' \<and>
    author (kii_of StateUpdater s') = sample_author"
proof -
  obtain s1 where s1: "prv_kii_thing_if_get_anonymous_token sample_env CommandHandler reonboarding_start = Inr (0, s1)"
    using reonboarding_runs(1) by (rule returnsE)
  obtain s' where s': "onboard_with_thing_id sample_env (Some ''t1'') (Some ''pw'') None None None None
      reonboarding_start = Inr (False, s')" and code: "response_code (kii_of CommandHandler s') = 404"
    and anon: "c_str (access_token (author (kii_of CommandHandler s'))) = ''anon''"
    using reonboarding_runs(2) by (auto split: sum.splits prod.splits)
  have st: "state (thing reonboarding_start) = KII_THING_IF_STATE_ONBOARDED"
    "author (kii_of StateUpdater reonboarding_start) = sample_author"
    by (simp_all add: reonboarding_start_def sample_st_def sample_thing_def kii_of_def sample_kii_def)
  then have "state (thing reonboarding_start) \<noteq> KII_THING_IF_STATE_STARTED" by simp
  from failed_onboarding_keeps_anonymous_token [OF sample_frame this s1 disjI2 [OF s']] code s' anon st
  show ?thesis by simp
qed

end
