(* ===== verification/Lifecycle.thy ===== *)
theory Lifecycle
  imports Onboarding
begin

text \<open>
  Initialisation and start (kii_thing_if.c: \<open>prv_init_kii_thing_if\<close>, \<open>init_kii_thing_if\<close>,
  \<open>init_kii_thing_if_with_onboarded_thing\<close>, \<open>start\<close>). The state holds the \<open>kii_thing_if_t\<close> itself,
  so that the assertion that its pointer is not NULL has no counterpart.
\<close>

definition THING_IF_INFO :: string where
  "THING_IF_INFO = ''sn=tic;sv=1.0.1''"

definition KII_THING_IF_TASK_NAME_STATUS_UPDATE :: string where
  "KII_THING_IF_TASK_NAME_STATUS_UPDATE = ''status_update_task''"

section \<open>The code\<close>

text \<open>\<open>memset(kii_thing_if, 0x00, sizeof(kii_thing_if_t))\<close>: arrays keep their sizes.\<close>

definition zero_author :: "kii_author_t \<Rightarrow> kii_author_t" where
  "zero_author a =
     \<lparr>author_id = replicate (length (author_id a)) NUL,
      access_token = replicate (length (access_token a)) NUL\<rparr>"

definition zero_kii :: "('p, 'w) env \<Rightarrow> 'p kii_t \<Rightarrow> 'p kii_t" where
  "zero_kii env k =
     \<lparr>app_id = [], app_key = [], author = zero_author (author k), response_code = 0,
      response_body = None, http_error = http_error_zero env, http_buffer = None,
      http_buffer_size = 0, connect_cb = None, send_cb = None, recv_cb = None, close_cb = None,
      logger_cb = None, mqtt_buffer = None, mqtt_buffer_size = 0, mqtt_socket_connect_cb = None,
      mqtt_socket_send_cb = None, mqtt_socket_recv_cb = None, mqtt_socket_close_cb = None,
      task_create_cb = None, delay_ms_cb = None, kii_json_resource_cb = None,
      app_context = NullContext, kii_private = zero_private env\<rparr>"

definition zero_thing :: "('p, 'w) env \<Rightarrow> 'p kii_thing_if_t \<Rightarrow> 'p kii_thing_if_t" where
  "zero_thing env t =
     \<lparr>command_handler = zero_kii env (command_handler t),
      state_updater = zero_kii env (state_updater t), action_handler = None,
      state_handler_for_period = None, state_handler_for_command_reaction = None,
      custom_push_handler = None, state_update_period = 0,
      state = KII_THING_IF_STATE_INITIALIZED\<rparr>"

text \<open>\<open>memset\<close> on a buffer that the application supplies.\<close>

definition memset_buffer :: "buf_ptr \<Rightarrow> nat \<Rightarrow> (('p, 'w) st, unit) prog" where
  "memset_buffer b n =
     chain (gets (\<lambda>s. heap s b)) (\<lambda>x.
     chain (deref x) (\<lambda>a.
     chain (memset0 a n) (\<lambda>a'. modify (\<lambda>s. s\<lparr>heap := (heap s)(b \<mapsto> a')\<rparr>))))"

definition kii_init ::
  "('p, 'w) env \<Rightarrow> kii_ptr \<Rightarrow> string \<Rightarrow> string \<Rightarrow> string \<Rightarrow> string \<Rightarrow> (('p, 'w) st, int) prog" where
  "kii_init env p site appid appkey info =
     chain (gets (kii_of p)) (\<lambda>k.
     case kii_init_with_info env k site appid appkey info of
       (r, k') \<Rightarrow> chain (update_kii p (\<lambda>_. k')) (\<lambda>_. ret r))"

definition prv_init_kii_thing_if ::
  "('p, 'w) env \<Rightarrow> string option \<Rightarrow> string option \<Rightarrow> string option \<Rightarrow>
     kii_thing_if_command_handler_resource_t option \<Rightarrow>
     kii_thing_if_state_updater_resource_t option \<Rightarrow> kii_thing_if_system_cb_t option \<Rightarrow>
     fn_ptr option \<Rightarrow> (('p, 'w) st, bool) prog" where
  "prv_init_kii_thing_if env appid appkey app_host command_handler_resource
       state_updater_resource system_cb resource_cb =
     chain (m_assert env (appid \<noteq> None)) (\<lambda>_.
     chain (m_assert env (appkey \<noteq> None)) (\<lambda>_.
     chain (m_assert env (app_host \<noteq> None)) (\<lambda>_.
     chain (m_assert env (command_handler_resource \<noteq> None)) (\<lambda>_.
     chain (m_assert env (state_updater_resource \<noteq> None)) (\<lambda>_.
     chain (update_thing (zero_thing env)) (\<lambda>_.
     chain (deref command_handler_resource) (\<lambda>ch.
     chain (memset_buffer (ch_mqtt_buffer ch) (ch_mqtt_buffer_size ch)) (\<lambda>_.
     chain (memset_buffer (ch_buffer ch) (ch_buffer_size ch)) (\<lambda>_.
     chain (deref state_updater_resource) (\<lambda>su.
     chain (memset_buffer (su_buffer su) (su_buffer_size su)) (\<lambda>_.
     chain (deref app_host) (\<lambda>site.
     chain (deref appid) (\<lambda>i.
     chain (deref appkey) (\<lambda>key.
     \<comment> \<open>Initialize command_handler\<close>
     chain (kii_init env CommandHandler site i key THING_IF_INFO) (\<lambda>r.
     if r \<noteq> 0 then ret False
     else
       chain (update_kii CommandHandler (\<lambda>k. k
         \<lparr>http_buffer := Some (ch_buffer ch), http_buffer_size := ch_buffer_size ch,
          mqtt_buffer := Some (ch_mqtt_buffer ch), mqtt_buffer_size := ch_mqtt_buffer_size ch,
          kii_json_resource_cb := resource_cb\<rparr>)) (\<lambda>_.
       chain (update_thing (\<lambda>t. t
         \<lparr>action_handler := ch_action_handler ch,
          state_handler_for_command_reaction := ch_state_handler ch,
          custom_push_handler := ch_custom_push_handler ch\<rparr>)) (\<lambda>_.
       chain (update_kii CommandHandler (\<lambda>k. k\<lparr>app_context := ThingIfContext\<rparr>)) (\<lambda>_.
       \<comment> \<open>Initialize state_updater\<close>
       chain (kii_init env StateUpdater site i key THING_IF_INFO) (\<lambda>r.
       if r \<noteq> 0 then ret False
       else
         chain (update_kii StateUpdater (\<lambda>k. k
           \<lparr>http_buffer := Some (su_buffer su), http_buffer_size := su_buffer_size su,
            kii_json_resource_cb := resource_cb\<rparr>)) (\<lambda>_.
         chain (update_thing (\<lambda>t. t
           \<lparr>state_handler_for_period := su_state_handler su,
            state_update_period := su_period su\<rparr>)) (\<lambda>_.
         chain (update_kii StateUpdater (\<lambda>k. k\<lparr>app_context := ThingIfContext\<rparr>)) (\<lambda>_.
         chain (deref system_cb) (\<lambda>cb.
         \<comment> \<open>setup command handler callbacks\<close>
         chain (update_kii CommandHandler (\<lambda>k. k
           \<lparr>connect_cb := cb_socket_connect cb, send_cb := cb_socket_send cb,
            recv_cb := cb_socket_recv cb, close_cb := cb_socket_close cb,
            mqtt_socket_connect_cb := cb_mqtt_socket_connect cb,
            mqtt_socket_send_cb := cb_mqtt_socket_send cb,
            mqtt_socket_recv_cb := cb_mqtt_socket_recv cb,
            mqtt_socket_close_cb := cb_mqtt_socket_close cb,
            task_create_cb := cb_task_create cb, delay_ms_cb := cb_delay_ms cb,
            logger_cb := cb_log cb\<rparr>)) (\<lambda>_.
         \<comment> \<open>setup state updater callbacks\<close>
         chain (update_kii StateUpdater (\<lambda>k. k
           \<lparr>connect_cb := cb_socket_connect cb, send_cb := cb_socket_send cb,
            recv_cb := cb_socket_recv cb, close_cb := cb_socket_close cb,
            task_create_cb := cb_task_create cb, delay_ms_cb := cb_delay_ms cb,
            logger_cb := cb_log cb\<rparr>)) (\<lambda>_.
         chain (update_thing (\<lambda>t. t\<lparr>state := KII_THING_IF_STATE_INITIALIZED\<rparr>)) (\<lambda>_.
         ret True))))))))))))))))))))))))))"

definition init_kii_thing_if ::
  "('p, 'w) env \<Rightarrow> string option \<Rightarrow> string option \<Rightarrow> string option \<Rightarrow>
     kii_thing_if_command_handler_resource_t option \<Rightarrow>
     kii_thing_if_state_updater_resource_t option \<Rightarrow> kii_thing_if_system_cb_t option \<Rightarrow>
     fn_ptr option \<Rightarrow> (('p, 'w) st, bool) prog" where
  "init_kii_thing_if env appid appkey app_host command_handler_resource state_updater_resource
       system_cb resource_cb =
     prv_init_kii_thing_if env appid appkey app_host command_handler_resource
       state_updater_resource system_cb resource_cb"

text \<open>\<open>prv_set_author\<close> on the author inside one of the thing's \<open>kii_t\<close>.\<close>

definition set_author_of ::
  "kii_ptr \<Rightarrow> char list option \<Rightarrow> char list option \<Rightarrow> (('p, 'w) st, bool) prog" where
  "set_author_of p thing_id token =
     chain (gets (\<lambda>s. author (kii_of p s))) (\<lambda>a.
     chain (prv_set_author a thing_id token) (\<lambda>(ok, a').
     chain (update_kii p (\<lambda>k. k\<lparr>author := a'\<rparr>)) (\<lambda>_. ret ok)))"

definition init_kii_thing_if_with_onboarded_thing ::
  "('p, 'w) env \<Rightarrow> string option \<Rightarrow> string option \<Rightarrow> string option \<Rightarrow>
     char list option \<Rightarrow> char list option \<Rightarrow>
     kii_thing_if_command_handler_resource_t option \<Rightarrow>
     kii_thing_if_state_updater_resource_t option \<Rightarrow> kii_thing_if_system_cb_t option \<Rightarrow>
     fn_ptr option \<Rightarrow> (('p, 'w) st, bool) prog" where
  "init_kii_thing_if_with_onboarded_thing env appid appkey app_host thing_id token
       command_handler_resource state_updater_resource system_cb resource_cb =
     chain (prv_init_kii_thing_if env appid appkey app_host command_handler_resource
         state_updater_resource system_cb resource_cb) (\<lambda>ok.
     if \<not> ok then ret False
     else
       chain (set_author_of CommandHandler thing_id token) (\<lambda>ok.
       if \<not> ok then ret False
       else
         chain (set_author_of StateUpdater thing_id token) (\<lambda>ok.
         if \<not> ok then ret False
         else
           chain (update_thing (\<lambda>t. t\<lparr>state := KII_THING_IF_STATE_ONBOARDED\<rparr>)) (\<lambda>_.
           ret True))))"

text \<open>
  The push routine is started with \<open>received_callback\<close>; the result of \<open>task_create_cb\<close> is
  dropped.
\<close>

definition start :: "('p, 'w) env \<Rightarrow> (('p, 'w) st, bool) prog" where
  "start env =
     chain (gets (\<lambda>s. state (thing s))) (\<lambda>x.
     if x \<noteq> KII_THING_IF_STATE_ONBOARDED then ret False
     else
       chain (push_start env CommandHandler) (\<lambda>r.
       if r \<noteq> 0 then ret False
       else
         chain (gets (\<lambda>s. task_create_cb (kii_of StateUpdater s))) (\<lambda>f.
         chain (deref f) (\<lambda>cb.
         chain (task_create env cb KII_THING_IF_TASK_NAME_STATUS_UPDATE StateUpdater) (\<lambda>_.
         ret True)))))"

section \<open>Buffers\<close>

definition zeroed :: "(buf_ptr \<Rightarrow> char list option) \<Rightarrow> buf_ptr \<Rightarrow> nat \<Rightarrow> bool" where
  "zeroed h b n \<longleftrightarrow> (case h b of None \<Rightarrow> False | Some a \<Rightarrow> n \<le> length a \<and> list_all (\<lambda>c. c = NUL) (take n a))"

lemma list_all_zero: "list_all (\<lambda>c. c = NUL) xs \<longleftrightarrow> (\<forall>i < length xs. xs ! i = NUL)"
  by (simp add: list_all_length)

lemma memset_buffer_eq_Inr:
  "memset_buffer b n s = Inr (u, s') \<longleftrightarrow>
     (\<exists>a. heap s b = Some a \<and> n \<le> length a \<and>
        s' = s\<lparr>heap := (heap s)(b \<mapsto> replicate n NUL @ drop n a)\<rparr>)"
  by (auto simp: memset_buffer_def chain_eq_Inr run_iffs)

lemma memset_buffer_zeroed: "memset_buffer b n s = Inr (u, s') \<Longrightarrow> zeroed (heap s') b n"
  by (auto simp: memset_buffer_eq_Inr zeroed_def list_all_iff)

text \<open>Clearing one buffer leaves another cleared, even where they overlap.\<close>

lemma memset_buffer_keeps:
  "memset_buffer b n s = Inr (u, s') \<Longrightarrow> zeroed (heap s) c m \<Longrightarrow> zeroed (heap s') c m"
  by (auto simp: memset_buffer_eq_Inr zeroed_def list_all_zero nth_append split: option.splits)

lemma memset_buffer_frame:
  "memset_buffer b n s = Inr (u, s') \<Longrightarrow>
     thing s' = thing s \<and> trace s' = trace s \<and> err s' = err s \<and> world s' = world s"
  by (auto simp: memset_buffer_eq_Inr)

lemma kii_init_eq_Inr:
  "kii_init env p site i key info s = Inr (r, s') \<longleftrightarrow>
     (\<exists>k. kii_init_with_info env (kii_of p s) site i key info = (r, k) \<and>
        s' = s\<lparr>thing := put_kii p k (thing s)\<rparr>)"
  by (cases "kii_init_with_info env (kii_of p s) site i key info")
    (auto simp: kii_init_def chain_eq_Inr)

lemma prv_set_author_st:
  "prv_set_author a i k s = Inr (x, s') \<Longrightarrow> s' = s"
  by (cases i; cases k) (auto simp: prv_set_author_def cstr_def split: if_splits)

lemma prv_set_author_not_NULL:
  "prv_set_author a i k s = Inr ((True, a'), s') \<Longrightarrow> i \<noteq> None \<and> k \<noteq> None"
  by (cases i; cases k) (auto simp: prv_set_author_def cstr_def split: if_splits)

lemma set_author_of_eq_Inr:
  "set_author_of p i k s = Inr (ok, s') \<longleftrightarrow>
     (\<exists>a'. prv_set_author (author (kii_of p s)) i k s = Inr ((ok, a'), s) \<and>
        s' = s\<lparr>thing := put_kii p ((kii_of p s)\<lparr>author := a'\<rparr>) (thing s)\<rparr>)"
  by (auto simp: set_author_of_def chain_eq_Inr dest: prv_set_author_st)

lemma set_author_of_state:
  "set_author_of p i k s = Inr (ok, s') \<Longrightarrow> state (thing s') = state (thing s)"
  by (auto simp: set_author_of_eq_Inr)

lemma set_author_of_None:
  "set_author_of p i k s = Inr (True, s') \<Longrightarrow> i \<noteq> None \<and> k \<noteq> None"
  by (auto simp: set_author_of_eq_Inr dest: prv_set_author_not_NULL)

lemma set_author_of_True:
  assumes "set_author_of p (Some i) (Some k) s = Inr (True, s')"
  shows "c_str (author_id (author (kii_of p s'))) = c_str i"
    and "c_str (access_token (author (kii_of p s'))) = c_str k"
    and "terminated (author (kii_of p s'))"
    and "length (c_str i) < length (author_id (author (kii_of p s)))"
    and "length (c_str k) < length (access_token (author (kii_of p s)))"
    and "p \<noteq> q \<Longrightarrow> kii_of q s' = kii_of q s"
    and "state (thing s') = state (thing s)"
  using assms
  by (auto simp: set_author_of_eq_Inr prv_set_author_eq_Inr terminated_def kii_of_def
      strncpy_c_str c_str_no_NUL split: if_splits)

lemma set_author_of_run:
  assumes "NUL \<in> set i" and "NUL \<in> set k"
    and "length (c_str i) < length (author_id (author (kii_of p s)))"
    and "length (c_str k) < length (access_token (author (kii_of p s)))"
  shows "\<exists>s'. set_author_of p (Some i) (Some k) s = Inr (True, s') \<and>
    (\<forall>q. q \<noteq> p \<longrightarrow> kii_of q s' = kii_of q s)"
  using assms by (simp add: set_author_of_def prv_set_author_def cstr_def kii_of_def)

section \<open>Initialisation\<close>

text \<open>The steps of an initialisation that ends, up to the call that initialises the first \<open>kii_t\<close>.\<close>

definition init_buffers ::
  "kii_thing_if_command_handler_resource_t \<Rightarrow> kii_thing_if_state_updater_resource_t \<Rightarrow>
     (('p, 'w) st, unit) prog" where
  "init_buffers ch su =
     chain (memset_buffer (ch_mqtt_buffer ch) (ch_mqtt_buffer_size ch)) (\<lambda>_.
     chain (memset_buffer (ch_buffer ch) (ch_buffer_size ch)) (\<lambda>_.
     memset_buffer (su_buffer su) (su_buffer_size su)))"

lemma init_buffers_result:
  assumes "init_buffers ch su s = Inr (u, s')"
  shows "thing s' = thing s" and "trace s' = trace s" and "err s' = err s" and "world s' = world s"
    and "zeroed (heap s') (ch_mqtt_buffer ch) (ch_mqtt_buffer_size ch)"
    and "zeroed (heap s') (ch_buffer ch) (ch_buffer_size ch)"
    and "zeroed (heap s') (su_buffer su) (su_buffer_size su)"
proof -
  obtain s1 s2 where m: "memset_buffer (ch_mqtt_buffer ch) (ch_mqtt_buffer_size ch) s = Inr ((), s1)"
    "memset_buffer (ch_buffer ch) (ch_buffer_size ch) s1 = Inr ((), s2)"
    "memset_buffer (su_buffer su) (su_buffer_size su) s2 = Inr ((), s')"
    using assms by (auto simp: init_buffers_def chain_eq_Inr)
  show "thing s' = thing s" "trace s' = trace s" "err s' = err s" "world s' = world s"
    using m by (auto dest!: memset_buffer_frame)
  show "zeroed (heap s') (ch_mqtt_buffer ch) (ch_mqtt_buffer_size ch)"
    "zeroed (heap s') (ch_buffer ch) (ch_buffer_size ch)"
    "zeroed (heap s') (su_buffer su) (su_buffer_size su)"
    using m by (blast intro: memset_buffer_zeroed memset_buffer_keeps)+
qed

text \<open>The wiring of the two \<open>kii_t\<close>, as one function of the resources.\<close>

definition wire_handler ::
  "kii_thing_if_command_handler_resource_t \<Rightarrow> kii_thing_if_system_cb_t \<Rightarrow> fn_ptr option \<Rightarrow>
     'p kii_t \<Rightarrow> 'p kii_t" where
  "wire_handler ch cb rc k = k
     \<lparr>http_buffer := Some (ch_buffer ch), http_buffer_size := ch_buffer_size ch,
      mqtt_buffer := Some (ch_mqtt_buffer ch), mqtt_buffer_size := ch_mqtt_buffer_size ch,
      kii_json_resource_cb := rc, app_context := ThingIfContext,
      connect_cb := cb_socket_connect cb, send_cb := cb_socket_send cb,
      recv_cb := cb_socket_recv cb, close_cb := cb_socket_close cb,
      mqtt_socket_connect_cb := cb_mqtt_socket_connect cb,
      mqtt_socket_send_cb := cb_mqtt_socket_send cb,
      mqtt_socket_recv_cb := cb_mqtt_socket_recv cb,
      mqtt_socket_close_cb := cb_mqtt_socket_close cb,
      task_create_cb := cb_task_create cb, delay_ms_cb := cb_delay_ms cb, logger_cb := cb_log cb\<rparr>"

definition wire_updater ::
  "kii_thing_if_state_updater_resource_t \<Rightarrow> kii_thing_if_system_cb_t \<Rightarrow> fn_ptr option \<Rightarrow>
     'p kii_t \<Rightarrow> 'p kii_t" where
  "wire_updater su cb rc k = k
     \<lparr>http_buffer := Some (su_buffer su), http_buffer_size := su_buffer_size su,
      kii_json_resource_cb := rc, app_context := ThingIfContext,
      connect_cb := cb_socket_connect cb, send_cb := cb_socket_send cb,
      recv_cb := cb_socket_recv cb, close_cb := cb_socket_close cb,
      task_create_cb := cb_task_create cb, delay_ms_cb := cb_delay_ms cb, logger_cb := cb_log cb\<rparr>"

lemma init_kii_thing_if_True:
  assumes "prv_init_kii_thing_if env appid appkey host chr sur cbr rc s = Inr (True, s')"
  shows "\<exists>i key site ch su cb k u s1. appid = Some i \<and> appkey = Some key \<and> host = Some site \<and>
     chr = Some ch \<and> sur = Some su \<and> cbr = Some cb \<and>
     kii_init_with_info env (zero_kii env (kii_of CommandHandler s)) site i key THING_IF_INFO
       = (0, k) \<and>
     kii_init_with_info env (zero_kii env (kii_of StateUpdater s)) site i key THING_IF_INFO
       = (0, u) \<and>
     init_buffers ch su (s\<lparr>thing := zero_thing env (thing s)\<rparr>) = Inr ((), s1) \<and>
     s' = s1\<lparr>thing := \<lparr>command_handler = wire_handler ch cb rc k,
       state_updater = wire_updater su cb rc u, action_handler = ch_action_handler ch,
       state_handler_for_period = su_state_handler su,
       state_handler_for_command_reaction = ch_state_handler ch,
       custom_push_handler = ch_custom_push_handler ch, state_update_period = su_period su,
       state = KII_THING_IF_STATE_INITIALIZED\<rparr>\<rparr>"
proof -
  obtain i key site ch su cb where args: "appid = Some i" "appkey = Some key" "host = Some site"
    "chr = Some ch" "sur = Some su" "cbr = Some cb"
    using assms
    by (cases appid; cases appkey; cases host; cases chr; cases sur; cases cbr)
      (auto simp: prv_init_kii_thing_if_def chain_eq_Inr run_iffs split: if_splits)
  obtain s1 where buf: "init_buffers ch su (s\<lparr>thing := zero_thing env (thing s)\<rparr>) = Inr ((), s1)"
    using assms
    by (auto simp: args prv_init_kii_thing_if_def init_buffers_def m_assert_def chain_eq_Inr)
  have th': "command_handler (thing s1) = zero_kii env (kii_of CommandHandler s)"
    "state_updater (thing s1) = zero_kii env (kii_of StateUpdater s)"
    using init_buffers_result(1) [OF buf] by (simp_all add: zero_thing_def kii_of_def)
  obtain sa sb where mem:
    "memset_buffer (ch_mqtt_buffer ch) (ch_mqtt_buffer_size ch) (s\<lparr>thing := zero_thing env (thing s)\<rparr>)
      = Inr ((), sa)"
    "memset_buffer (ch_buffer ch) (ch_buffer_size ch) sa = Inr ((), sb)"
    "memset_buffer (su_buffer su) (su_buffer_size su) sb = Inr ((), s1)"
    using buf by (auto simp: init_buffers_def chain_eq_Inr)
  obtain r k where k: "kii_init_with_info env (zero_kii env (kii_of CommandHandler s)) site i key
      THING_IF_INFO = (r, k)"
    by fastforce
  obtain q u where u: "kii_init_with_info env (zero_kii env (kii_of StateUpdater s)) site i key
      THING_IF_INFO = (q, u)"
    by fastforce
  have end_state: "r = 0 \<and> q = 0 \<and>
     s' = s1\<lparr>thing := \<lparr>command_handler = wire_handler ch cb rc k,
       state_updater = wire_updater su cb rc u, action_handler = ch_action_handler ch,
       state_handler_for_period = su_state_handler su,
       state_handler_for_command_reaction = ch_state_handler ch,
       custom_push_handler = ch_custom_push_handler ch, state_update_period = su_period su,
       state = KII_THING_IF_STATE_INITIALIZED\<rparr>\<rparr>"
    using assms k u th'
    by (auto simp: args prv_init_kii_thing_if_def m_assert_def mem kii_init_def kii_of_def
        wire_handler_def wire_updater_def split: if_splits
        intro!: arg_cong [where f = "\<lambda>t. s1\<lparr>thing := t\<rparr>"] kii_thing_if_t.equality)
  show ?thesis using args k u buf end_state by blast
qed

text \<open>Conversely, an initialisation with these parts succeeds.\<close>

lemma init_kii_thing_if_run:
  assumes buf: "init_buffers ch su (s\<lparr>thing := zero_thing env (thing s)\<rparr>) = Inr ((), s1)"
    and k: "kii_init_with_info env (zero_kii env (kii_of CommandHandler s)) site i key
      THING_IF_INFO = (0, k)"
    and u: "kii_init_with_info env (zero_kii env (kii_of StateUpdater s)) site i key
      THING_IF_INFO = (0, u)"
  shows "\<exists>s'. prv_init_kii_thing_if env (Some i) (Some key) (Some site) (Some ch) (Some su)
    (Some cb) rc s = Inr (True, s') \<and>
    kii_of CommandHandler s' = wire_handler ch cb rc k \<and>
    kii_of StateUpdater s' = wire_updater su cb rc u"
proof -
  have th': "command_handler (thing s1) = zero_kii env (kii_of CommandHandler s)"
    "state_updater (thing s1) = zero_kii env (kii_of StateUpdater s)"
    using init_buffers_result(1) [OF buf] by (simp_all add: zero_thing_def kii_of_def)
  obtain sa sb where mem:
    "memset_buffer (ch_mqtt_buffer ch) (ch_mqtt_buffer_size ch) (s\<lparr>thing := zero_thing env (thing s)\<rparr>)
      = Inr ((), sa)"
    "memset_buffer (ch_buffer ch) (ch_buffer_size ch) sa = Inr ((), sb)"
    "memset_buffer (su_buffer su) (su_buffer_size su) sb = Inr ((), s1)"
    using buf by (auto simp: init_buffers_def chain_eq_Inr)
  show ?thesis
    using k u th'
    by (simp add: prv_init_kii_thing_if_def m_assert_def mem kii_init_def kii_of_def
        wire_handler_def wire_updater_def)
qed

lemma preserves_state_updates:
  "(\<And>t. state t = x \<Longrightarrow> state (f t) = x) \<Longrightarrow> preserves (\<lambda>s. state (thing s) = x) (update_thing f)"
  "preserves (\<lambda>s. state (thing s) = x) (update_kii p g)"
  "preserves (\<lambda>s. state (thing s) = x) (memset_buffer b n)"
  "preserves (\<lambda>s. state (thing s) = x) (kii_init env p site i key info)"
  by (auto intro!: preservesI simp: memset_buffer_eq_Inr kii_init_eq_Inr)

lemma prv_init_state:
  "establishes (\<lambda>s. state (thing s) = KII_THING_IF_STATE_INITIALIZED)
     (prv_init_kii_thing_if env appid appkey host chr sur cbr rc)"
  unfolding prv_init_kii_thing_if_def
  by (rule establishes_later, rule establishes_later, rule establishes_later,
      rule establishes_later, rule establishes_later, rule establishes_now)
    (simp add: establishes_def zero_thing_def,
      auto intro!: preserves_intros preserves_state_updates)

section \<open>Start\<close>

lemma task_create_eq_Inr:
  "task_create env cb name p s = Inr (ok, s') \<longleftrightarrow>
     (\<exists>w. call_task_create env cb name p (world s) = (ok, w) \<and>
        s' = s\<lparr>world := w, trace := trace s @ [TaskCreate name p ok]\<rparr>)"
  by (auto simp: task_create_def split: prod.splits)

lemma start_eq_Inr:
  assumes "start env s = Inr (ok, s')"
  shows "state (thing s') = state (thing s)"
    and "ok \<Longrightarrow> state (thing s) = KII_THING_IF_STATE_ONBOARDED \<and>
      (\<exists>created. trace s' = trace s @ [PushStart CommandHandler 0,
         TaskCreate KII_THING_IF_TASK_NAME_STATUS_UPDATE StateUpdater created])"
    and "\<not> ok \<Longrightarrow> trace s' = trace s \<or>
      (\<exists>r. r \<noteq> 0 \<and> trace s' = trace s @ [PushStart CommandHandler r])"
    and "state (thing s) \<noteq> KII_THING_IF_STATE_ONBOARDED \<Longrightarrow> \<not> ok \<and> s' = s"
    and "kii_of StateUpdater s' = kii_of StateUpdater s"
  using assms
  by (auto simp: start_def chain_eq_Inr push_start_def call_kii_eq_Inr run_iffs task_create_eq_Inr
      kii_of_def split: if_splits)

section \<open>Properties\<close>

text \<open>
  C17. A successful \<open>init_kii_thing_if\<close>: every argument was given and both library
  initialisations succeeded on zeroed structures; the three buffers are cleared, the thing
  consists of the two \<open>kii_t\<close> wired to the buffers, callbacks and the thing itself and of the
  application's handlers, its state is INITIALIZED, and nothing was sent.
\<close>

theorem init_kii_thing_if_success:
  assumes "init_kii_thing_if env appid appkey app_host chr sur cbr rc s = Inr (True, s')"
  shows "\<exists>i key site ch su cb k u. appid = Some i \<and> appkey = Some key \<and> app_host = Some site \<and>
     chr = Some ch \<and> sur = Some su \<and> cbr = Some cb \<and>
     kii_init_with_info env (zero_kii env (kii_of CommandHandler s)) site i key THING_IF_INFO
       = (0, k) \<and>
     kii_init_with_info env (zero_kii env (kii_of StateUpdater s)) site i key THING_IF_INFO
       = (0, u) \<and>
     thing s' = \<lparr>command_handler = wire_handler ch cb rc k,
       state_updater = wire_updater su cb rc u, action_handler = ch_action_handler ch,
       state_handler_for_period = su_state_handler su,
       state_handler_for_command_reaction = ch_state_handler ch,
       custom_push_handler = ch_custom_push_handler ch, state_update_period = su_period su,
       state = KII_THING_IF_STATE_INITIALIZED\<rparr> \<and>
     zeroed (heap s') (ch_buffer ch) (ch_buffer_size ch) \<and>
     zeroed (heap s') (ch_mqtt_buffer ch) (ch_mqtt_buffer_size ch) \<and>
     zeroed (heap s') (su_buffer su) (su_buffer_size su) \<and>
     trace s' = trace s"
proof -
  obtain i key site ch su cb k u s1
    where args: "appid = Some i" "appkey = Some key" "app_host = Some site" "chr = Some ch"
        "sur = Some su" "cbr = Some cb"
      and k: "kii_init_with_info env (zero_kii env (kii_of CommandHandler s)) site i key
        THING_IF_INFO = (0, k)"
      and u: "kii_init_with_info env (zero_kii env (kii_of StateUpdater s)) site i key
        THING_IF_INFO = (0, u)"
      and buf: "init_buffers ch su (s\<lparr>thing := zero_thing env (thing s)\<rparr>) = Inr ((), s1)"
      and s': "s' = s1\<lparr>thing := \<lparr>command_handler = wire_handler ch cb rc k,
        state_updater = wire_updater su cb rc u, action_handler = ch_action_handler ch,
        state_handler_for_period = su_state_handler su,
        state_handler_for_command_reaction = ch_state_handler ch,
        custom_push_handler = ch_custom_push_handler ch, state_update_period = su_period su,
        state = KII_THING_IF_STATE_INITIALIZED\<rparr>\<rparr>"
    using init_kii_thing_if_True [OF assms [unfolded init_kii_thing_if_def]] by blast
  have "zeroed (heap s') (ch_buffer ch) (ch_buffer_size ch)"
    "zeroed (heap s') (ch_mqtt_buffer ch) (ch_mqtt_buffer_size ch)"
    "zeroed (heap s') (su_buffer su) (su_buffer_size su)" "trace s' = trace s"
    using init_buffers_result [OF buf] by (simp_all add: s')
  moreover have "thing s' = \<lparr>command_handler = wire_handler ch cb rc k,
        state_updater = wire_updater su cb rc u, action_handler = ch_action_handler ch,
        state_handler_for_period = su_state_handler su,
        state_handler_for_command_reaction = ch_state_handler ch,
        custom_push_handler = ch_custom_push_handler ch, state_update_period = su_period su,
        state = KII_THING_IF_STATE_INITIALIZED\<rparr>"
    by (simp add: s')
  ultimately show ?thesis using args k u by (intro exI conjI)
qed

definition sample_resource :: kii_thing_if_command_handler_resource_t where
  "sample_resource =
     \<lparr>ch_buffer = 1, ch_buffer_size = 4, ch_mqtt_buffer = 2, ch_mqtt_buffer_size = 3,
      ch_action_handler = Some 11, ch_state_handler = Some 12, ch_custom_push_handler = None\<rparr>"

definition sample_updater_resource :: kii_thing_if_state_updater_resource_t where
  "sample_updater_resource =
     \<lparr>su_buffer = 3, su_buffer_size = 4, su_period = 60, su_state_handler = Some 12\<rparr>"

definition sample_system_cb :: kii_thing_if_system_cb_t where
  "sample_system_cb =
     \<lparr>cb_task_create = Some 9, cb_delay_ms = Some 10, cb_log = None, cb_socket_connect = Some 1,
      cb_socket_send = Some 2, cb_socket_recv = Some 3, cb_socket_close = Some 4,
      cb_mqtt_socket_connect = Some 5, cb_mqtt_socket_send = Some 6, cb_mqtt_socket_recv = Some 7,
      cb_mqtt_socket_close = Some 8\<rparr>"

definition sample_heap_st :: "(nat, sample_world) st" where
  "sample_heap_st = (sample_st KII_THING_IF_STATE_STARTED [])
     \<lparr>heap := (\<lambda>b. if b \<le> 3 then Some ''junk'' else None)\<rparr>"

definition sample_init :: "fault + bool \<times> (nat, sample_world) st" where
  "sample_init = init_kii_thing_if sample_env (Some ''app1'') (Some ''key1'') (Some ''JP'')
     (Some sample_resource) (Some sample_updater_resource) (Some sample_system_cb) None
     sample_heap_st"

lemma sample_buffers:
  "\<exists>s1. init_buffers sample_resource sample_updater_resource
     (sample_heap_st\<lparr>thing := zero_thing sample_env (thing sample_heap_st)\<rparr>) = Inr ((), s1)"
  by (simp add: init_buffers_def memset_buffer_def memset0_def sample_resource_def
      sample_updater_resource_def sample_heap_st_def)

lemma sample_init_kii:
  "kii_init_with_info sample_env k site i key info = (0, k\<lparr>app_id := i, app_key := key\<rparr>)"
  by (simp add: sample_env_def)

lemma sample_prv_init:
  "\<exists>s'. prv_init_kii_thing_if sample_env (Some ''app1'') (Some ''key1'') (Some ''JP'')
     (Some sample_resource) (Some sample_updater_resource) (Some sample_system_cb) None
     sample_heap_st = Inr (True, s') \<and>
     (\<forall>p. length (author_id (author (kii_of p s'))) = 16 \<and>
        length (access_token (author (kii_of p s'))) = 16)"
proof -
  obtain s1 where s1: "init_buffers sample_resource sample_updater_resource
     (sample_heap_st\<lparr>thing := zero_thing sample_env (thing sample_heap_st)\<rparr>) = Inr ((), s1)"
    using sample_buffers by blast
  have author: "author (kii_of p sample_heap_st) = sample_author" for p
    by (cases p) (simp_all add: sample_heap_st_def sample_st_def sample_thing_def sample_kii_def
        kii_of_def)
  obtain s' where "prv_init_kii_thing_if sample_env (Some ''app1'') (Some ''key1'') (Some ''JP'')
     (Some sample_resource) (Some sample_updater_resource) (Some sample_system_cb) None
     sample_heap_st = Inr (True, s')"
    and kii: "author (kii_of CommandHandler s') = zero_author sample_author"
    "author (kii_of StateUpdater s') = zero_author sample_author"
    using init_kii_thing_if_run [OF s1 sample_init_kii sample_init_kii,
        where cb = sample_system_cb and rc = None and i = "''app1''" and key = "''key1''"
        and site = "''JP''"]
    by (auto simp: wire_handler_def wire_updater_def zero_kii_def author)
  moreover have "length (author_id (author (kii_of p s'))) = 16 \<and>
        length (access_token (author (kii_of p s'))) = 16" for p
    by (cases p) (simp_all add: kii zero_author_def sample_author_def)
  ultimately show ?thesis by blast
qed

theorem init_kii_thing_if_success_witness:
  "\<exists>s'. sample_init = Inr (True, s') \<and> state (thing s') = KII_THING_IF_STATE_INITIALIZED \<and>
     zeroed (heap s') 1 4"
proof -
  obtain s' where s': "sample_init = Inr (True, s')"
    using sample_prv_init by (auto simp: sample_init_def init_kii_thing_if_def)
  obtain ch where "Some sample_resource = Some ch"
    and "zeroed (heap s') (ch_buffer ch) (ch_buffer_size ch)"
    using init_kii_thing_if_success [OF s' [unfolded sample_init_def]] by blast
  then have "zeroed (heap s') 1 4" by (auto simp: sample_resource_def)
  with init_kii_thing_if_success [OF s' [unfolded sample_init_def]] s'
  show ?thesis by fastforce
qed

text \<open>
  C37. \<open>init_kii_thing_if\<close> leaves the state INITIALIZED whether or not it succeeds, so the state
  does not tell a failed initialisation from a finished one.
\<close>

theorem init_kii_thing_if_state:
  assumes "init_kii_thing_if env appid appkey app_host chr sur cbr rc s = Inr (ok, s')"
  shows "state (thing s') = KII_THING_IF_STATE_INITIALIZED"
  using establishesD [OF prv_init_state assms [unfolded init_kii_thing_if_def]] .

definition failing_init :: "fault + bool \<times> (nat, sample_world) st" where
  "failing_init = init_kii_thing_if
     (sample_env\<lparr>kii_init_with_info := (\<lambda>k site appid appkey info. (- 1, k))\<rparr>)
     (Some ''app1'') (Some ''key1'') (Some ''JP'') (Some sample_resource)
     (Some sample_updater_resource) (Some sample_system_cb) None sample_heap_st"

theorem init_kii_thing_if_state_witness:
  "\<exists>s'. failing_init = Inr (False, s') \<and> state (thing s') = KII_THING_IF_STATE_INITIALIZED"
proof -
  have "returns False failing_init" by code_simp
  then obtain s' where s': "failing_init = Inr (False, s')" by (rule returnsE)
  with init_kii_thing_if_state [OF s' [unfolded failing_init_def]]
  show ?thesis by auto
qed

text \<open>
  C23. \<open>init_kii_thing_if_with_onboarded_thing\<close>: on success the thing is onboarded and both
  \<open>kii_t\<close> hold the given ID and token, NUL-terminated and uncut; on failure it is INITIALIZED.
\<close>

theorem init_with_onboarded_thing_outcome:
  assumes "init_kii_thing_if_with_onboarded_thing env appid appkey app_host thing_id token chr sur
     cbr rc s = Inr (ok, s')"
  shows "if ok then
       state (thing s') = KII_THING_IF_STATE_ONBOARDED \<and>
       (\<exists>i k. thing_id = Some i \<and> token = Some k \<and>
         (\<forall>p. c_str (author_id (author (kii_of p s'))) = c_str i \<and>
            c_str (access_token (author (kii_of p s'))) = c_str k \<and>
            terminated (author (kii_of p s'))))
     else state (thing s') = KII_THING_IF_STATE_INITIALIZED"
proof -
  have init: "state (thing t) = KII_THING_IF_STATE_INITIALIZED"
    if "prv_init_kii_thing_if env appid appkey app_host chr sur cbr rc s = Inr (b, t)" for b t
    using establishesD [OF prv_init_state that] .
  show ?thesis
  proof (cases ok)
    case False
    with assms show ?thesis
      by (auto simp: init_kii_thing_if_with_onboarded_thing_def chain_eq_Inr
          dest!: init set_author_of_state split: if_splits)
  next
    case True
    obtain s1 s2 s3
      where a1: "set_author_of CommandHandler thing_id token s1 = Inr (True, s2)"
        and a2: "set_author_of StateUpdater thing_id token s2 = Inr (True, s3)"
        and s': "s' = s3\<lparr>thing := (thing s3)\<lparr>state := KII_THING_IF_STATE_ONBOARDED\<rparr>\<rparr>"
      using assms True
      by (auto simp: init_kii_thing_if_with_onboarded_thing_def chain_eq_Inr split: if_splits)
    obtain i k where ik: "thing_id = Some i" "token = Some k"
      using set_author_of_None [OF a1] by auto
    note h1 = set_author_of_True [OF a1 [unfolded ik]]
    note h2 = set_author_of_True [OF a2 [unfolded ik]]
    have same: "kii_of CommandHandler s3 = kii_of CommandHandler s2"
      using h2(6) by simp
    have eq: "kii_of p s' = kii_of p s3" for p
      unfolding s' kii_of_def by (cases p) auto
    have all: "c_str (author_id (author (kii_of p s'))) = c_str i \<and>
        c_str (access_token (author (kii_of p s'))) = c_str k \<and>
        terminated (author (kii_of p s'))" for p
      using h1(1-3) h2(1-3) same eq by (cases p) auto
    show ?thesis using True ik all s' by simp
  qed
qed

definition sample_onboarded_init :: "fault + bool \<times> (nat, sample_world) st" where
  "sample_onboarded_init = init_kii_thing_if_with_onboarded_thing sample_env
     (Some ''app1'') (Some ''key1'') (Some ''JP'') (Some (''th7'' @ [NUL])) (Some (''tk7'' @ [NUL]))
     (Some sample_resource) (Some sample_updater_resource) (Some sample_system_cb) None
     sample_heap_st"

theorem init_with_onboarded_thing_outcome_witness:
  "\<exists>s'. sample_onboarded_init = Inr (True, s') \<and>
     c_str (author_id (author (kii_of StateUpdater s'))) = ''th7''"
proof -
  obtain s1 where s1: "prv_init_kii_thing_if sample_env (Some ''app1'') (Some ''key1'')
      (Some ''JP'') (Some sample_resource) (Some sample_updater_resource) (Some sample_system_cb)
      None sample_heap_st = Inr (True, s1)"
    and len: "length (author_id (author (kii_of p s1))) = 16"
      "length (access_token (author (kii_of p s1))) = 16" for p
    using sample_prv_init by blast
  have texts: "NUL \<in> set (''th7'' @ [NUL])" "NUL \<in> set (''tk7'' @ [NUL])"
    "c_str (''th7'' @ [NUL]) = ''th7''" "c_str (''tk7'' @ [NUL]) = ''tk7''"
    by (simp_all add: c_str_def NUL_def)
  obtain s2 where s2: "set_author_of CommandHandler (Some (''th7'' @ [NUL])) (Some (''tk7'' @ [NUL]))
      s1 = Inr (True, s2)" and same: "kii_of StateUpdater s2 = kii_of StateUpdater s1"
    using set_author_of_run [of "''th7'' @ [NUL]" "''tk7'' @ [NUL]" CommandHandler s1] texts len
    by auto
  obtain s3 where s3: "set_author_of StateUpdater (Some (''th7'' @ [NUL])) (Some (''tk7'' @ [NUL]))
      s2 = Inr (True, s3)"
    using set_author_of_run [of "''th7'' @ [NUL]" "''tk7'' @ [NUL]" StateUpdater s2] texts len same
    by auto
  obtain s' where s': "sample_onboarded_init = Inr (True, s')"
    using s1 s2 s3
    by (simp add: sample_onboarded_init_def init_kii_thing_if_with_onboarded_thing_def)
  have "c_str (author_id (author (kii_of StateUpdater s'))) = c_str (''th7'' @ [NUL])"
    using init_with_onboarded_thing_outcome [OF s' [unfolded sample_onboarded_init_def]] by auto
  hence "c_str (author_id (author (kii_of StateUpdater s'))) = ''th7''"
    using texts(3) by (rule trans)
  with s' show ?thesis by blast
qed

text \<open>
  C4. \<open>start\<close>: it succeeds only on an onboarded thing, with the push routine started once and
  then the status task asked for, whether or not that task was created; on a thing that is not
  onboarded it makes no call and changes nothing. It never changes the life cycle state: the
  thing stays ONBOARDED after a successful start.
\<close>

theorem start_outcome:
  assumes "start env s = Inr (ok, s')"
  shows "state (thing s') = state (thing s) \<and>
     (if ok then state (thing s) = KII_THING_IF_STATE_ONBOARDED \<and>
        (\<exists>created. trace s' = trace s @ [PushStart CommandHandler 0,
           TaskCreate KII_THING_IF_TASK_NAME_STATUS_UPDATE StateUpdater created])
      else trace s' = trace s \<or>
        (\<exists>r. r \<noteq> 0 \<and> trace s' = trace s @ [PushStart CommandHandler r])) \<and>
     (state (thing s) \<noteq> KII_THING_IF_STATE_ONBOARDED \<longrightarrow> \<not> ok \<and> s' = s)"
  using start_eq_Inr [OF assms] by (cases ok) auto

definition sample_start_run :: "fault + bool \<times> (nat, sample_world) st" where
  "sample_start_run = start (sample_env\<lparr>call_task_create := (\<lambda>f name p w. (False, w))\<rparr>)
     (sample_st KII_THING_IF_STATE_ONBOARDED [])"

theorem start_outcome_witness:
  "\<exists>s'. sample_start_run = Inr (True, s') \<and> state (thing s') = KII_THING_IF_STATE_ONBOARDED"
proof -
  have "returns True sample_start_run" by code_simp
  then obtain s' where s': "sample_start_run = Inr (True, s')" by (rule returnsE)
  have "state (thing s') = KII_THING_IF_STATE_ONBOARDED"
    using start_outcome [OF s' [unfolded sample_start_run_def]] by simp
  with s' show ?thesis by blast
qed

end
