(* ===== verification/Thing_Info.thy ===== *)
theory Thing_Info
  imports Http_Session Resource_Path Sample_Env
begin

text \<open>
  Reading and replacing the firmware version and the thing type (kii_thing_if.c:
  \<open>get_firmware_version\<close>, \<open>update_firmware_version\<close>, \<open>get_thing_type\<close>, \<open>update_thing_type\<close>).
  The four share a contract, the locale \<open>guarded_operation\<close>: outside the state ONBOARDED they
  refuse with \<open>ERROR_INVALID_STATE\<close> and make no call, and in every state they keep the life
  cycle state and the state updater.

  The getters take the array behind the caller's pointer (\<open>None\<close> for NULL) and its declared
  length, and return their result with the array's new contents.
\<close>

definition CONTENT_UPDATE_FIRMWARE_VERSION :: string where
  "CONTENT_UPDATE_FIRMWARE_VERSION = ''application/vnd.kii.ThingFirmwareVersionUpdateRequest+json''"

definition CONTENT_UPDATE_THING_TYPE :: string where
  "CONTENT_UPDATE_THING_TYPE = ''application/vnd.kii.ThingTypeUpdateRequest+json''"

section \<open>The code\<close>

definition get_firmware_version ::
  "('p, 'w) env \<Rightarrow> char list option \<Rightarrow> nat \<Rightarrow> (('p, 'w) st, bool \<times> char list option) prog" where
  "get_firmware_version env out out_len =
     chain (gets (\<lambda>s. state (thing s))) (\<lambda>x.
     case x of
       KII_THING_IF_STATE_INITIALIZED \<Rightarrow>
         chain (set_err_code KII_THING_IF_ERROR_INVALID_STATE) (\<lambda>_. ret (False, out))
     | KII_THING_IF_STATE_STARTED \<Rightarrow>
         chain (set_err_code KII_THING_IF_ERROR_INVALID_STATE) (\<lambda>_. ret (False, out))
     | KII_THING_IF_STATE_ONBOARDED \<Rightarrow>
         chain (gets (\<lambda>s. app_id (kii_of CommandHandler s))) (\<lambda>appid.
         chain (gets (\<lambda>s. author_id (author (kii_of CommandHandler s)))) (\<lambda>a.
         chain (cstr a) (\<lambda>authorid.
         chain (prv_set_firmware_version_resource_path env appid authorid 128) (\<lambda>succeeded.
         case succeeded of
           None \<Rightarrow> ret (False, out)
         | Some resource_path \<Rightarrow>
             chain (prv_kii_api_call_start env CommandHandler ''GET'' resource_path None True) (\<lambda>r.
             if r \<noteq> 0 then ret (False, out)
             else
               chain (prv_execute_http_session env CommandHandler) (\<lambda>ok.
               if \<not> ok then ret (False, out)
               else
                 chain (deref out) (\<lambda>arr.
                 chain (memset0 arr out_len) (\<lambda>cleared.
                 chain (gets (\<lambda>s. response_body (kii_of CommandHandler s))) (\<lambda>b.
                 chain (deref b) (\<lambda>body.
                 case prv_kii_thing_if_json_read_object env body
                     [field_by_path env ''/firmwareVersion'' KII_JSON_FIELD_TYPE_STRING
                        (Some (cleared, out_len))] of
                   (result, fs) \<Rightarrow>
                     chain (field_at fs 0) (\<lambda>f.
                     if result \<noteq> KII_JSON_PARSE_SUCCESS then
                       chain (set_err_code
                         (if jf_result f = KII_JSON_FIELD_PARSE_COPY_FAILED
                          then KII_THING_IF_ERROR_INSUFFICIENT_ARG_BUFFER
                          else KII_THING_IF_ERROR_INVALID_PAYLOAD)) (\<lambda>_.
                       ret (False, Some (copied f cleared)))
                     else ret (True, Some (copied f cleared))))))))))))))"

definition update_firmware_version ::
  "('p, 'w) env \<Rightarrow> string option \<Rightarrow> (('p, 'w) st, bool) prog" where
  "update_firmware_version env val =
     chain (gets (\<lambda>s. state (thing s))) (\<lambda>x.
     case x of
       KII_THING_IF_STATE_INITIALIZED \<Rightarrow>
         chain (set_err_code KII_THING_IF_ERROR_INVALID_STATE) (\<lambda>_. ret False)
     | KII_THING_IF_STATE_STARTED \<Rightarrow>
         chain (set_err_code KII_THING_IF_ERROR_INVALID_STATE) (\<lambda>_. ret False)
     | KII_THING_IF_STATE_ONBOARDED \<Rightarrow>
         chain (gets (\<lambda>s. app_id (kii_of CommandHandler s))) (\<lambda>appid.
         chain (gets (\<lambda>s. author_id (author (kii_of CommandHandler s)))) (\<lambda>a.
         chain (cstr a) (\<lambda>authorid.
         chain (prv_set_firmware_version_resource_path env appid authorid 128) (\<lambda>succeeded.
         case succeeded of
           None \<Rightarrow> ret False
         | Some resource_path \<Rightarrow>
             chain (prv_kii_api_call_start env CommandHandler ''PUT'' resource_path
                 (Some CONTENT_UPDATE_FIRMWARE_VERSION) True) (\<lambda>r.
             if r \<noteq> 0 then ret False
             else
               chain (or_chain
                 [api_append env CommandHandler ''{'',
                  prv_append_key_value_string env CommandHandler (Some ''firmwareVersion'') val False,
                  api_append env CommandHandler ''}'']) (\<lambda>failed.
               if failed then
                 chain (set_err_code KII_THING_IF_ERROR_INSUFFICIENT_BUFFER) (\<lambda>_. ret False)
               else prv_execute_http_session env CommandHandler)))))))"

definition get_thing_type ::
  "('p, 'w) env \<Rightarrow> char list option \<Rightarrow> nat \<Rightarrow> (('p, 'w) st, bool \<times> char list option) prog" where
  "get_thing_type env out out_len =
     chain (gets (\<lambda>s. state (thing s))) (\<lambda>x.
     case x of
       KII_THING_IF_STATE_INITIALIZED \<Rightarrow>
         chain (set_err_code KII_THING_IF_ERROR_INVALID_STATE) (\<lambda>_. ret (False, out))
     | KII_THING_IF_STATE_STARTED \<Rightarrow>
         chain (set_err_code KII_THING_IF_ERROR_INVALID_STATE) (\<lambda>_. ret (False, out))
     | KII_THING_IF_STATE_ONBOARDED \<Rightarrow>
         chain (gets (\<lambda>s. app_id (kii_of CommandHandler s))) (\<lambda>appid.
         chain (gets (\<lambda>s. author_id (author (kii_of CommandHandler s)))) (\<lambda>a.
         chain (cstr a) (\<lambda>authorid.
         chain (prv_set_thing_type_resource_path env appid authorid 128) (\<lambda>succeeded.
         case succeeded of
           None \<Rightarrow> ret (False, out)
         | Some resource_path \<Rightarrow>
             chain (prv_kii_api_call_start env CommandHandler ''GET'' resource_path None True) (\<lambda>r.
             if r \<noteq> 0 then ret (False, out)
             else
               chain (prv_execute_http_session env CommandHandler) (\<lambda>ok.
               if \<not> ok then ret (False, out)
               else
                 chain (deref out) (\<lambda>arr.
                 chain (memset0 arr out_len) (\<lambda>cleared.
                 chain (gets (\<lambda>s. response_body (kii_of CommandHandler s))) (\<lambda>b.
                 chain (deref b) (\<lambda>body.
                 case prv_kii_thing_if_json_read_object env body
                     [field_by_path env ''/thingType'' KII_JSON_FIELD_TYPE_STRING
                        (Some (cleared, out_len))] of
                   (result, fs) \<Rightarrow>
                     chain (field_at fs 0) (\<lambda>f.
                     if result \<noteq> KII_JSON_PARSE_SUCCESS then
                       chain (set_err_code
                         (if jf_result f = KII_JSON_FIELD_PARSE_COPY_FAILED
                          then KII_THING_IF_ERROR_INSUFFICIENT_ARG_BUFFER
                          else KII_THING_IF_ERROR_INVALID_PAYLOAD)) (\<lambda>_.
                       ret (False, Some (copied f cleared)))
                     else ret (True, Some (copied f cleared))))))))))))))"

definition update_thing_type ::
  "('p, 'w) env \<Rightarrow> string option \<Rightarrow> (('p, 'w) st, bool) prog" where
  "update_thing_type env val =
     chain (gets (\<lambda>s. state (thing s))) (\<lambda>x.
     case x of
       KII_THING_IF_STATE_INITIALIZED \<Rightarrow>
         chain (set_err_code KII_THING_IF_ERROR_INVALID_STATE) (\<lambda>_. ret False)
     | KII_THING_IF_STATE_STARTED \<Rightarrow>
         chain (set_err_code KII_THING_IF_ERROR_INVALID_STATE) (\<lambda>_. ret False)
     | KII_THING_IF_STATE_ONBOARDED \<Rightarrow>
         chain (gets (\<lambda>s. app_id (kii_of CommandHandler s))) (\<lambda>appid.
         chain (gets (\<lambda>s. author_id (author (kii_of CommandHandler s)))) (\<lambda>a.
         chain (cstr a) (\<lambda>authorid.
         chain (prv_set_thing_type_resource_path env appid authorid 128) (\<lambda>succeeded.
         case succeeded of
           None \<Rightarrow> ret False
         | Some resource_path \<Rightarrow>
             chain (prv_kii_api_call_start env CommandHandler ''PUT'' resource_path
                 (Some CONTENT_UPDATE_THING_TYPE) True) (\<lambda>r.
             if r \<noteq> 0 then ret False
             else
               chain (or_chain
                 [api_append env CommandHandler ''{'',
                  prv_append_key_value_string env CommandHandler (Some ''thingType'') val False,
                  api_append env CommandHandler ''}'']) (\<lambda>failed.
               if failed then
                 chain (set_err_code KII_THING_IF_ERROR_INSUFFICIENT_BUFFER) (\<lambda>_. ret False)
               else prv_execute_http_session env CommandHandler)))))))"

section \<open>The shape they share\<close>

text \<open>The getters and the updates differ in the path, the member and the content type only.\<close>

definition get_member ::
  "('p, 'w) env \<Rightarrow> (string \<Rightarrow> string \<Rightarrow> nat \<Rightarrow> (('p, 'w) st, string option) prog) \<Rightarrow> string \<Rightarrow>
     char list option \<Rightarrow> nat \<Rightarrow> (('p, 'w) st, bool \<times> char list option) prog"
where
  "get_member env setter path out out_len =
     chain (gets (\<lambda>s. state (thing s))) (\<lambda>x.
     case x of
       KII_THING_IF_STATE_INITIALIZED \<Rightarrow>
         chain (set_err_code KII_THING_IF_ERROR_INVALID_STATE) (\<lambda>_. ret (False, out))
     | KII_THING_IF_STATE_STARTED \<Rightarrow>
         chain (set_err_code KII_THING_IF_ERROR_INVALID_STATE) (\<lambda>_. ret (False, out))
     | KII_THING_IF_STATE_ONBOARDED \<Rightarrow>
         chain (gets (\<lambda>s. app_id (kii_of CommandHandler s))) (\<lambda>appid.
         chain (gets (\<lambda>s. author_id (author (kii_of CommandHandler s)))) (\<lambda>a.
         chain (cstr a) (\<lambda>authorid.
         chain (setter appid authorid 128) (\<lambda>succeeded.
         case succeeded of
           None \<Rightarrow> ret (False, out)
         | Some resource_path \<Rightarrow>
             chain (prv_kii_api_call_start env CommandHandler ''GET'' resource_path None True) (\<lambda>r.
             if r \<noteq> 0 then ret (False, out)
             else
               chain (prv_execute_http_session env CommandHandler) (\<lambda>ok.
               if \<not> ok then ret (False, out)
               else
                 chain (deref out) (\<lambda>arr.
                 chain (memset0 arr out_len) (\<lambda>cleared.
                 chain (gets (\<lambda>s. response_body (kii_of CommandHandler s))) (\<lambda>b.
                 chain (deref b) (\<lambda>body.
                 case prv_kii_thing_if_json_read_object env body
                     [field_by_path env path KII_JSON_FIELD_TYPE_STRING
                        (Some (cleared, out_len))] of
                   (result, fs) \<Rightarrow>
                     chain (field_at fs 0) (\<lambda>f.
                     if result \<noteq> KII_JSON_PARSE_SUCCESS then
                       chain (set_err_code
                         (if jf_result f = KII_JSON_FIELD_PARSE_COPY_FAILED
                          then KII_THING_IF_ERROR_INSUFFICIENT_ARG_BUFFER
                          else KII_THING_IF_ERROR_INVALID_PAYLOAD)) (\<lambda>_.
                       ret (False, Some (copied f cleared)))
                     else ret (True, Some (copied f cleared))))))))))))))"

definition put_member ::
  "('p, 'w) env \<Rightarrow> (string \<Rightarrow> string \<Rightarrow> nat \<Rightarrow> (('p, 'w) st, string option) prog) \<Rightarrow> string \<Rightarrow>
     string \<Rightarrow> string option \<Rightarrow> (('p, 'w) st, bool) prog"
where
  "put_member env setter key ctype val =
     chain (gets (\<lambda>s. state (thing s))) (\<lambda>x.
     case x of
       KII_THING_IF_STATE_INITIALIZED \<Rightarrow>
         chain (set_err_code KII_THING_IF_ERROR_INVALID_STATE) (\<lambda>_. ret False)
     | KII_THING_IF_STATE_STARTED \<Rightarrow>
         chain (set_err_code KII_THING_IF_ERROR_INVALID_STATE) (\<lambda>_. ret False)
     | KII_THING_IF_STATE_ONBOARDED \<Rightarrow>
         chain (gets (\<lambda>s. app_id (kii_of CommandHandler s))) (\<lambda>appid.
         chain (gets (\<lambda>s. author_id (author (kii_of CommandHandler s)))) (\<lambda>a.
         chain (cstr a) (\<lambda>authorid.
         chain (setter appid authorid 128) (\<lambda>succeeded.
         case succeeded of
           None \<Rightarrow> ret False
         | Some resource_path \<Rightarrow>
             chain (prv_kii_api_call_start env CommandHandler ''PUT'' resource_path
                 (Some ctype) True) (\<lambda>r.
             if r \<noteq> 0 then ret False
             else
               chain (or_chain
                 [api_append env CommandHandler ''{'',
                  prv_append_key_value_string env CommandHandler (Some key) val False,
                  api_append env CommandHandler ''}'']) (\<lambda>failed.
               if failed then
                 chain (set_err_code KII_THING_IF_ERROR_INSUFFICIENT_BUFFER) (\<lambda>_. ret False)
               else prv_execute_http_session env CommandHandler)))))))"


lemma member_ops:
  "get_firmware_version env =
     get_member env (prv_set_firmware_version_resource_path env) ''/firmwareVersion''"
  "get_thing_type env = get_member env (prv_set_thing_type_resource_path env) ''/thingType''"
  "update_firmware_version env =
     put_member env (prv_set_firmware_version_resource_path env) ''firmwareVersion''
       CONTENT_UPDATE_FIRMWARE_VERSION"
  "update_thing_type env =
     put_member env (prv_set_thing_type_resource_path env) ''thingType'' CONTENT_UPDATE_THING_TYPE"
  by (intro ext, simp only: get_firmware_version_def get_thing_type_def get_member_def
      update_firmware_version_def update_thing_type_def put_member_def)+

lemma preserves_state_case [preserves_intros]:
  "(x = KII_THING_IF_STATE_INITIALIZED \<Longrightarrow> preserves I a) \<Longrightarrow>
   (x = KII_THING_IF_STATE_ONBOARDED \<Longrightarrow> preserves I b) \<Longrightarrow>
   (x = KII_THING_IF_STATE_STARTED \<Longrightarrow> preserves I c) \<Longrightarrow>
   preserves I (case x of KII_THING_IF_STATE_INITIALIZED \<Rightarrow> a | KII_THING_IF_STATE_ONBOARDED \<Rightarrow> b
     | KII_THING_IF_STATE_STARTED \<Rightarrow> c)"
  by (cases x) auto

lemma member_invs:
  assumes "api_invariant env CommandHandler I"
    and "\<And>app i n. preserves I (setter app i n)"
  shows "preserves I (get_member env setter path out out_len)"
    and "preserves I (put_member env setter key ctype val)"
  unfolding get_member_def put_member_def or_chain.simps
  by (intro api_invariant.session_intros [OF assms(1)] preserves_intros assms(2))+

section \<open>The contract\<close>

locale guarded_operation =
  fixes op :: "(('p, 'w) st, 'a) prog" and ok :: "'a \<Rightarrow> bool"
  assumes refuses:
      "state (thing s) \<noteq> KII_THING_IF_STATE_ONBOARDED \<Longrightarrow>
        \<exists>a. \<not> ok a \<and> op s =
          Inr (a, s\<lparr>err := map_option (code_update (\<lambda>_. KII_THING_IF_ERROR_INVALID_STATE)) (err s)\<rparr>)"
    and keeps_state: "preserves (\<lambda>s. state (thing s) = x) op"
    and keeps_updater: "preserves (\<lambda>s. kii_of StateUpdater s = k) op"
begin

lemma refused:
  assumes "op s = Inr (a, s')" and "state (thing s) \<noteq> KII_THING_IF_STATE_ONBOARDED"
  shows "\<not> ok a \<and> thing s' = thing s \<and> trace s' = trace s \<and> world s' = world s \<and>
    map_option code (err s') = map_option (\<lambda>_. KII_THING_IF_ERROR_INVALID_STATE) (err s)"
  using refuses [OF assms(2)] assms(1) by (auto simp: option.map_comp o_def)

lemma guarded:
  assumes "op s = Inr (a, s')"
  shows "state (thing s') = state (thing s) \<and> kii_of StateUpdater s' = kii_of StateUpdater s \<and>
    (ok a \<longrightarrow> state (thing s) = KII_THING_IF_STATE_ONBOARDED) \<and>
    (state (thing s) \<noteq> KII_THING_IF_STATE_ONBOARDED \<longrightarrow> trace s' = trace s \<and>
      map_option code (err s') = map_option (\<lambda>_. KII_THING_IF_ERROR_INVALID_STATE) (err s))"
  using preservesD [OF keeps_state assms refl] preservesD [OF keeps_updater assms refl]
    refused [OF assms] by blast

end

lemma member_refuses:
  assumes "state (thing s) \<noteq> KII_THING_IF_STATE_ONBOARDED"
  shows "get_member env setter path out out_len s = Inr ((False, out),
      s\<lparr>err := map_option (code_update (\<lambda>_. KII_THING_IF_ERROR_INVALID_STATE)) (err s)\<rparr>)"
    and "put_member env setter key ctype val s = Inr (False,
      s\<lparr>err := map_option (code_update (\<lambda>_. KII_THING_IF_ERROR_INVALID_STATE)) (err s)\<rparr>)"
  using assms
  by (cases "state (thing s)"; simp add: get_member_def put_member_def)+

lemma get_member_guarded:
  assumes "\<And>I app i n. preserves I (setter app i n)"
  shows "guarded_operation (get_member env setter path out out_len) fst"
proof (unfold_locales, goal_cases)
  case (1 s)
  then show ?case by (auto simp: member_refuses intro: exI [where x = False])
next
  case (2 x)
  show ?case by (rule member_invs [OF state_frame.api_invariant_axioms assms])
next
  case (3 k)
  show ?case by (rule member_invs [OF updater_frame.api_invariant_axioms assms])
qed

lemma put_member_guarded:
  assumes "\<And>I app i n. preserves I (setter app i n)"
  shows "guarded_operation (put_member env setter key ctype val) (\<lambda>ok. ok)"
proof (unfold_locales, goal_cases)
  case (1 s)
  then show ?case by (auto simp: member_refuses intro: exI [where x = False])
next
  case (2 x)
  show ?case by (rule member_invs [OF state_frame.api_invariant_axioms assms])
next
  case (3 k)
  show ?case by (rule member_invs [OF updater_frame.api_invariant_axioms assms])
qed

interpretation firmware_get: guarded_operation "get_firmware_version env out out_len" fst
  for env :: "('p, 'w) env" and out out_len
  unfolding member_ops by (rule get_member_guarded, rule preserves_setters)

interpretation firmware_put: guarded_operation "update_firmware_version env val" "\<lambda>ok. ok"
  for env :: "('p, 'w) env" and val
  unfolding member_ops by (rule put_member_guarded, rule preserves_setters)

interpretation thing_type_get: guarded_operation "get_thing_type env out out_len" fst
  for env :: "('p, 'w) env" and out out_len
  unfolding member_ops by (rule get_member_guarded, rule preserves_setters)

interpretation thing_type_put: guarded_operation "update_thing_type env val" "\<lambda>ok. ok"
  for env :: "('p, 'w) env" and val
  unfolding member_ops by (rule put_member_guarded, rule preserves_setters)

section \<open>Requests that go through\<close>

definition get_request :: "string \<Rightarrow> request" where
  "get_request path =
     \<lparr>rq_method = ''GET'', rq_path = path, rq_content_type = None, rq_auth = True, rq_body = []\<rparr>"

definition put_request :: "string \<Rightarrow> string \<Rightarrow> string \<Rightarrow> string \<Rightarrow> request" where
  "put_request path ctype key v =
     \<lparr>rq_method = ''PUT'', rq_path = path, rq_content_type = Some ctype, rq_auth = True,
      rq_body = ''{'' @ kv_text key v True @ ''}''\<rparr>"

lemma get_member_runs:
  assumes frame: "kii_api_frame env" and setter: "path_setter env setter text_of"
    and ok: "get_member env setter path out n s = Inr ((True, out'), s')"
  shows "\<exists>arr new body fs. out = Some arr \<and> n \<le> length arr \<and>
     NUL \<in> set (author_id (author (kii_of CommandHandler s))) \<and>
     trace s' = trace s @ new \<and>
     runs CommandHandler new [get_request (text_of (app_id (kii_of CommandHandler s))
        (c_str (author_id (author (kii_of CommandHandler s)))))] \<and>
     response_body (kii_of CommandHandler s') = Some body \<and>
     kii_json_read_object env body [field_by_path env path KII_JSON_FIELD_TYPE_STRING
        (Some (replicate n NUL @ drop n arr, n))] = (KII_JSON_PARSE_SUCCESS, fs) \<and>
     fs \<noteq> [] \<and> out' = Some (copied (fs ! 0) (replicate n NUL @ drop n arr)) \<and> err s' = err s"
proof -
  have st: "state (thing s) = KII_THING_IF_STATE_ONBOARDED"
    using ok member_refuses(1) [of s env setter path out n] by fastforce
  obtain q s1 s2 arr body fs
    where nul: "NUL \<in> set (author_id (author (kii_of CommandHandler s)))"
      and q: "setter (app_id (kii_of CommandHandler s))
        (c_str (author_id (author (kii_of CommandHandler s)))) 128 s = Inr (Some q, s)"
      and start: "api_start env CommandHandler ''GET'' q None True s = Inr (0, s1)"
      and run: "prv_execute_http_session env CommandHandler s1 = Inr (True, s2)"
      and arr: "out = Some arr" "n \<le> length arr"
      and body: "response_body (kii_of CommandHandler s2) = Some body"
      and read: "kii_json_read_object env body [field_by_path env path KII_JSON_FIELD_TYPE_STRING
        (Some (replicate n NUL @ drop n arr, n))] = (KII_JSON_PARSE_SUCCESS, fs)"
      and fin: "fs \<noteq> []" "out' = Some (copied (fs ! 0) (replicate n NUL @ drop n arr))" "s' = s2"
    using ok unfolding get_member_def
    by (auto simp: st chain_eq_Inr run_iffs field_at_eq_Inr prv_kii_api_call_start_ok
        path_setter.setter_Some [OF setter] path_setter.setter_None [OF setter]
        prv_kii_thing_if_json_read_object_def case_prod_beta split: option.splits if_splits)
      (metis prod.collapse)
  have app: "append_chunks env CommandHandler [] s1 = Inr (0, s1)"
    by simp
  have "trace s' = trace s @ call_events CommandHandler ''GET'' q None True []"
    using request_ok(1) [OF frame start app run] fin by simp
  moreover have "runs CommandHandler (call_events CommandHandler ''GET'' q None True [])
      [get_request (text_of (app_id (kii_of CommandHandler s))
        (c_str (author_id (author (kii_of CommandHandler s)))))]"
    using q by (simp add: runs_def get_request_def path_setter.setter_Some [OF setter])
  moreover have "err s' = err s"
    using call_kii_err [OF start [unfolded api_start_def]] session_success [OF run] fin by auto
  ultimately show ?thesis using nul arr body read fin by blast
qed

lemma put_member_runs:
  assumes frame: "kii_api_frame env" and setter: "path_setter env setter text_of"
    and ok: "put_member env setter key ctype val s = Inr (True, s')"
  shows "\<exists>v new. val = Some v \<and> trace s' = trace s @ new \<and>
     runs CommandHandler new [put_request (text_of (app_id (kii_of CommandHandler s))
        (c_str (author_id (author (kii_of CommandHandler s))))) ctype key v] \<and>
     err s' = err s"
proof -
  have st: "state (thing s) = KII_THING_IF_STATE_ONBOARDED"
    using ok member_refuses(2) [of s env setter key ctype val] by fastforce
  obtain q s1 s2
    where q: "setter (app_id (kii_of CommandHandler s))
        (c_str (author_id (author (kii_of CommandHandler s)))) 128 s = Inr (Some q, s)"
      and start: "api_start env CommandHandler ''PUT'' q (Some ctype) True s = Inr (0, s1)"
      and body: "or_chain
        [api_append env CommandHandler ''{'',
         prv_append_key_value_string env CommandHandler (Some key) val False,
         api_append env CommandHandler ''}''] s1 = Inr (False, s2)"
      and run: "prv_execute_http_session env CommandHandler s2 = Inr (True, s')"
    using ok unfolding put_member_def
    by (auto simp: st chain_eq_Inr run_iffs prv_kii_api_call_start_ok
        path_setter.setter_Some [OF setter] path_setter.setter_None [OF setter]
        simp del: or_chain.simps split: option.splits if_splits)
  obtain v where v: "val = Some v"
    using body by (auto simp only: or_chain_ok append_string_ok)
  have app: "append_chunks env CommandHandler (''{'' # kv_chunks key v False True @ [''}'']) s1
      = Inr (0, s2)"
    using body unfolding v body_chunks or_chain_norm by (auto simp: chain_eq_Inr)
  have "trace s' = trace s @ call_events CommandHandler ''PUT'' q (Some ctype) True
      (''{'' # kv_chunks key v False True @ [''}''])"
    by (rule request_ok(1) [OF frame start app run])
  moreover have "runs CommandHandler (call_events CommandHandler ''PUT'' q (Some ctype) True
      (''{'' # kv_chunks key v False True @ [''}'']))
      [put_request (text_of (app_id (kii_of CommandHandler s))
        (c_str (author_id (author (kii_of CommandHandler s))))) ctype key v]"
    using q by (simp add: runs_def put_request_def path_setter.setter_Some [OF setter]
        concat_kv_chunks)
  moreover have "err s' = err s"
    using call_kii_err [OF start [unfolded api_start_def]] session_success [OF run]
      append_chunks_err [OF app] by auto
  ultimately show ?thesis using v by blast
qed

lemma get_member_ok:
  assumes "kii_api_frame env" and "path_setter env setter text_of"
    and "get_member env setter path out n s = Inr ((True, out'), s')"
  shows "\<exists>arr new body fs. out = Some arr \<and> n \<le> length arr \<and>
     NUL \<in> set (author_id (author (kii_of CommandHandler s))) \<and>
     trace s' = trace s @ new \<and>
     requests CommandHandler new = [get_request (text_of (app_id (kii_of CommandHandler s))
        (c_str (author_id (author (kii_of CommandHandler s)))))] \<and>
     response_body (kii_of CommandHandler s') = Some body \<and>
     kii_json_read_object env body [field_by_path env path KII_JSON_FIELD_TYPE_STRING
        (Some (replicate n NUL @ drop n arr, n))] = (KII_JSON_PARSE_SUCCESS, fs) \<and>
     fs \<noteq> [] \<and> out' = Some (copied (fs ! 0) (replicate n NUL @ drop n arr)) \<and> err s' = err s"
  using get_member_runs [OF assms] by (blast dest: runs_requests)

lemma put_member_ok:
  assumes "kii_api_frame env" and "path_setter env setter text_of"
    and "put_member env setter key ctype val s = Inr (True, s')"
  shows "\<exists>v new. val = Some v \<and> trace s' = trace s @ new \<and>
     requests CommandHandler new = [put_request (text_of (app_id (kii_of CommandHandler s))
        (c_str (author_id (author (kii_of CommandHandler s))))) ctype key v] \<and>
     err s' = err s"
  using put_member_runs [OF assms] by (blast dest: runs_requests)

text \<open>What a getter makes of a response that arrived.\<close>

lemma get_member_response:
  assumes setter: "path_setter env setter text_of"
    and st: "state (thing s) = KII_THING_IF_STATE_ONBOARDED"
    and nul: "NUL \<in> set (author_id (author (kii_of CommandHandler s)))"
    and q: "q = text_of (app_id (kii_of CommandHandler s))
      (c_str (author_id (author (kii_of CommandHandler s))))" "length q < 128"
    and start: "api_start env CommandHandler ''GET'' q None True s = Inr (0, s1)"
    and run: "prv_execute_http_session env CommandHandler s1 = Inr (True, s2)"
    and body: "response_body (kii_of CommandHandler s2) = Some body"
    and arr: "n \<le> length arr"
    and read: "kii_json_read_object env body [field_by_path env path KII_JSON_FIELD_TYPE_STRING
      (Some (replicate n NUL @ drop n arr, n))] = (result, f # fs)"
  shows "get_member env setter path (Some arr) n s =
    Inr ((result = KII_JSON_PARSE_SUCCESS, Some (copied f (replicate n NUL @ drop n arr))),
      if result = KII_JSON_PARSE_SUCCESS then s2
      else s2\<lparr>err := map_option (code_update (\<lambda>_.
        if jf_result f = KII_JSON_FIELD_PARSE_COPY_FAILED
        then KII_THING_IF_ERROR_INSUFFICIENT_ARG_BUFFER
        else KII_THING_IF_ERROR_INVALID_PAYLOAD)) (err s2)\<rparr>)"
proof -
  have set_path: "setter (app_id (kii_of CommandHandler s))
      (c_str (author_id (author (kii_of CommandHandler s)))) 128 = ret (Some q)"
    using path_setter.fits [OF setter] q by simp
  have start': "prv_kii_api_call_start env CommandHandler ''GET'' q None True s = Inr (0, s1)"
    using start by (simp add: prv_kii_api_call_start_ok)
  show ?thesis
    using run body arr read
    by (simp add: get_member_def st nul cstr_def set_path start' memset0_def field_at_def
        prv_kii_thing_if_json_read_object_def)
qed

section \<open>Properties\<close>

text \<open>
  C19. \<open>get_firmware_version\<close> returns \<open>KII_TRUE\<close> only after exactly one authorised GET of the
  thing's firmware path and a read of the member \<open>/firmwareVersion\<close> that succeeded; the array it
  hands back is what the reader copied over the cleared array, and the error object is
  untouched.
\<close>

theorem get_firmware_version_success:
  assumes "kii_api_frame env" and "get_firmware_version env out n s = Inr ((True, out'), s')"
  shows "\<exists>arr new body fs. out = Some arr \<and> n \<le> length arr \<and>
     NUL \<in> set (author_id (author (kii_of CommandHandler s))) \<and>
     trace s' = trace s @ new \<and>
     requests CommandHandler new = [get_request (firmware_path (app_id (kii_of CommandHandler s))
        (c_str (author_id (author (kii_of CommandHandler s)))))] \<and>
     response_body (kii_of CommandHandler s') = Some body \<and>
     kii_json_read_object env body [field_by_path env ''/firmwareVersion''
        KII_JSON_FIELD_TYPE_STRING (Some (replicate n NUL @ drop n arr, n))] =
        (KII_JSON_PARSE_SUCCESS, fs) \<and>
     fs \<noteq> [] \<and> out' = Some (copied (fs ! 0) (replicate n NUL @ drop n arr)) \<and> err s' = err s"
  by (rule get_member_ok [OF assms(1) firmware_setter.path_setter_axioms
        assms(2) [unfolded member_ops]])

definition sample_get_firmware :: "fault + (bool \<times> char list option) \<times> (nat, sample_world) st" where
  "sample_get_firmware = get_firmware_version sample_env (Some ''................'') 16
     (sample_st KII_THING_IF_STATE_ONBOARDED
        [(200, ''{'' @ member_text ''firmwareVersion'' ''1.2'' @ ''}'')])"

theorem get_firmware_version_success_witness:
  "\<exists>s'. sample_get_firmware = Inr ((True, Some (''1.2'' @ replicate 13 NUL)), s') \<and>
     err s' = Some sample_error"
proof -
  have "returns (True, Some (''1.2'' @ replicate 13 NUL)) sample_get_firmware" by code_simp
  then obtain s' where s': "sample_get_firmware = Inr ((True, Some (''1.2'' @ replicate 13 NUL)), s')"
    by (rule returnsE)
  have "err s' = Some sample_error"
    using get_firmware_version_success [OF sample_frame s' [unfolded sample_get_firmware_def]]
    by (auto simp: sample_st_def)
  with s' show ?thesis by blast
qed

text \<open>
  What \<open>get_firmware_version\<close> makes of a response that arrived: \<open>KII_TRUE\<close> exactly when the
  member was read; otherwise \<open>ERROR_INSUFFICIENT_ARG_BUFFER\<close> when the caller's array was too
  short for it and \<open>ERROR_INVALID_PAYLOAD\<close> when it was not there.
\<close>

theorem get_firmware_version_response:
  assumes "state (thing s) = KII_THING_IF_STATE_ONBOARDED"
    and "NUL \<in> set (author_id (author (kii_of CommandHandler s)))"
    and "q = firmware_path (app_id (kii_of CommandHandler s))
      (c_str (author_id (author (kii_of CommandHandler s))))" and "length q < 128"
    and "api_start env CommandHandler ''GET'' q None True s = Inr (0, s1)"
    and "prv_execute_http_session env CommandHandler s1 = Inr (True, s2)"
    and "response_body (kii_of CommandHandler s2) = Some body" and "n \<le> length arr"
    and "kii_json_read_object env body [field_by_path env ''/firmwareVersion''
      KII_JSON_FIELD_TYPE_STRING (Some (replicate n NUL @ drop n arr, n))] = (result, f # fs)"
  shows "get_firmware_version env (Some arr) n s =
    Inr ((result = KII_JSON_PARSE_SUCCESS, Some (copied f (replicate n NUL @ drop n arr))),
      if result = KII_JSON_PARSE_SUCCESS then s2
      else s2\<lparr>err := map_option (code_update (\<lambda>_.
        if jf_result f = KII_JSON_FIELD_PARSE_COPY_FAILED
        then KII_THING_IF_ERROR_INSUFFICIENT_ARG_BUFFER
        else KII_THING_IF_ERROR_INVALID_PAYLOAD)) (err s2)\<rparr>)"
  unfolding member_ops
  by (rule get_member_response [OF firmware_setter.path_setter_axioms assms])

definition sample_get_state :: "(nat, sample_world) st" where
  "sample_get_state = sample_st KII_THING_IF_STATE_ONBOARDED [(200, ''{'' @ member_text ''a'' ''b'' @ ''}'')]"

definition sample_get_started :: "fault + int \<times> (nat, sample_world) st" where
  "sample_get_started = api_start sample_env CommandHandler ''GET'' (firmware_path ''app1'' ''thing1'')
     None True sample_get_state"

definition sample_get_ran :: "fault + bool \<times> (nat, sample_world) st" where
  "sample_get_ran =
     prv_execute_http_session sample_env CommandHandler (end_state sample_get_started)"

definition sample_get_field :: kii_json_field_t where
  "sample_get_field = hd (snd (sample_read (''{'' @ member_text ''a'' ''b'' @ ''}'')
     [field_by_path sample_env ''/firmwareVersion'' KII_JSON_FIELD_TYPE_STRING
       (Some ([NUL, NUL, CHR ''x''], 2))]))"

theorem get_firmware_version_response_witness:
  "\<exists>out s'. get_firmware_version sample_env (Some ''xxx'') 2 sample_get_state = Inr ((False, out), s') \<and>
     map_option code (err s') = map_option (\<lambda>_. KII_THING_IF_ERROR_INVALID_PAYLOAD)
       (err (end_state sample_get_ran))"
proof -
  have st: "state (thing sample_get_state) = KII_THING_IF_STATE_ONBOARDED"
    by code_simp
  have nul: "NUL \<in> set (author_id (author (kii_of CommandHandler sample_get_state)))"
    by code_simp
  have q: "firmware_path ''app1'' ''thing1'' =
    firmware_path (app_id (kii_of CommandHandler sample_get_state))
      (c_str (author_id (author (kii_of CommandHandler sample_get_state))))"
    by code_simp
  have len: "length (firmware_path ''app1'' ''thing1'') < 128"
    by code_simp
  have start: "api_start sample_env CommandHandler ''GET'' (firmware_path ''app1'' ''thing1'') None True
      sample_get_state = Inr (0, end_state sample_get_started)"
    unfolding sample_get_started_def [symmetric] by (rule returns_end_state) code_simp
  have run: "prv_execute_http_session sample_env CommandHandler (end_state sample_get_started) =
      Inr (True, end_state sample_get_ran)"
    unfolding sample_get_ran_def [symmetric] by (rule returns_end_state) code_simp
  have body: "response_body (kii_of CommandHandler (end_state sample_get_ran)) =
      Some (''{'' @ member_text ''a'' ''b'' @ ''}'')"
    by code_simp
  have read: "kii_json_read_object sample_env (''{'' @ member_text ''a'' ''b'' @ ''}'')
      [field_by_path sample_env ''/firmwareVersion'' KII_JSON_FIELD_TYPE_STRING
        (Some (replicate 2 NUL @ drop 2 ''xxx'', 2))] =
      (KII_JSON_PARSE_PARTIAL_SUCCESS, sample_get_field # [])"
    by code_simp
  have "jf_result sample_get_field = KII_JSON_FIELD_PARSE_unlisted"
    by code_simp
  then show ?thesis
    using get_firmware_version_response [OF st nul q len start run body _ read]
    by (auto simp: option.map_comp o_def)
qed

text \<open>
  \<open>update_firmware_version\<close> returns \<open>KII_TRUE\<close> only when a version was given and exactly one
  request was run: the authorised PUT of the body \<open>{"firmwareVersion":"..."}\<close> to the thing's
  firmware path; the error object is untouched.
\<close>

theorem update_firmware_version_success:
  assumes "kii_api_frame env" and "update_firmware_version env val s = Inr (True, s')"
  shows "\<exists>v new. val = Some v \<and> trace s' = trace s @ new \<and>
     requests CommandHandler new = [put_request (firmware_path (app_id (kii_of CommandHandler s))
        (c_str (author_id (author (kii_of CommandHandler s)))))
        CONTENT_UPDATE_FIRMWARE_VERSION ''firmwareVersion'' v] \<and>
     err s' = err s"
  by (rule put_member_ok [OF assms(1) firmware_setter.path_setter_axioms
        assms(2) [unfolded member_ops]])

definition sample_put_firmware :: "fault + bool \<times> (nat, sample_world) st" where
  "sample_put_firmware = update_firmware_version sample_env (Some ''1.3'')
     (sample_st KII_THING_IF_STATE_ONBOARDED [(204, [])])"

theorem update_firmware_version_success_witness:
  "\<exists>s'. sample_put_firmware = Inr (True, s') \<and> length (requests CommandHandler (trace s')) = 1"
proof -
  have "returns True sample_put_firmware" by code_simp
  then obtain s' where s': "sample_put_firmware = Inr (True, s')" by (rule returnsE)
  have "trace (sample_st KII_THING_IF_STATE_ONBOARDED [(204, [])]) = []"
    by (simp add: sample_st_def)
  with update_firmware_version_success [OF sample_frame s' [unfolded sample_put_firmware_def]] s'
  show ?thesis by auto
qed

text \<open>
  \<open>get_thing_type\<close> returns \<open>KII_TRUE\<close> only after exactly one authorised GET of the thing's
  type path and a read of \<open>/thingType\<close> that succeeded.
\<close>

theorem get_thing_type_success:
  assumes "kii_api_frame env" and "get_thing_type env out n s = Inr ((True, out'), s')"
  shows "\<exists>arr new body fs. out = Some arr \<and> n \<le> length arr \<and>
     NUL \<in> set (author_id (author (kii_of CommandHandler s))) \<and>
     trace s' = trace s @ new \<and>
     requests CommandHandler new = [get_request (thing_type_path (app_id (kii_of CommandHandler s))
        (c_str (author_id (author (kii_of CommandHandler s)))))] \<and>
     response_body (kii_of CommandHandler s') = Some body \<and>
     kii_json_read_object env body [field_by_path env ''/thingType''
        KII_JSON_FIELD_TYPE_STRING (Some (replicate n NUL @ drop n arr, n))] =
        (KII_JSON_PARSE_SUCCESS, fs) \<and>
     fs \<noteq> [] \<and> out' = Some (copied (fs ! 0) (replicate n NUL @ drop n arr)) \<and> err s' = err s"
  by (rule get_member_ok [OF assms(1) thing_type_setter.path_setter_axioms
        assms(2) [unfolded member_ops]])

definition sample_get_type :: "fault + (bool \<times> char list option) \<times> (nat, sample_world) st" where
  "sample_get_type = get_thing_type sample_env (Some ''........'') 8
     (sample_st KII_THING_IF_STATE_ONBOARDED
        [(200, ''{'' @ member_text ''thingType'' ''lamp'' @ ''}'')])"

theorem get_thing_type_success_witness:
  "\<exists>s'. sample_get_type = Inr ((True, Some (''lamp'' @ replicate 4 NUL)), s') \<and>
     err s' = Some sample_error"
proof -
  have "returns (True, Some (''lamp'' @ replicate 4 NUL)) sample_get_type" by code_simp
  then obtain s' where s': "sample_get_type = Inr ((True, Some (''lamp'' @ replicate 4 NUL)), s')"
    by (rule returnsE)
  have "err s' = Some sample_error"
    using get_thing_type_success [OF sample_frame s' [unfolded sample_get_type_def]]
    by (auto simp: sample_st_def)
  with s' show ?thesis by blast
qed

text \<open>
  \<open>update_thing_type\<close> returns \<open>KII_TRUE\<close> only when a type was given and exactly one request
  was run: the authorised PUT of \<open>{"thingType":"..."}\<close> to the thing's type path.
\<close>

theorem update_thing_type_success:
  assumes "kii_api_frame env" and "update_thing_type env val s = Inr (True, s')"
  shows "\<exists>v new. val = Some v \<and> trace s' = trace s @ new \<and>
     requests CommandHandler new = [put_request (thing_type_path (app_id (kii_of CommandHandler s))
        (c_str (author_id (author (kii_of CommandHandler s)))))
        CONTENT_UPDATE_THING_TYPE ''thingType'' v] \<and>
     err s' = err s"
  by (rule put_member_ok [OF assms(1) thing_type_setter.path_setter_axioms
        assms(2) [unfolded member_ops]])

definition sample_put_type :: "fault + bool \<times> (nat, sample_world) st" where
  "sample_put_type = update_thing_type sample_env (Some ''lamp'')
     (sample_st KII_THING_IF_STATE_ONBOARDED [(204, [])])"

theorem update_thing_type_success_witness:
  "\<exists>s'. sample_put_type = Inr (True, s') \<and> length (requests CommandHandler (trace s')) = 1"
proof -
  have "returns True sample_put_type" by code_simp
  then obtain s' where s': "sample_put_type = Inr (True, s')" by (rule returnsE)
  have "trace (sample_st KII_THING_IF_STATE_ONBOARDED [(204, [])]) = []"
    by (simp add: sample_st_def)
  with update_thing_type_success [OF sample_frame s' [unfolded sample_put_type_def]] s'
  show ?thesis by auto
qed

text \<open>
  C22. The four operations on an onboarded thing only: in another state they fail without a
  call, with \<open>ERROR_INVALID_STATE\<close>; in every state and whatever the library does they keep the
  life cycle state and the state updater's \<open>kii_t\<close>.
\<close>

theorem thing_info_guarded:
  assumes "get_firmware_version env out n s = Inr ((ok, out'), s') \<or>
     get_thing_type env out n s = Inr ((ok, out'), s') \<or>
     update_firmware_version env val s = Inr (ok, s') \<or>
     update_thing_type env val s = Inr (ok, s')"
  shows "state (thing s') = state (thing s) \<and> kii_of StateUpdater s' = kii_of StateUpdater s \<and>
    (ok \<longrightarrow> state (thing s) = KII_THING_IF_STATE_ONBOARDED) \<and>
    (state (thing s) \<noteq> KII_THING_IF_STATE_ONBOARDED \<longrightarrow> trace s' = trace s \<and>
      map_option code (err s') = map_option (\<lambda>_. KII_THING_IF_ERROR_INVALID_STATE) (err s))"
  using assms firmware_get.guarded [of env out n s "(ok, out')" s']
    thing_type_get.guarded [of env out n s "(ok, out')" s']
    firmware_put.guarded [of env val s ok s'] thing_type_put.guarded [of env val s ok s']
  by auto

theorem thing_info_guarded_witness:
  "\<exists>s'. update_thing_type sample_env (Some ''lamp'')
       (sample_st KII_THING_IF_STATE_INITIALIZED []) = Inr (False, s') \<and> trace s' = []"
proof -
  have "returns False (update_thing_type sample_env (Some ''lamp'')
       (sample_st KII_THING_IF_STATE_INITIALIZED []))" by code_simp
  then obtain s' where s': "update_thing_type sample_env (Some ''lamp'')
       (sample_st KII_THING_IF_STATE_INITIALIZED []) = Inr (False, s')" by (rule returnsE)
  have "trace s' = []"
    using thing_info_guarded [OF disjI2 [OF disjI2 [OF disjI2 [OF s']]]]
    by (simp add: sample_st_def sample_thing_def)
  with s' show ?thesis by blast
qed

end
