(* ===== verification/State_Update.thy ===== *)
theory State_Update
  imports Http_Session Resource_Path Sample_Env
begin

text \<open>
  Sending the thing's state (kii_thing_if.c: \<open>prv_writer\<close>, \<open>prv_send_state\<close>,
  \<open>prv_update_status\<close>): once after a command, on the command handler's \<open>kii_t\<close>, and
  periodically from the status task, on the state updater's.

  The task is an endless loop. \<open>update_status_round\<close> is its body and \<open>prv_update_status\<close> with
  \<open>n\<close> the run up to the end of its \<open>n\<close>-th round: a claim about the task is one for every \<open>n\<close>.
\<close>

definition CONTENT_UPDATE_STATE :: string where
  "CONTENT_UPDATE_STATE = ''application/vnd.kii.MultipleTraitState+json''"

section \<open>The code\<close>

text \<open>\<open>(kii_thing_if_t*)kii->app_context\<close>, dereferenced.\<close>

definition context_thing :: "kii_ptr \<Rightarrow> (('p, 'w) st, 'p kii_thing_if_t) prog" where
  "context_thing kii =
     chain (gets (\<lambda>s. app_context (kii_of kii s))) (\<lambda>c.
     case c of NullContext \<Rightarrow> fail NullDeref | ThingIfContext \<Rightarrow> gets thing)"

text \<open>Multiplication of two \<open>int\<close> of 32 bits.\<close>

definition c_int_mul :: "int \<Rightarrow> int \<Rightarrow> ('s, int) prog" where
  "c_int_mul a b =
     (if - (2 ^ 31) \<le> a * b \<and> a * b < 2 ^ 31 then ret (a * b) else fail IntOverflow)"

definition prv_writer :: "('p, 'w) env \<Rightarrow> kii_ptr \<Rightarrow> string \<Rightarrow> (('p, 'w) st, bool) prog" where
  "prv_writer env kii buff =
     chain (api_append env kii buff) (\<lambda>r. if r \<noteq> 0 then ret False else ret True)"

definition prv_send_state :: "('p, 'w) env \<Rightarrow> kii_ptr \<Rightarrow> (('p, 'w) st, bool) prog" where
  "prv_send_state env kii =
     chain (gets (\<lambda>s. app_id (kii_of kii s))) (\<lambda>appid.
     chain (gets (\<lambda>s. author_id (author (kii_of kii s)))) (\<lambda>a.
     chain (cstr a) (\<lambda>authorid.
     chain (prv_set_state_resource_path env appid authorid 256) (\<lambda>succeeded.
     case succeeded of
       None \<Rightarrow> ret False
     | Some resource_path \<Rightarrow>
         chain (api_start env kii ''PUT'' resource_path (Some CONTENT_UPDATE_STATE) True) (\<lambda>r.
         if r \<noteq> 0 then ret False
         else
           chain (context_thing kii) (\<lambda>t.
           chain (deref (state_handler_for_command_reaction t)) (\<lambda>handler.
           chain (call_state_handler env handler kii (prv_writer env)) (\<lambda>ok.
           if \<not> ok then ret False
           else
             chain (api_run env kii) (\<lambda>r.
             if r \<noteq> 0 then ret False else ret True)))))))))"

definition update_status_round ::
  "('p, 'w) env \<Rightarrow> kii_ptr \<Rightarrow> string \<Rightarrow> (('p, 'w) st, unit) prog" where
  "update_status_round env kii resource_path =
     chain (gets (\<lambda>s. delay_ms_cb (kii_of kii s))) (\<lambda>d.
     chain (deref d) (\<lambda>delay.
     chain (context_thing kii) (\<lambda>t.
     chain (c_int_mul (state_update_period t) 1000) (\<lambda>ms.
     chain (log_event (DelayMs (word_of_int ms)) (call_delay_ms env delay (word_of_int ms))) (\<lambda>_.
     chain (api_start env kii ''PUT'' resource_path (Some CONTENT_UPDATE_STATE) True) (\<lambda>r.
     if r \<noteq> 0 then ret ()
     else
       chain (context_thing kii) (\<lambda>t.
       chain (deref (state_handler_for_period t)) (\<lambda>handler.
       chain (call_state_handler env handler kii (prv_writer env)) (\<lambda>ok.
       if \<not> ok then ret ()
       else chain (api_run env kii) (\<lambda>_. ret ())))))))))) "

primrec update_status_rounds ::
  "('p, 'w) env \<Rightarrow> kii_ptr \<Rightarrow> string \<Rightarrow> nat \<Rightarrow> (('p, 'w) st, unit) prog" where
  "update_status_rounds env kii resource_path 0 = ret ()"
| "update_status_rounds env kii resource_path (Suc n) =
     chain (update_status_round env kii resource_path) (\<lambda>_.
     update_status_rounds env kii resource_path n)"

text \<open>\<open>False\<close>: the task returned. \<open>True\<close>: it is in its loop, at the end of round \<open>n\<close>.\<close>

definition prv_update_status :: "('p, 'w) env \<Rightarrow> kii_ptr \<Rightarrow> nat \<Rightarrow> (('p, 'w) st, bool) prog" where
  "prv_update_status env kii n =
     chain (gets (\<lambda>s. app_id (kii_of kii s))) (\<lambda>appid.
     chain (gets (\<lambda>s. author_id (author (kii_of kii s)))) (\<lambda>a.
     chain (cstr a) (\<lambda>authorid.
     chain (prv_set_state_resource_path env appid authorid 256) (\<lambda>succeeded.
     case succeeded of
       None \<Rightarrow> ret False
     | Some resource_path \<Rightarrow>
         chain (update_status_rounds env kii resource_path n) (\<lambda>_. ret True)))))"

section \<open>State handlers\<close>

text \<open>
  What the header asks of a state handler: it reads the application's own state and hands text
  to the writer it is given. So it keeps whatever its writer keeps, as far as the application's
  state (part of \<open>world\<close>) is not concerned.
\<close>

definition writes_only :: "('p, 'w) env \<Rightarrow> fn_ptr \<Rightarrow> kii_ptr \<Rightarrow> bool" where
  "writes_only env h p \<longleftrightarrow>
     (\<forall>I. (\<forall>s w. I s \<longrightarrow> I (s\<lparr>world := w\<rparr>)) \<longrightarrow> (\<forall>b. preserves I (prv_writer env p b)) \<longrightarrow>
        preserves I (call_state_handler env h p (prv_writer env)))"

lemma writes_onlyD:
  "writes_only env h p \<Longrightarrow> (\<And>s w. I s \<Longrightarrow> I (s\<lparr>world := w\<rparr>)) \<Longrightarrow>
    (\<And>b. preserves I (prv_writer env p b)) \<Longrightarrow>
    preserves I (call_state_handler env h p (prv_writer env))"
  by (simp add: writes_only_def)

text \<open>A handler that returns, whatever the state.\<close>

definition handler_returns :: "('p, 'w) env \<Rightarrow> fn_ptr \<Rightarrow> kii_ptr \<Rightarrow> bool" where
  "handler_returns env h p \<longleftrightarrow>
     (\<forall>s. \<exists>ok s'. call_state_handler env h p (prv_writer env) s = Inr (ok, s'))"

text \<open>The handler that writes a fixed list of pieces and stops when one is refused.\<close>

primrec write_all ::
  "(kii_ptr \<Rightarrow> string \<Rightarrow> ('s, bool) prog) \<Rightarrow> kii_ptr \<Rightarrow> string list \<Rightarrow> ('s, bool) prog" where
  "write_all wr p [] = ret True"
| "write_all wr p (c # cs) = chain (wr p c) (\<lambda>ok. if ok then write_all wr p cs else ret False)"

lemma write_all_chunks:
  "write_all (prv_writer env) p cs =
     chain (append_chunks env p cs) (\<lambda>r. if r \<noteq> 0 then ret False else ret True)"
  by (induction cs) (simp_all add: prv_writer_def chain_if cong: if_cong del: ret_apply)

context append_invariant
begin

lemma prv_writer_inv: "preserves I (prv_writer env p b)"
  unfolding prv_writer_def by (intro append_intros)

lemma handler_inv:
  assumes "writes_only env h p" and "\<And>s w. I s \<Longrightarrow> I (s\<lparr>world := w\<rparr>)"
  shows "preserves I (call_state_handler env h p (prv_writer env))"
  using writes_onlyD [OF assms(1), where I = I] assms(2) prv_writer_inv by blast

end

text \<open>The calls of a state handler are appends on its \<open>kii_t\<close>.\<close>

definition appends_only :: "kii_ptr \<Rightarrow> event list \<Rightarrow> bool" where
  "appends_only p es = list_all (\<lambda>e. case e of ApiAppend q _ _ \<Rightarrow> q = p | _ \<Rightarrow> False) es"

definition appended :: "event list \<Rightarrow> string" where
  "appended es = concat (map (\<lambda>e. case e of ApiAppend _ b r \<Rightarrow> if r = 0 then b else [] | _ \<Rightarrow> []) es)"

lemma replay_appends_only:
  "appends_only p es \<Longrightarrow> replay p es (Some rq, d) =
     (Some (rq_body_update (\<lambda>x. x @ appended es) rq), d)"
proof (induction es arbitrary: rq)
  case Nil
  then show ?case by (simp add: appended_def)
next
  case (Cons e es)
  then show ?case
    by (cases e) (auto simp: appends_only_def appended_def comp_def)
qed

interpretation append_trace: append_invariant env p "\<lambda>s. \<exists>es. trace s = x @ es \<and> appends_only p es"
  for env :: "('p, 'w) env" and p x
  by unfold_locales
    (auto intro!: preservesI simp: api_append_def appends_only_def dest!: call_kii_trace)

lemma handler_calls:
  assumes "writes_only env h p"
    and "call_state_handler env h p (prv_writer env) s = Inr (ok, s')"
  shows "\<exists>es. trace s' = trace s @ es \<and> appends_only p es"
  using preservesD [OF append_trace.handler_inv [OF assms(1)] assms(2), of "trace s"]
  by (simp add: appends_only_def)

lemma handler_keeps:
  assumes "kii_api_frame env" and "writes_only env h p"
    and "call_state_handler env h p (prv_writer env) s = Inr (ok, s')"
  shows "same_identity (kii_of p s) (kii_of p s')" and "state (thing s') = state (thing s)"
proof -
  show "same_identity (kii_of p s) (kii_of p s')"
    by (rule preservesD [OF append_invariant.handler_inv [OF identity_append [OF assms(1)] assms(2)]
          assms(3)]) simp_all
  show "state (thing s') = state (thing s)"
    by (rule preservesD [OF state_frame.handler_inv [OF assms(2)] assms(3)]) simp_all
qed

section \<open>One state update\<close>

definition state_request :: "string \<Rightarrow> string \<Rightarrow> request" where
  "state_request path body =
     \<lparr>rq_method = ''PUT'', rq_path = path, rq_content_type = Some CONTENT_UPDATE_STATE,
      rq_auth = True, rq_body = body\<rparr>"

lemma requests_state_update:
  assumes "appends_only p es"
  shows "requests p (ApiStart p ''PUT'' q (Some CONTENT_UPDATE_STATE) True 0 # es @ [ApiRun p r]) =
    [state_request q (appended es)]"
  using assms by (simp add: requests_def replay_appends_only state_request_def)

lemma context_thing_eq_Inr:
  "context_thing p s = Inr (t, s') \<longleftrightarrow>
     app_context (kii_of p s) = ThingIfContext \<and> t = thing s \<and> s' = s"
  by (auto simp: context_thing_def split: app_context_t.split)

lemma call_kii_thing:
  "call_kii p f ev s = Inr (r, s') \<Longrightarrow>
     state_handler_for_command_reaction (thing s') = state_handler_for_command_reaction (thing s) \<and>
     state_handler_for_period (thing s') = state_handler_for_period (thing s) \<and>
     state_update_period (thing s') = state_update_period (thing s)"
  by (auto simp: call_kii_eq_Inr)

interpretation period_frame: api_invariant env p
  "\<lambda>s. state_update_period (thing s) = x \<and> state_handler_for_period (thing s) = f"
  for env :: "('p, 'w) env" and p x f
  by unfold_locales (auto intro!: preservesI dest: call_kii_thing simp: api_defs)

section \<open>The status task\<close>

lemma c_int_mul_1000:
  "c_int_mul a 1000 =
     (if 2147483 < a \<or> a < - 2147483 then fail IntOverflow else ret (a * 1000))"
  by (auto simp: c_int_mul_def)

lemma uint_of_int32:
  assumes "- (2 ^ 31) \<le> x" and "x < 2 ^ 31"
  shows "uint (word_of_int x :: 32 word) = (if 0 \<le> x then x else x + 2 ^ 32)"
proof -
  have "uint (word_of_int x :: 32 word) = x mod 2 ^ 32"
    by (simp add: unsigned_of_int take_bit_int_def)
  moreover have "x mod 2 ^ 32 = (x + 2 ^ 32) mod 2 ^ 32"
    by simp
  ultimately show ?thesis
    using assms by (auto simp: mod_pos_pos_trivial simp del: mod_add_self2)
qed

text \<open>What the initialisers and \<open>start\<close> set up for the task.\<close>

definition task_ready :: "('p, 'w) env \<Rightarrow> kii_ptr \<Rightarrow> int \<Rightarrow> ('p, 'w) st \<Rightarrow> bool" where
  "task_ready env p period s \<longleftrightarrow>
     delay_ms_cb (kii_of p s) \<noteq> None \<and> app_context (kii_of p s) = ThingIfContext \<and>
     state_update_period (thing s) = period \<and>
     - (2 ^ 31) \<le> period * 1000 \<and> period * 1000 < 2 ^ 31 \<and>
     (\<exists>h. state_handler_for_period (thing s) = Some h \<and> writes_only env h p \<and>
        handler_returns env h p)"

text \<open>The calls of one round after its delay: an update that stops at the first failure.\<close>

definition attempt :: "kii_ptr \<Rightarrow> string \<Rightarrow> event list \<Rightarrow> bool" where
  "attempt p path es \<longleftrightarrow>
     (\<exists>r. r \<noteq> 0 \<and> es = [ApiStart p ''PUT'' path (Some CONTENT_UPDATE_STATE) True r]) \<or>
     (\<exists>as. appends_only p as \<and>
        (es = ApiStart p ''PUT'' path (Some CONTENT_UPDATE_STATE) True 0 # as \<or>
         (\<exists>r. es = ApiStart p ''PUT'' path (Some CONTENT_UPDATE_STATE) True 0 # as @ [ApiRun p r])))"

lemma call_kii_Inr: "\<exists>r s'. call_kii p f ev s = Inr (r, s')"
  by (auto simp: call_kii_def split: prod.split)

lemma task_ready_frame:
  assumes "same_identity (kii_of p s) (kii_of p s')"
    and "state_update_period (thing s') = state_update_period (thing s)"
    and "state_handler_for_period (thing s') = state_handler_for_period (thing s)"
    and "task_ready env p period s"
  shows "task_ready env p period s'"
  using assms by (simp add: task_ready_def same_identity_def)

lemma round_outcome:
  assumes frame: "kii_api_frame env" and ready: "task_ready env p period s"
  shows "\<exists>s' es. update_status_round env p path s = Inr ((), s') \<and> task_ready env p period s' \<and>
    trace s' = trace s @ DelayMs (word_of_int (period * 1000)) # es \<and> attempt p path es"
proof -
  let ?ms = "word_of_int (period * 1000) :: 32 word"
  let ?start = "api_start env p ''PUT'' path (Some CONTENT_UPDATE_STATE) True"
  obtain d h where d: "delay_ms_cb (kii_of p s) = Some d" and ctx: "app_context (kii_of p s) = ThingIfContext"
    and per: "state_update_period (thing s) = period"
    and range: "- (2 ^ 31) \<le> period * 1000" "period * 1000 < 2 ^ 31"
    and h: "state_handler_for_period (thing s) = Some h"
    and writes: "writes_only env h p" and returns: "handler_returns env h p"
    using ready by (auto simp: task_ready_def)
  define s0 where "s0 = s\<lparr>world := call_delay_ms env d ?ms (world s), trace := trace s @ [DelayMs ?ms]\<rparr>"
  have ready0: "task_ready env p period s0"
    using ready by (simp add: s0_def task_ready_def)
  have first: "update_status_round env p path s =
    chain ?start (\<lambda>r.
     if r \<noteq> 0 then ret ()
     else
       chain (context_thing p) (\<lambda>t.
       chain (deref (state_handler_for_period t)) (\<lambda>handler.
       chain (call_state_handler env handler p (prv_writer env)) (\<lambda>ok.
       if \<not> ok then ret ()
       else chain (api_run env p) (\<lambda>_. ret ()))))) s0"
    using d ctx per range
    by (simp add: update_status_round_def context_thing_def c_int_mul_def log_event_def s0_def)
  obtain r s1 where r: "?start s0 = Inr (r, s1)"
    unfolding api_start_def using call_kii_Inr by blast
  have tr1: "trace s1 = trace s0 @ [ApiStart p ''PUT'' path (Some CONTENT_UPDATE_STATE) True r]"
    using r unfolding api_start_def by (rule call_kii_trace)
  have ready1: "task_ready env p period s1"
    using api_call_identity(1) [OF frame r] call_kii_thing [OF r [unfolded api_start_def]] ready0
    by (auto intro: task_ready_frame)
  have tr0: "trace s0 = trace s @ [DelayMs ?ms]" by (simp add: s0_def)
  show ?thesis
  proof (cases "r = 0")
    case False
    with first r ready1 tr1 tr0 show ?thesis by (auto simp: attempt_def)
  next
    case True
    have h1: "state_handler_for_period (thing s1) = Some h"
      and ctx1: "app_context (kii_of p s1) = ThingIfContext"
      using call_kii_thing [OF r [unfolded api_start_def]] h ready1
      by (auto simp: s0_def task_ready_def)
    obtain ok s2 where call: "call_state_handler env h p (prv_writer env) s1 = Inr (ok, s2)"
      using returns unfolding handler_returns_def by blast
    obtain as where as: "trace s2 = trace s1 @ as" "appends_only p as"
      using handler_calls [OF writes call] by blast
    have ready2: "task_ready env p period s2"
      using handler_keeps(1) [OF frame writes call]
        preservesD [OF period_frame.handler_inv [OF writes, where x = "state_update_period (thing s1)"
            and f = "state_handler_for_period (thing s1)"] call] ready1
      by (auto intro: task_ready_frame)
    show ?thesis
    proof (cases ok)
      case False
      with first r True h1 ctx1 call as tr1 tr0 ready2 show ?thesis
        by (auto simp: context_thing_def attempt_def)
    next
      case ok: True
      obtain q s3 where q: "api_run env p s2 = Inr (q, s3)"
        unfolding api_run_def using call_kii_Inr by blast
      have ready3: "task_ready env p period s3"
        using api_call_identity(3) [OF frame q] call_kii_thing [OF q [unfolded api_run_def]] ready2
        by (auto intro: task_ready_frame)
      have "trace s3 = trace s2 @ [ApiRun p q]"
        using q unfolding api_run_def by (rule call_kii_trace)
      with first r True h1 ctx1 call as tr1 tr0 ready3 ok q show ?thesis
        by (auto simp: context_thing_def attempt_def)
    qed
  qed
qed

lemma rounds_outcome:
  assumes frame: "kii_api_frame env" and ready: "task_ready env p period s"
  shows "\<exists>s' ess. update_status_rounds env p path n s = Inr ((), s') \<and>
    length ess = n \<and> (\<forall>es \<in> set ess. attempt p path es) \<and>
    trace s' = trace s @ concat (map (\<lambda>es. DelayMs (word_of_int (period * 1000)) # es) ess)"
  using ready
proof (induction n arbitrary: s)
  case 0
  then show ?case by simp
next
  case (Suc n)
  obtain t es where t: "update_status_round env p path s = Inr ((), t)" "task_ready env p period t"
    "trace t = trace s @ DelayMs (word_of_int (period * 1000)) # es" "attempt p path es"
    using round_outcome [OF frame Suc.prems] by blast
  obtain s' ess where "update_status_rounds env p path n t = Inr ((), s')" "length ess = n"
    "\<forall>es \<in> set ess. attempt p path es"
    "trace s' = trace t @ concat (map (\<lambda>es. DelayMs (word_of_int (period * 1000)) # es) ess)"
    using Suc.IH [OF t(2)] by blast
  with t show ?case by (intro exI [where x = s'] exI [where x = "es # ess"]) auto
qed

section \<open>Properties\<close>

text \<open>
  C7. \<open>prv_send_state\<close> returns \<open>KII_TRUE\<close> only when its whole run is one request: the PUT to the
  thing's state path, with the pieces that the state handler wrote as its body. Whether the
  server accepted it plays no part.
\<close>

theorem prv_send_state_success:
  assumes "kii_api_frame env"
    and "\<And>h. state_handler_for_command_reaction (thing s) = Some h \<Longrightarrow> writes_only env h p"
    and "prv_send_state env p s = Inr (True, s')"
  shows "\<exists>path es. path = state_path (app_id (kii_of p s)) (c_str (author_id (author (kii_of p s)))) \<and>
     length path < 256 \<and> appends_only p es \<and>
     trace s' = trace s @ ApiStart p ''PUT'' path (Some CONTENT_UPDATE_STATE) True 0 # es @ [ApiRun p 0] \<and>
     requests p (drop (length (trace s)) (trace s')) = [state_request path (appended es)] \<and>
     same_identity (kii_of p s) (kii_of p s') \<and> state (thing s') = state (thing s)"
proof -
  let ?path = "state_path (app_id (kii_of p s)) (c_str (author_id (author (kii_of p s))))"
  obtain s1 s2 h
    where fits: "length ?path < 256"
      and start: "api_start env p ''PUT'' ?path (Some CONTENT_UPDATE_STATE) True s = Inr (0, s1)"
      and h: "state_handler_for_command_reaction (thing s1) = Some h"
      and call: "call_state_handler env h p (prv_writer env) s1 = Inr (True, s2)"
      and run: "api_run env p s2 = Inr (0, s')"
    using assms(3) unfolding prv_send_state_def
    by (auto simp: chain_eq_Inr run_iffs setters_Some setters_None context_thing_eq_Inr
        split: option.splits if_splits)
  have writes: "writes_only env h p"
    using assms(2) call_kii_thing [OF start [unfolded api_start_def]] h by simp
  obtain es where es: "trace s2 = trace s1 @ es" "appends_only p es"
    using handler_calls [OF writes call] by blast
  have "trace s' = trace s @ ApiStart p ''PUT'' ?path (Some CONTENT_UPDATE_STATE) True 0 # es @ [ApiRun p 0]"
    using es call_kii_trace [OF start [unfolded api_start_def]]
      call_kii_trace [OF run [unfolded api_run_def]] by simp
  moreover have "same_identity (kii_of p s) (kii_of p s')"
    using api_call_identity(1) [OF assms(1) start] handler_keeps(1) [OF assms(1) writes call]
      api_call_identity(3) [OF assms(1) run] by (blast intro: same_identity_trans)
  moreover have "state (thing s') = state (thing s)"
    using call_kii_state [OF start [unfolded api_start_def]] handler_keeps(2) [OF assms(1) writes call]
      call_kii_state [OF run [unfolded api_run_def]] by simp
  ultimately show ?thesis using fits es(2) requests_state_update [OF es(2)] by auto
qed

lemma sample_writes_only: "writes_only sample_env h p"
  unfolding writes_only_def by (auto simp: sample_env_def)

lemma sample_handler_returns: "handler_returns sample_env h p"
  unfolding handler_returns_def
proof
  fix s :: "(nat, sample_world) st"
  obtain r s' where "api_append sample_env p (''{'' @ [CHR 0x22] @ ''power'' @ [CHR 0x22] @ '':true}'') s
      = Inr (r, s')"
    unfolding api_append_def using call_kii_Inr by blast
  then have "call_state_handler sample_env h p (prv_writer sample_env) s = Inr (r = 0, s')"
    by (cases "r = 0") (simp_all add: sample_env_def prv_writer_def)
  then show "\<exists>ok s'. call_state_handler sample_env h p (prv_writer sample_env) s = Inr (ok, s')"
    by blast
qed

definition sample_send_state :: "fault + bool \<times> (nat, sample_world) st" where
  "sample_send_state = prv_send_state sample_env CommandHandler
     (sample_st KII_THING_IF_STATE_ONBOARDED [(500, [])])"

theorem prv_send_state_success_witness:
  "\<exists>s'. sample_send_state = Inr (True, s') \<and> state (thing s') = KII_THING_IF_STATE_ONBOARDED"
proof -
  have "returns True sample_send_state" by code_simp
  then obtain s' where s': "sample_send_state = Inr (True, s')" by (rule returnsE)
  have "state (thing s') = KII_THING_IF_STATE_ONBOARDED"
    using prv_send_state_success [OF sample_frame sample_writes_only
        s' [unfolded sample_send_state_def]]
    by (auto simp: sample_st_def sample_thing_def)
  with s' show ?thesis by blast
qed

text \<open>
  C15. The status task never stops once it is in its loop. For a thing that is set up for it
  and a handler that returns, every number \<open>n\<close> of rounds is reached: the task sleeps exactly \<open>n\<close>
  times, for the period in milliseconds, and each sleep is followed by at most one update, cut
  short at its first failure; no failure of the library or of the handler ends the loop.
\<close>

theorem prv_update_status_runs_on:
  assumes "kii_api_frame env" and "task_ready env p period s"
    and "NUL \<in> set (author_id (author (kii_of p s)))"
    and "path = state_path (app_id (kii_of p s)) (c_str (author_id (author (kii_of p s))))"
    and "length path < 256"
  shows "\<exists>s' ess. prv_update_status env p n s = Inr (True, s') \<and>
    length ess = n \<and> (\<forall>es \<in> set ess. attempt p path es) \<and>
    trace s' = trace s @ concat (map (\<lambda>es. DelayMs (word_of_int (period * 1000)) # es) ess)"
proof -
  obtain s' ess where "update_status_rounds env p path n s = Inr ((), s')" "length ess = n"
    "\<forall>es \<in> set ess. attempt p path es"
    "trace s' = trace s @ concat (map (\<lambda>es. DelayMs (word_of_int (period * 1000)) # es) ess)"
    using rounds_outcome [OF assms(1,2)] by blast
  moreover from this(1) have "prv_update_status env p n s = Inr (True, s')"
    using assms(3,5) unfolding assms(4)
    by (simp add: prv_update_status_def cstr_def state_setter.fits)
  ultimately show ?thesis by blast
qed

lemma sample_task_ready:
  "task_ready sample_env StateUpdater 60 (sample_st KII_THING_IF_STATE_ONBOARDED w)"
  using sample_writes_only sample_handler_returns
  by (simp add: task_ready_def sample_st_def sample_thing_def sample_kii_def kii_of_def)

theorem prv_update_status_runs_on_witness:
  "\<exists>s'. prv_update_status sample_env StateUpdater 1000
     (sample_st KII_THING_IF_STATE_ONBOARDED []) = Inr (True, s')"
proof -
  let ?s = "sample_st KII_THING_IF_STATE_ONBOARDED []"
  have kii: "kii_of StateUpdater ?s = sample_kii"
    by (simp add: sample_st_def sample_thing_def kii_of_def)
  have "NUL \<in> set (author_id (author (kii_of StateUpdater ?s)))"
    and "length (state_path (app_id (kii_of StateUpdater ?s))
      (c_str (author_id (author (kii_of StateUpdater ?s))))) < 256"
    unfolding kii by code_simp+
  from prv_update_status_runs_on [OF sample_frame sample_task_ready this(1) refl this(2), of 1000]
  show ?thesis by blast
qed

text \<open>
  C24. The period is multiplied as an \<open>int\<close> before it is handed on as an unsigned number of
  milliseconds: a round sleeps for exactly the period when that is between 0 and 2147483
  seconds, for another time when it is negative (the unsigned conversion adds 2 to the 32), and
  overflows when it is longer.
\<close>

theorem update_status_period_bounds:
  assumes "delay_ms_cb (kii_of p s) = Some d" and "app_context (kii_of p s) = ThingIfContext"
    and "\<And>h. state_handler_for_period (thing s) = Some h \<Longrightarrow> writes_only env h p"
  shows "if 2147483 < state_update_period (thing s) \<or> state_update_period (thing s) < - 2147483
    then update_status_round env p path s = Inl IntOverflow
    else \<forall>x s'. update_status_round env p path s = Inr (x, s') \<longrightarrow>
      (\<exists>ms es. trace s' = trace s @ DelayMs ms # es \<and>
        uint ms = (if 0 \<le> state_update_period (thing s) then state_update_period (thing s) * 1000
          else state_update_period (thing s) * 1000 + 2 ^ 32))"
proof (cases "2147483 < state_update_period (thing s) \<or> state_update_period (thing s) < - 2147483")
  case True
  then show ?thesis
    using assms(1,2) by (simp add: update_status_round_def context_thing_def c_int_mul_1000)
next
  case False
  let ?per = "state_update_period (thing s)"
  let ?ms = "word_of_int (?per * 1000) :: 32 word"
  define s0 where "s0 = s\<lparr>world := call_delay_ms env d ?ms (world s), trace := trace s @ [DelayMs ?ms]\<rparr>"
  have calls: "\<exists>es. trace s' = trace s0 @ es"
    if run: "update_status_round env p path s = Inr (x, s')" for x s'
  proof -
    obtain r s1 where start: "api_start env p ''PUT'' path (Some CONTENT_UPDATE_STATE) True s0 = Inr (r, s1)"
      and rest: "(if r \<noteq> 0 then ret ()
       else
         chain (context_thing p) (\<lambda>t.
         chain (deref (state_handler_for_period t)) (\<lambda>handler.
         chain (call_state_handler env handler p (prv_writer env)) (\<lambda>ok.
         if \<not> ok then ret () else chain (api_run env p) (\<lambda>_. ret ()))))) s1 = Inr (x, s')"
      using run assms(1,2) False
      by (auto simp: update_status_round_def context_thing_def c_int_mul_1000 log_event_def s0_def
          chain_eq_Inr)
    have tr1: "\<exists>es. trace s1 = trace s0 @ es"
      using call_kii_trace [OF start [unfolded api_start_def]] by blast
    have same: "state_handler_for_period (thing s1) = state_handler_for_period (thing s)"
      using call_kii_thing [OF start [unfolded api_start_def]] by (simp add: s0_def)
    show ?thesis
    proof (cases "r = 0")
      case False
      with rest tr1 show ?thesis by simp
    next
      case True
      obtain h ok s2 where h: "state_handler_for_period (thing s) = Some h"
        and call: "call_state_handler env h p (prv_writer env) s1 = Inr (ok, s2)"
        and last: "(if \<not> ok then ret () else chain (api_run env p) (\<lambda>_. ret ())) s2 = Inr (x, s')"
        using rest True same by (auto simp: chain_eq_Inr context_thing_eq_Inr run_iffs)
      have "\<exists>es. trace s2 = trace s0 @ es"
        using handler_calls [OF assms(3) [OF h] call] tr1 by auto
      with last show ?thesis
        by (auto simp: chain_eq_Inr api_run_def dest!: call_kii_trace split: if_splits)
    qed
  qed
  have ms: "uint ?ms = (if 0 \<le> ?per then ?per * 1000 else ?per * 1000 + 2 ^ 32)"
    using uint_of_int32 [of "?per * 1000"] False by (simp del: of_int_mult)
  have "\<exists>ms es. trace s' = trace s @ DelayMs ms # es \<and>
      uint ms = (if 0 \<le> ?per then ?per * 1000 else ?per * 1000 + 2 ^ 32)"
    if run: "update_status_round env p path s = Inr (x, s')" for x s'
  proof -
    obtain es where "trace s' = trace s @ DelayMs ?ms # es"
      using calls [OF run] by (auto simp: s0_def)
    with ms show ?thesis by blast
  qed
  then show ?thesis unfolding if_not_P [OF False] by blast
qed

definition sample_long_period :: "(nat, sample_world) st" where
  "sample_long_period = (sample_st KII_THING_IF_STATE_ONBOARDED [])
     \<lparr>thing := (sample_thing KII_THING_IF_STATE_ONBOARDED)\<lparr>state_update_period := 2592000\<rparr>\<rparr>"

theorem update_status_period_bounds_witness:
  "update_status_round sample_env StateUpdater ''p'' sample_long_period = Inl IntOverflow"
proof -
  have "delay_ms_cb (kii_of StateUpdater sample_long_period) = Some 10"
    and "app_context (kii_of StateUpdater sample_long_period) = ThingIfContext"
    by code_simp+
  from update_status_period_bounds [OF this sample_writes_only, of "''p''"]
  show ?thesis by (simp add: sample_long_period_def)
qed

end
