(* ===== verification/Command.thy ===== *)
theory Command
  imports State_Update
begin

text \<open>
  Handling a pushed command (kii_thing_if.c: \<open>prv_kii_thing_if_get_key_and_value_from_json\<close>,
  \<open>get_key_and_value_at_index\<close>, \<open>handle_command\<close>, \<open>received_callback\<close>).

  The message lies in the array \<open>msg\<close>; a pointer into it is an offset. The code reads the
  arrays of aliases and of actions element by element, overwrites the characters behind a name
  and its value by NULs while it calls the action handler, and puts them back.

  The two loops end when the JSON reader reports that there is no such element; they take fuel,
  each round one unit, and \<open>handle_command_terminates\<close> shows which fuel is enough.
\<close>

definition EMESSAGE_SIZE :: nat where
  "EMESSAGE_SIZE = 50"

section \<open>The message buffer\<close>

text \<open>The \<open>len\<close> characters at \<open>off\<close>; reading behind the array is a fault.\<close>

definition buf_text :: "nat \<Rightarrow> nat \<Rightarrow> (('p, 'w) st, string) prog" where
  "buf_text off len = (\<lambda>s.
     if off + len \<le> length (msg s) then Inr (take len (drop off (msg s)), s) else Inl OutOfBounds)"

definition get_char :: "nat \<Rightarrow> (('p, 'w) st, char) prog" where
  "get_char i = (\<lambda>s. if i < length (msg s) then Inr (msg s ! i, s) else Inl OutOfBounds)"

definition set_char :: "nat \<Rightarrow> char \<Rightarrow> (('p, 'w) st, unit) prog" where
  "set_char i c = (\<lambda>s.
     if i < length (msg s) then Inr ((), s\<lparr>msg := (msg s)[i := c]\<rparr>) else Inl OutOfBounds)"

text \<open>The C string that starts at \<open>off\<close>.\<close>

definition cstr_at :: "nat \<Rightarrow> (('p, 'w) st, string) prog" where
  "cstr_at off = chain (gets (\<lambda>s. drop off (msg s))) cstr"

text \<open>
  \<open>field.end - field.start\<close> and \<open>token.end - token.start\<close> as a \<open>size_t\<close>. Where the end lies
  before the start the code would go on with a huge length and leave the buffer at its first
  use; the model stops at the subtraction.
\<close>

definition span_len :: "nat \<Rightarrow> nat \<Rightarrow> ('s, nat) prog" where
  "span_len b e = (if b \<le> e then ret (e - b) else fail OutOfBounds)"

definition tok_span :: "jsmntok_t \<Rightarrow> ('s, nat \<times> nat) prog" where
  "tok_span t =
     (if 0 \<le> tok_start t \<and> tok_start t \<le> tok_end t
      then ret (nat (tok_start t), nat (tok_end t - tok_start t)) else fail OutOfBounds)"

text \<open>An entry of the token array: behind the tokens that jsmn filled in it is uninitialised.\<close>

definition token_at :: "('p, 'w) env \<Rightarrow> jsmntok_t list \<Rightarrow> nat \<Rightarrow> ('s, jsmntok_t) prog" where
  "token_at env toks i =
     (if i < length toks then ret (toks ! i)
      else if i < token_num env then fail Uninitialised else fail OutOfBounds)"

section \<open>The code\<close>

text \<open>
  The result is \<open>None\<close> for -1, and for 0 what the four out parameters receive: the offsets of
  key and value in the message and their lengths.
\<close>

definition prv_kii_thing_if_get_key_and_value_from_json ::
  "('p, 'w) env \<Rightarrow> nat \<Rightarrow> nat \<Rightarrow> (('p, 'w) st, (nat \<times> nat \<times> nat \<times> nat) option) prog" where
  "prv_kii_thing_if_get_key_and_value_from_json env json_string json_string_len =
     chain (buf_text json_string json_string_len) (\<lambda>t.
     case jsmn_parse env t (token_num env) of
       (parse_result, tokens) \<Rightarrow>
         (case parse_result of
            JSMN_count _ \<Rightarrow>
              chain (token_at env tokens 0) (\<lambda>t0.
              if tok_type t0 \<noteq> JSMN_OBJECT then ret None
              else
                chain (token_at env tokens 1) (\<lambda>t1.
                if tok_type t1 \<noteq> JSMN_STRING then ret None
                else
                  chain (tok_span t1) (\<lambda>(key, key_len).
                  chain (token_at env tokens 2) (\<lambda>t2.
                  chain (tok_span t2) (\<lambda>(val, value_len).
                  ret (Some (json_string + key, key_len, json_string + val, value_len)))))))
          | JSMN_ERROR_NOMEM \<Rightarrow> ret None
          | JSMN_ERROR_INVAL \<Rightarrow> ret None
          | JSMN_ERROR_PART \<Rightarrow> ret None
          | JSMN_ERROR_unlisted \<Rightarrow> ret None))"

text \<open>\<open>PRV_GET_KEY_AND_VALUE_SUCCESS\<close> carries what the out parameters receive.\<close>

datatype prv_get_key_and_value_t =
    PRV_GET_KEY_AND_VALUE_SUCCESS nat nat nat nat
  | PRV_GET_KEY_AND_VALUE_FAIL
  | PRV_GET_KEY_AND_VALUE_FINISH

definition get_key_and_value_at_index ::
  "('p, 'w) env \<Rightarrow> nat \<Rightarrow> nat \<Rightarrow> nat \<Rightarrow> (('p, 'w) st, prv_get_key_and_value_t) prog" where
  "get_key_and_value_at_index env array_str array_len index =
     chain (sprintf_buf (ulongbufsize env) (''/['' @ show_nat index @ '']'')) (\<lambda>index_str.
     chain (buf_text array_str array_len) (\<lambda>t.
     case prv_kii_thing_if_json_read_object env t
         [(field_by_path env index_str KII_JSON_FIELD_TYPE_OBJECT None)
            \<lparr>jf_result := KII_JSON_FIELD_PARSE_SUCCESS\<rparr>] of
       (result, item) \<Rightarrow>
         (case result of
            KII_JSON_PARSE_SUCCESS \<Rightarrow>
              chain (field_at item 0) (\<lambda>f.
              chain (span_len (jf_start f) (jf_end f)) (\<lambda>len.
              chain (prv_kii_thing_if_get_key_and_value_from_json env (array_str + jf_start f) len)
                (\<lambda>kv.
              case kv of
                None \<Rightarrow> ret PRV_GET_KEY_AND_VALUE_FAIL
              | Some (key, key_len, val, value_len) \<Rightarrow>
                  ret (PRV_GET_KEY_AND_VALUE_SUCCESS key key_len val value_len))))
          | KII_JSON_PARSE_PARTIAL_SUCCESS \<Rightarrow> ret PRV_GET_KEY_AND_VALUE_FINISH
          | KII_JSON_PARSE_ROOT_TYPE_ERROR \<Rightarrow> ret PRV_GET_KEY_AND_VALUE_FAIL
          | KII_JSON_PARSE_INVALID_INPUT \<Rightarrow> ret PRV_GET_KEY_AND_VALUE_FAIL
          | KII_JSON_PARSE_unlisted \<Rightarrow> ret PRV_GET_KEY_AND_VALUE_FAIL)))"

text \<open>
  The call of the action handler with its local array \<open>error\<close>: the result, and the message the
  handler wrote (\<open>None\<close> when it left the uninitialised array alone). A message that does not fit
  is the handler's overflow.
\<close>

definition call_action ::
  "('p, 'w) env \<Rightarrow> fn_ptr option \<Rightarrow> string \<Rightarrow> string \<Rightarrow> string \<Rightarrow>
     (('p, 'w) st, bool \<times> string option) prog" where
  "call_action env handler al name val =
     chain (deref handler) (\<lambda>h. \<lambda>s.
     case call_action_handler env h al name val (world s) of
       ((ok, e), w) \<Rightarrow>
         (case e of
            None \<Rightarrow> Inr ((ok, None), s\<lparr>world := w, trace := trace s @ [ActionCall al name val ok None]\<rparr>)
          | Some m \<Rightarrow>
              if length m \<le> EMESSAGE_SIZE then
                Inr ((ok, Some m), s\<lparr>world := w, trace := trace s @ [ActionCall al name val ok (Some m)]\<rparr>)
              else Inl OutOfBounds))"

text \<open>
  The member \<open>errorMessage\<close>: \<open>prv_append_key_value_string_optional\<close> of \<open>error\<close> or NULL. When the
  handler wrote no message, the fault comes where the code first reads the array, at \<open>strlen\<close>,
  after the appends that precede it.
\<close>

definition append_error_message ::
  "('p, 'w) env \<Rightarrow> kii_ptr \<Rightarrow> bool \<Rightarrow> string option \<Rightarrow> (('p, 'w) st, int) prog" where
  "append_error_message env kii succeeded e =
     (if succeeded then
        prv_append_key_value_string_optional env kii (Some ''errorMessage'') None True
      else case e of
          Some m \<Rightarrow>
            prv_append_key_value_string_optional env kii (Some ''errorMessage'') (Some m) True
        | None \<Rightarrow>
            chain (or_chain
              [api_append env kii '','', api_append env kii dquote, api_append env kii ''errorMessage'',
               api_append env kii (dquote @ '':''), api_append env kii dquote]) (\<lambda>failed.
            if failed then ret (- 1) else fail Uninitialised))"

text \<open>One action. The result is \<open>False\<close> where \<open>handle_command\<close> returns.\<close>

definition handle_action ::
  "('p, 'w) env \<Rightarrow> kii_ptr \<Rightarrow> fn_ptr option \<Rightarrow> nat \<Rightarrow> nat \<Rightarrow> nat \<Rightarrow>
     nat \<Rightarrow> nat \<Rightarrow> nat \<Rightarrow> nat \<Rightarrow> (('p, 'w) st, bool) prog" where
  "handle_action env kii handler alias_name alias_index action_index name name_len val value_len =
     chain (get_char (name + name_len)) (\<lambda>name_swap.
     chain (get_char (val + value_len)) (\<lambda>value_swap.
     chain (set_char (name + name_len) NUL) (\<lambda>_.
     chain (set_char (val + value_len) NUL) (\<lambda>_.
     chain (cstr_at alias_name) (\<lambda>al.
     chain (cstr_at name) (\<lambda>nm.
     chain (cstr_at val) (\<lambda>v.
     chain (call_action env handler al nm v) (\<lambda>(succeeded, e).
     chain (if alias_index > 0 \<or> action_index > 0 then
              \<comment> \<open>a comma that is refused is logged only\<close>
              chain (api_append env kii '','') (\<lambda>_. ret ())
            else ret ()) (\<lambda>_.
     chain (or_chain
       [api_append env kii (''{'' @ dquote),
        chain (cstr_at name) (\<lambda>nm. api_append env kii nm),
        api_append env kii (dquote @ '':{''),
        prv_append_key_value_bool env kii (Some ''succeeded'') succeeded False,
        append_error_message env kii succeeded e,
        api_append env kii ''}}'']) (\<lambda>failed.
     if failed then ret False
     else
       chain (set_char (name + name_len) name_swap) (\<lambda>_.
       chain (set_char (val + value_len) value_swap) (\<lambda>_.
       ret True))))))))))))"

primrec action_loop ::
  "('p, 'w) env \<Rightarrow> kii_ptr \<Rightarrow> fn_ptr option \<Rightarrow> nat \<Rightarrow> nat \<Rightarrow> nat \<Rightarrow> nat \<Rightarrow> nat \<Rightarrow> nat \<Rightarrow>
     (('p, 'w) st, bool) prog" where
  "action_loop env kii handler alias_name alias_index actions actions_len 0 action_index =
     fail OutOfFuel"
| "action_loop env kii handler alias_name alias_index actions actions_len (Suc fuel) action_index =
     chain (get_key_and_value_at_index env actions actions_len action_index) (\<lambda>action_result.
     case action_result of
       PRV_GET_KEY_AND_VALUE_FAIL \<Rightarrow> ret False
     | PRV_GET_KEY_AND_VALUE_SUCCESS name name_len val value_len \<Rightarrow>
         chain (handle_action env kii handler alias_name alias_index action_index
           name name_len val value_len) (\<lambda>ok.
         if \<not> ok then ret False
         else action_loop env kii handler alias_name alias_index actions actions_len fuel
           (Suc action_index))
     | PRV_GET_KEY_AND_VALUE_FINISH \<Rightarrow> ret True)"

primrec alias_loop ::
  "('p, 'w) env \<Rightarrow> kii_ptr \<Rightarrow> nat \<Rightarrow> nat \<Rightarrow> nat \<Rightarrow> nat \<Rightarrow> nat \<Rightarrow> (('p, 'w) st, bool) prog" where
  "alias_loop env kii alias_actions_str alias_actions_len fuel' 0 alias_index = fail OutOfFuel"
| "alias_loop env kii alias_actions_str alias_actions_len fuel' (Suc fuel) alias_index =
     chain (context_thing kii) (\<lambda>t.
     chain (get_key_and_value_at_index env alias_actions_str alias_actions_len alias_index)
       (\<lambda>alias_result.
     case alias_result of
       PRV_GET_KEY_AND_VALUE_FAIL \<Rightarrow> ret False
     | PRV_GET_KEY_AND_VALUE_SUCCESS alias_name alias_name_len actions actions_len \<Rightarrow>
         chain (get_char (alias_name + alias_name_len)) (\<lambda>alias_name_swap.
         chain (set_char (alias_name + alias_name_len) NUL) (\<lambda>_.
         chain (action_loop env kii (action_handler t) alias_name alias_index actions actions_len
           fuel' 0) (\<lambda>ok.
         if \<not> ok then ret False
         else
           chain (set_char (alias_name + alias_name_len) alias_name_swap) (\<lambda>_.
           alias_loop env kii alias_actions_str alias_actions_len fuel' fuel (Suc alias_index)))))
     | PRV_GET_KEY_AND_VALUE_FINISH \<Rightarrow> ret True))"

text \<open>The last steps: close the array of results, run the request, send the state.\<close>

definition handle_command ::
  "('p, 'w) env \<Rightarrow> nat \<Rightarrow> kii_ptr \<Rightarrow> nat \<Rightarrow> (('p, 'w) st, unit) prog" where
  "handle_command env fuel kii buffer_size =
     chain (buf_text 0 buffer_size) (\<lambda>buffer.
     case prv_kii_thing_if_json_read_object env buffer
         [field_by_path env ''/commandID'' KII_JSON_FIELD_TYPE_STRING None,
          field_by_path env ''/actions'' KII_JSON_FIELD_TYPE_ARRAY None] of
       (result, fs) \<Rightarrow>
         chain (field_at fs 0) (\<lambda>f0.
         chain (field_at fs 1) (\<lambda>f1.
         if result \<noteq> KII_JSON_PARSE_SUCCESS \<and>
             (result \<noteq> KII_JSON_PARSE_PARTIAL_SUCCESS \<or>
              jf_result f0 \<noteq> KII_JSON_FIELD_PARSE_SUCCESS)
         then ret ()
         else
           chain (gets (\<lambda>s. app_id (kii_of kii s))) (\<lambda>appid.
           chain (gets (\<lambda>s. author_id (author (kii_of kii s)))) (\<lambda>a.
           chain (cstr a) (\<lambda>authorid.
           chain (span_len (jf_start f0) (jf_end f0)) (\<lambda>id_len.
           let results_path_length =
             length THING_IF_APP_PATH + length appid + length TARGET_PART + length authorid +
             length COMMAND_PART + id_len + length RESULTS_PART - 1
           in
           if 256 \<le> results_path_length then ret ()
           else
             chain (buf_text (jf_start f0) id_len) (\<lambda>command_id.
             chain (sprintf_buf 256 (THING_IF_APP_PATH @ appid @ TARGET_PART @ authorid @
               COMMAND_PART @ c_str command_id @ RESULTS_PART)) (\<lambda>resource_path.
             chain (api_start env kii ''PUT'' resource_path (Some ''application/json'') True) (\<lambda>r.
             if r \<noteq> 0 then ret ()
             else
               chain (span_len (jf_start f1) (jf_end f1)) (\<lambda>alias_actions_len.
               chain (api_append env kii (''{'' @ dquote @ ''actionResults'' @ dquote @ '':['')) (\<lambda>r.
               if r \<noteq> 0 then ret ()
               else
                 chain (alias_loop env kii (jf_start f1) alias_actions_len fuel fuel 0) (\<lambda>ok.
                 if \<not> ok then ret ()
                 else
                   chain (api_append env kii '']}'') (\<lambda>r.
                   if r \<noteq> 0 then ret ()
                   else
                     chain (api_run env kii) (\<lambda>r.
                     if r \<noteq> 0 then ret ()
                     else chain (prv_send_state env kii) (\<lambda>_. ret ()))))))))))))))))"

definition received_callback ::
  "('p, 'w) env \<Rightarrow> nat \<Rightarrow> kii_ptr \<Rightarrow> nat \<Rightarrow> (('p, 'w) st, unit) prog" where
  "received_callback env fuel kii buffer_size =
     chain (context_thing kii) (\<lambda>t.
     chain (case custom_push_handler t of
         None \<Rightarrow> ret False
       | Some h \<Rightarrow> call_push_handler env h kii buffer_size) (\<lambda>skip.
     if \<not> skip then handle_command env fuel kii buffer_size else ret ()))"

definition test_handle_command ::
  "('p, 'w) env \<Rightarrow> nat \<Rightarrow> kii_ptr \<Rightarrow> nat \<Rightarrow> (('p, 'w) st, unit) prog" where
  "test_handle_command env fuel kii buffer_size = handle_command env fuel kii buffer_size"

end
