(* ===== verification/Command_Frame.thy ===== *)
theory Command_Frame
  imports Command
begin

text \<open>
  What handling a command and the status task leave alone: an invariant of the library's calls
  that does not look at the application's state, at the message or at the record of calls is one
  of \<open>handle_command\<close>, of \<open>received_callback\<close> and of a round of the status task.
\<close>

lemma preserves_result [preserves_intros]:
  "preserves I m \<Longrightarrow> (\<And>k kl v vl. preserves I (f k kl v vl)) \<Longrightarrow> preserves I n \<Longrightarrow>
   preserves I (case x of PRV_GET_KEY_AND_VALUE_SUCCESS k kl v vl \<Rightarrow> f k kl v vl
     | PRV_GET_KEY_AND_VALUE_FAIL \<Rightarrow> m | PRV_GET_KEY_AND_VALUE_FINISH \<Rightarrow> n)"
  by (cases x) auto

lemma preserves_parse_result [preserves_intros]:
  "preserves I a \<Longrightarrow> preserves I b \<Longrightarrow> preserves I c \<Longrightarrow> preserves I d \<Longrightarrow> preserves I e \<Longrightarrow>
   preserves I (case x of KII_JSON_PARSE_SUCCESS \<Rightarrow> a | KII_JSON_PARSE_PARTIAL_SUCCESS \<Rightarrow> b
     | KII_JSON_PARSE_ROOT_TYPE_ERROR \<Rightarrow> c | KII_JSON_PARSE_INVALID_INPUT \<Rightarrow> d
     | KII_JSON_PARSE_unlisted \<Rightarrow> e)"
  by (cases x) auto

lemma preserves_jsmn_result [preserves_intros]:
  "(\<And>n. preserves I (a n)) \<Longrightarrow> preserves I b \<Longrightarrow> preserves I c \<Longrightarrow> preserves I d \<Longrightarrow> preserves I e \<Longrightarrow>
   preserves I (case x of JSMN_count n \<Rightarrow> a n | JSMN_ERROR_NOMEM \<Rightarrow> b | JSMN_ERROR_INVAL \<Rightarrow> c
     | JSMN_ERROR_PART \<Rightarrow> d | JSMN_ERROR_unlisted \<Rightarrow> e)"
  by (cases x) auto

lemma preserves_context [preserves_intros]:
  "preserves I a \<Longrightarrow> preserves I b \<Longrightarrow>
   preserves I (case x of NullContext \<Rightarrow> a | ThingIfContext \<Rightarrow> b)"
  by (cases x) auto

lemma preserves_reads [preserves_intros]:
  "preserves I (get_char i)" "preserves I (buf_text off len)" "preserves I (span_len a b)"
  "preserves I (tok_span t)" "preserves I (token_at env toks i)" "preserves I (cstr_at off)"
  "preserves I (context_thing p)" "preserves I (c_int_mul x y)"
  by (auto simp: preserves_def get_char_def buf_text_def span_len_def tok_span_def token_at_def
      cstr_at_def cstr_eq_Inr context_thing_eq_Inr c_int_mul_def split: if_splits)

lemma preserves_get_key [preserves_intros]:
  "preserves I (get_key_and_value_at_index env off len i)"
  unfolding get_key_and_value_at_index_def prv_kii_thing_if_get_key_and_value_from_json_def
  by (intro preserves_intros)

section \<open>Faults that the calls cannot have\<close>

lemma never_call_kii [never_intros]: "never e (call_kii p f ev)"
  by (rule neverI) simp

lemma never_api [never_intros]:
  "never e (api_start env p meth path ctype auth)" "never e (api_append env p b)"
  "never e (api_run env p)"
  unfolding api_defs by (rule never_call_kii)+

lemma never_append_chunks [never_intros]: "never e (append_chunks env p cs)"
  by (rule neverI) simp

lemma never_append_members [never_intros]:
  "never e (prv_append_key_value env p k v is_successor is_string)"
  "never e (prv_append_key_value_bool env p k b is_successor)"
  "never e (prv_append_key_value_string_optional env p k v is_successor)"
proof -
  show kv: "never e (prv_append_key_value env p k v is_successor is_string)" for k v is_string
    by (cases k; cases v)
      (simp_all add: prv_append_key_value_NULL prv_append_key_value_chunks never_intros)
  show "never e (prv_append_key_value_bool env p k b is_successor)"
    unfolding prv_append_key_value_bool_def by (rule kv)
  show "never e (prv_append_key_value_string_optional env p k v is_successor)"
    unfolding prv_append_key_value_string_optional_def by (intro never_intros kv)
qed

lemma never_buffer [never_intros]:
  "e \<noteq> OutOfBounds \<Longrightarrow> never e (buf_text off len)"
  "e \<noteq> OutOfBounds \<Longrightarrow> never e (get_char i)"
  "e \<noteq> OutOfBounds \<Longrightarrow> never e (set_char i c)"
  "e \<noteq> OutOfBounds \<Longrightarrow> never e (cstr_at off)"
  "e \<noteq> OutOfBounds \<Longrightarrow> never e (span_len a b)"
  "e \<noteq> OutOfBounds \<Longrightarrow> never e (tok_span t)"
  "e \<noteq> OutOfBounds \<Longrightarrow> e \<noteq> Uninitialised \<Longrightarrow> never e (token_at env toks i)"
  "e \<noteq> OutOfBounds \<Longrightarrow> never e (field_at fs n)"
  "e \<noteq> NullDeref \<Longrightarrow> never e (context_thing p)"
  by (auto simp: never_def buf_text_def get_char_def set_char_def cstr_at_def cstr_eq_Inl
      span_len_def tok_span_def token_at_def field_at_def context_thing_def
      split: app_context_t.split)

lemma never_call_action [never_intros]:
  "e \<noteq> OutOfBounds \<Longrightarrow> e \<noteq> NullDeref \<Longrightarrow> never e (call_action env h al nm v)"
  by (cases h) (auto simp: never_def call_action_def split: prod.splits option.splits)

section \<open>Invariants\<close>

text \<open>
  \<open>blind I\<close>: \<open>I\<close> does not look at the message or the application's state, nor does it mind the
  calls that are not the library's being added to the record.
\<close>

fun quiet :: "event \<Rightarrow> bool" where
  "quiet (ActionCall al name val ok e) = True"
| "quiet (DelayMs ms) = True"
| "quiet e = False"

definition blind :: "(('p, 'w) st \<Rightarrow> bool) \<Rightarrow> bool" where
  "blind I \<longleftrightarrow> (\<forall>s w m es. I s \<longrightarrow> list_all quiet es \<longrightarrow>
     I (s\<lparr>msg := m, world := w, trace := trace s @ es\<rparr>))"

lemma blindD:
  assumes "blind I" and "I s"
  shows "I (s\<lparr>world := w\<rparr>)" and "I (s\<lparr>msg := m\<rparr>)"
    and "quiet e \<Longrightarrow> I (s\<lparr>world := w, trace := trace s @ [e]\<rparr>)"
proof -
  have all: "list_all quiet es' \<Longrightarrow> I (s\<lparr>msg := m', world := w', trace := trace s @ es'\<rparr>)" for m' w' es'
    using assms by (simp add: blind_def)
  show "I (s\<lparr>world := w\<rparr>)" using all [where m' = "msg s" and w' = w and es' = "[]"] by simp
  show "I (s\<lparr>msg := m\<rparr>)" using all [where m' = m and w' = "world s" and es' = "[]"] by simp
  show "I (s\<lparr>world := w, trace := trace s @ [e]\<rparr>)" if "quiet e"
    using all [where m' = "msg s" and w' = w and es' = "[e]"] that by simp
qed

lemma preserves_blind:
  assumes "blind I"
  shows "preserves I (set_char i c)" and "preserves I (call_action env h al nm v)"
    and "preserves I (log_event (DelayMs ms) f)"
proof -
  show "preserves I (set_char i c)"
    by (auto simp: preserves_def set_char_def intro: blindD(2) [OF assms])
  show "preserves I (call_action env h al nm v)"
    by (cases h) (auto simp: preserves_def call_action_def intro!: blindD(3) [OF assms]
        split: prod.splits option.splits if_splits)
  show "preserves I (log_event (DelayMs ms) f)"
    by (auto simp: preserves_def log_event_def intro!: blindD(3) [OF assms])
qed

text \<open>
  What handling the actions of a command needs of an invariant that may look at the application:
  writing the message and calling the action handler keep it.
\<close>

definition keeps_actions :: "('p, 'w) env \<Rightarrow> (('p, 'w) st \<Rightarrow> bool) \<Rightarrow> bool" where
  "keeps_actions env I \<longleftrightarrow>
     (\<forall>i c. preserves I (set_char i c)) \<and> (\<forall>h al nm v. preserves I (call_action env h al nm v))"

lemma keeps_actionsD:
  assumes "keeps_actions env I"
  shows "preserves I (set_char i c)" and "preserves I (call_action env h al nm v)"
  using assms by (simp_all add: keeps_actions_def)

lemma blind_keeps_actions: "blind I \<Longrightarrow> keeps_actions env I"
  by (simp add: keeps_actions_def preserves_blind)

context api_invariant
begin

lemma handle_action_keeps:
  assumes "keeps_actions env I"
  shows "preserves I (handle_action env p h a i j name nl val vl)"
  unfolding handle_action_def append_error_message_def or_chain.simps
  by (intro body_intros preserves_intros keeps_actionsD [OF assms])

lemma action_loop_keeps:
  assumes "keeps_actions env I"
  shows "preserves I (action_loop env p h a i off len fuel j)"
  by (induction fuel arbitrary: j) (auto intro!: preserves_intros handle_action_keeps [OF assms])

lemma alias_loop_keeps:
  assumes "keeps_actions env I"
  shows "preserves I (alias_loop env p off len fuel' fuel i)"
  by (induction fuel arbitrary: i)
    (auto intro!: preserves_intros action_loop_keeps [OF assms] keeps_actionsD [OF assms])

lemma prv_send_state_keeps:
  assumes "\<And>h. preserves I (call_state_handler env h p (prv_writer env))"
  shows "preserves I (prv_send_state env p)"
  unfolding prv_send_state_def
  by (intro body_intros preserves_intros assms)

lemma handle_command_keeps:
  assumes "keeps_actions env I" and "\<And>h. preserves I (call_state_handler env h p (prv_writer env))"
  shows "preserves I (handle_command env fuel p n)"
  unfolding handle_command_def
  by (intro body_intros preserves_intros alias_loop_keeps prv_send_state_keeps assms)

text \<open>For invariants that are blind to the application.\<close>

lemmas action_loop_inv = action_loop_keeps [OF blind_keeps_actions]
lemmas alias_loop_inv = alias_loop_keeps [OF blind_keeps_actions]

lemma prv_send_state_inv:
  assumes "blind I" and "\<And>h. writes_only env h p"
  shows "preserves I (prv_send_state env p)"
  by (intro prv_send_state_keeps handler_inv assms(2) blindD(1) [OF assms(1)])

lemma handle_command_inv:
  assumes "blind I" and "\<And>h. writes_only env h p"
  shows "preserves I (handle_command env fuel p n)"
  by (intro handle_command_keeps blind_keeps_actions handler_inv assms blindD(1) [OF assms(1)])

lemma received_callback_inv:
  assumes "blind I" and "\<And>h. writes_only env h p"
    and "\<And>h. preserves I (call_push_handler env h p n)"
  shows "preserves I (received_callback env fuel p n)"
  unfolding received_callback_def
  by (intro preserves_intros handle_command_inv assms)

lemma update_status_round_inv:
  assumes "blind I" and "\<And>h. writes_only env h p"
  shows "preserves I (update_status_round env p path)"
  unfolding update_status_round_def
  by (intro body_intros preserves_intros handler_inv preserves_blind assms blindD(1) [OF assms(1)])

end

end
