(* ===== verification/Session.thy ===== *)
theory Session
  imports Lifecycle Thing_Info Command_Frame
begin

text \<open>
  The life of a thing: from a successful initialisation on, the application calls the public
  functions, messages are pushed, and the status task makes its rounds, in any order. The steps
  are whole operations; what happens outside the program between them (a new message, another
  error object, other buffers) is a step of its own.
\<close>

section \<open>Steps and reachable states\<close>

inductive session_step :: "('p, 'w) env \<Rightarrow> ('p, 'w) st \<Rightarrow> ('p, 'w) st \<Rightarrow> bool" for env where
  vendor: "onboard_with_vendor_thing_id env i pw tt fv lp tp s = Inr (ok, s') \<Longrightarrow> session_step env s s'"
| by_id: "onboard_with_thing_id env i pw tt fv lp tp s = Inr (ok, s') \<Longrightarrow> session_step env s s'"
| start: "start env s = Inr (ok, s') \<Longrightarrow> session_step env s s'"
| get_firmware: "get_firmware_version env out n s = Inr (r, s') \<Longrightarrow> session_step env s s'"
| put_firmware: "update_firmware_version env v s = Inr (ok, s') \<Longrightarrow> session_step env s s'"
| get_type: "get_thing_type env out n s = Inr (r, s') \<Longrightarrow> session_step env s s'"
| put_type: "update_thing_type env v s = Inr (ok, s') \<Longrightarrow> session_step env s s'"
| pushed: "received_callback env fuel CommandHandler n s = Inr (u, s') \<Longrightarrow> session_step env s s'"
| status: "update_status_round env StateUpdater path s = Inr (u, s') \<Longrightarrow> session_step env s s'"
| outside: "session_step env s (s\<lparr>err := e, msg := m, heap := h, world := w\<rparr>)"

inductive_cases session_stepE: "session_step env s s'"

inductive session :: "('p, 'w) env \<Rightarrow> ('p, 'w) st \<Rightarrow> ('p, 'w) st \<Rightarrow> bool" for env s where
  now: "session env s s"
| later: "session env s t \<Longrightarrow> session_step env t u \<Longrightarrow> session env s u"

text \<open>The states that a session begins in: behind either of the two initialisers.\<close>

definition initialised :: "('p, 'w) env \<Rightarrow> ('p, 'w) st \<Rightarrow> bool" where
  "initialised env s \<longleftrightarrow>
     (\<exists>appid appkey app_host chr sur cbr rc s0.
        init_kii_thing_if env appid appkey app_host chr sur cbr rc s0 = Inr (True, s)) \<or>
     (\<exists>appid appkey app_host thing_id token chr sur cbr rc s0.
        init_kii_thing_if_with_onboarded_thing env appid appkey app_host thing_id token chr sur
          cbr rc s0 = Inr (True, s))"

section \<open>The invariant\<close>

text \<open>What the application supplied: its handlers and the period.\<close>

definition wiring :: "'p kii_thing_if_t \<Rightarrow>
    fn_ptr option \<times> fn_ptr option \<times> fn_ptr option \<times> fn_ptr option \<times> int" where
  "wiring t = (action_handler t, state_handler_for_period t,
     state_handler_for_command_reaction t, custom_push_handler t, state_update_period t)"

text \<open>What of a \<open>kii_t\<close> onboarding does not touch.\<close>

definition fixed_part :: "'p kii_t \<Rightarrow> string \<times> string \<times> app_context_t \<times> fn_ptr option" where
  "fixed_part k = (app_id k, app_key k, app_context k, delay_ms_cb k)"

definition thing_ok :: "('p, 'w) st \<Rightarrow> bool" where
  "thing_ok s \<longleftrightarrow>
     state (thing s) \<noteq> KII_THING_IF_STATE_STARTED \<and>
     (\<forall>p. app_context (kii_of p s) = ThingIfContext) \<and>
     (state (thing s) = KII_THING_IF_STATE_ONBOARDED \<longrightarrow>
        terminated (author (kii_of StateUpdater s)))"

definition continues :: "('p, 'w) st \<Rightarrow> ('p, 'w) st \<Rightarrow> bool" where
  "continues s0 s \<longleftrightarrow> thing_ok s \<and>
     (state (thing s0) = KII_THING_IF_STATE_ONBOARDED \<longrightarrow>
        state (thing s) = KII_THING_IF_STATE_ONBOARDED) \<and> wiring (thing s) = wiring (thing s0) \<and>
     (\<forall>p. fixed_part (kii_of p s) = fixed_part (kii_of p s0))"

text \<open>
  What the library and the application must do for the invariant to hold: a request and the push
  routine keep a \<open>kii_t\<close>'s identity, a custom push handler changes nothing but the \<open>kii_t\<close> it
  is given, and that by requests, and state handlers only write.
\<close>

definition push_frame :: "('p, 'w) env \<Rightarrow> bool" where
  "push_frame env \<longleftrightarrow>
     (\<forall>k w. same_identity k (fst (snd (kii_push_start_routine env k w)))) \<and>
     (\<forall>h n s ok s'. call_push_handler env h CommandHandler n s = Inr (ok, s') \<longrightarrow>
        (\<exists>k es. same_identity (kii_of CommandHandler s) k \<and>
           thing s' = put_kii CommandHandler k (thing s) \<and>
           trace s' = trace s @ es \<and> list_all (made_on CommandHandler) es))"

lemma put_kii_other: "get_kii p t = k \<Longrightarrow> put_kii p k t = t"
  by (cases p) auto

lemma wiring_put [simp]: "wiring (put_kii p k t) = wiring t"
  by (simp add: wiring_def)

lemma same_identity_fixed: "same_identity k k' \<Longrightarrow> fixed_part k' = fixed_part k"
  by (simp add: same_identity_def fixed_part_def)

lemma fixed_context: "fixed_part k' = fixed_part k \<Longrightarrow> app_context k' = app_context k"
  by (simp add: fixed_part_def)

text \<open>Replacing one \<open>kii_t\<close> by one with the same identity.\<close>

lemma continues_put:
  assumes "continues s0 s" and "same_identity (kii_of p s) k" and "thing s' = put_kii p k (thing s)"
  shows "continues s0 s'"
proof -
  have "fixed_part (kii_of q s') = fixed_part (kii_of q s0)" for q
    using assms same_identity_fixed [OF assms(2)] by (simp add: continues_def kii_of_def)
  moreover have "app_context (kii_of q s') = ThingIfContext" for q
    using assms by (simp add: continues_def thing_ok_def kii_of_def same_identity_def)
  ultimately show ?thesis
    using assms by (auto simp: continues_def thing_ok_def kii_of_def same_identity_def)
qed

lemma continues_frame: "continues s0 s \<Longrightarrow> thing s' = thing s \<Longrightarrow> continues s0 s'"
  by (simp add: continues_def thing_ok_def kii_of_def)

lemma continues_call:
  assumes "kii_api_frame env"
  shows "preserves (continues s0) (api_append env p b)"
    and "preserves (continues s0) (api_start env p meth path ctype auth)"
    and "preserves (continues s0) (api_run env p)"
proof -
  have "continues s0 s'" if "call_kii p f ev s = Inr (r, s')" "continues s0 s"
    "same_identity (kii_of p s) (kii_of p s')" for f ev r s s'
    using that by (auto simp: call_kii_eq_Inr intro!: continues_put [OF that(2)])
  then show "preserves (continues s0) (api_append env p b)"
    "preserves (continues s0) (api_start env p meth path ctype auth)"
    "preserves (continues s0) (api_run env p)"
    using api_call_identity [OF assms] by (auto intro!: preservesI simp: api_defs)
qed

lemma continues_api:
  assumes "kii_api_frame env"
  shows "api_invariant env p (continues s0)"
proof (unfold_locales, goal_cases)
  case (1 b)
  then show ?case by (rule continues_call [OF assms])
next
  case (2 meth path ctype auth)
  then show ?case by (rule continues_call [OF assms])
next
  case 3
  then show ?case by (rule continues_call [OF assms])
next
  case (4 f)
  then show ?case by (auto intro!: preservesI elim: continues_frame)
qed

lemma all_kii_ptr: "(\<forall>p. P p) \<longleftrightarrow> P CommandHandler \<and> P StateUpdater"
  by (metis kii_ptr.exhaust)

lemma continues_author:
  assumes "kii_api_frame env"
  shows "author_invariant env CommandHandler (continues s0)"
proof (intro author_invariant.intro author_invariant_axioms.intro continues_api assms)
  fix a
  show "preserves (continues s0) (update_kii CommandHandler (\<lambda>k. k\<lparr>author := a k\<rparr>))"
    by (auto intro!: preservesI simp: continues_def thing_ok_def kii_of_def fixed_part_def
        all_kii_ptr wiring_def)
qed

section \<open>Every step keeps the invariant\<close>

lemma continues_blind: "blind (continues s0)"
  by (auto simp: blind_def elim: continues_frame)

lemma continues_onboarded:
  assumes "continues s0 s" and "terminated a"
  shows "continues s0 (s\<lparr>thing := put_kii StateUpdater (kii_of StateUpdater s\<lparr>author := a\<rparr>) (thing s)
      \<lparr>state := KII_THING_IF_STATE_ONBOARDED\<rparr>\<rparr>)"
  using assms
  by (auto simp: continues_def thing_ok_def kii_of_def fixed_part_def all_kii_ptr wiring_def)

lemma set_author_cases:
  "prv_set_author a (Some i) (Some k) s = Inr ((ok, a'), s') \<Longrightarrow>
     s' = s \<and> (if ok then terminated a' else a' = a)"
  using prv_set_author_st prv_set_author_True(3) prv_set_author_False by (cases ok) fastforce+

lemma continues_gate:
  assumes "preserves (continues s0) m" and "onboard_gate m s = Inr (ok, s')" and "continues s0 s"
  shows "continues s0 s'"
proof -
  consider (started) "s' = s\<lparr>err := map_option (\<lambda>e. e\<lparr>code := KII_THING_IF_ERROR_INVALID_STATE\<rparr>) (err s)\<rparr>"
    | (inner) "m s = Inr (False, s')"
    | (refused) s1 where "m s = Inr (True, s1)"
        and "s' = s1\<lparr>thing := put_kii StateUpdater (kii_of StateUpdater s1) (thing s1)\<rparr>"
    | (finished) s1 a where "m s = Inr (True, s1)" and "terminated a"
        and "s' = s1\<lparr>thing := put_kii StateUpdater (kii_of StateUpdater s1\<lparr>author := a\<rparr>) (thing s1)
          \<lparr>state := KII_THING_IF_STATE_ONBOARDED\<rparr>\<rparr>"
    using assms(2)
    by (auto simp: onboard_gate_def chain_eq_Inr kii_of_def dest!: set_author_cases
        split: if_splits)
  then show ?thesis
  proof cases
    case started
    then show ?thesis using assms(3) by (auto elim: continues_frame)
  next
    case inner
    then show ?thesis using preservesD [OF assms(1)] assms(3) by blast
  next
    case (refused s1)
    then show ?thesis
      using preservesD [OF assms(1) refused(1) assms(3)]
      by (auto simp: kii_of_def put_kii_other elim: continues_frame)
  next
    case (finished s1 a)
    then show ?thesis
      using continues_onboarded [OF preservesD [OF assms(1) finished(1) assms(3)] finished(2)] finished(3) by simp
  qed
qed

lemma continues_start:
  assumes "push_frame env" and "start env s = Inr (ok, s')" and "continues s0 s"
  shows "continues s0 s'"
proof -
  have push: "preserves (continues s0) (push_start env CommandHandler)"
  proof (rule preservesI)
    fix t r t'
    assume t: "continues s0 t" and "push_start env CommandHandler t = Inr (r, t')"
    then obtain k w where k: "kii_push_start_routine env (kii_of CommandHandler t) (world t) = (r, k, w)"
      and t': "thing t' = put_kii CommandHandler k (thing t)"
      by (auto simp: push_start_def call_kii_eq_Inr)
    have "same_identity (kii_of CommandHandler t) (fst (snd (r, k, w)))"
      using assms(1) unfolding push_frame_def k [symmetric] by blast
    then show "continues s0 t'" using continues_put [OF t _ t'] by simp
  qed
  have task: "preserves (continues s0) (task_create env cb name p)" for cb name p
  proof (rule preservesI)
    fix t r t'
    assume t: "continues s0 t" and "task_create env cb name p t = Inr (r, t')"
    then have "thing t' = thing t" by (auto simp: task_create_eq_Inr)
    with t show "continues s0 t'" by (rule continues_frame)
  qed
  have "preserves (continues s0) (start env)"
    unfolding start_def by (intro preserves_intros push task)
  then show ?thesis using assms(2,3) by (rule preservesD)
qed

lemma continues_push:
  assumes "push_frame env"
  shows "preserves (continues s0) (call_push_handler env h CommandHandler n)"
proof (rule preservesI)
  fix s ok s'
  assume s: "continues s0 s" and "call_push_handler env h CommandHandler n s = Inr (ok, s')"
  with assms obtain k where "same_identity (kii_of CommandHandler s) k"
    and "thing s' = put_kii CommandHandler k (thing s)"
    unfolding push_frame_def by blast
  with s show "continues s0 s'" by (rule continues_put)
qed

lemma continues_pushed:
  assumes frame: "kii_api_frame env" "push_frame env"
    and writes: "\<And>h p. writes_only env h p"
  shows "preserves (continues s0) (received_callback env fuel CommandHandler n)"
  by (rule api_invariant.received_callback_inv [OF continues_api [OF frame(1)] continues_blind
        writes continues_push [OF frame(2)]])

lemma continues_members:
  assumes "kii_api_frame env"
  shows "preserves (continues s0) (get_firmware_version env out n)"
    and "preserves (continues s0) (get_thing_type env out n)"
    and "preserves (continues s0) (update_firmware_version env v)"
    and "preserves (continues s0) (update_thing_type env v)"
  unfolding member_ops
  by (intro member_invs [OF continues_api [OF assms]] preserves_setters)+

lemma session_step_continues:
  assumes frame: "kii_api_frame env" "push_frame env"
    and writes: "\<And>h p. writes_only env h p"
    and "session_step env s s'" and "continues s0 s"
  shows "continues s0 s'"
  using assms(4)
proof cases
  case (vendor i pw tt fv lp tp ok)
  from continues_gate [OF author_invariant.prv_onboard_with_vendor_thing_id_inv
      [OF continues_author [OF frame(1)]] vendor [unfolded onboard_gates] assms(5)]
  show ?thesis .
next
  case (by_id i pw tt fv lp tp ok)
  from continues_gate [OF author_invariant.prv_onboard_with_thing_id_inv
      [OF continues_author [OF frame(1)]] by_id [unfolded onboard_gates] assms(5)]
  show ?thesis .
next
  case (start ok)
  then show ?thesis using continues_start [OF frame(2)] assms(5) by blast
next
  case (pushed fuel n u)
  then show ?thesis using preservesD [OF continues_pushed [OF frame writes]] assms(5) by blast
next
  case (status path u)
  then show ?thesis
    using preservesD [OF api_invariant.update_status_round_inv
        [OF continues_api [OF frame(1)] continues_blind writes]] assms(5) by blast
next
  case (outside e m h w)
  then show ?thesis using assms(5) by (auto elim: continues_frame)
qed (rule preservesD [OF continues_members(1) [OF frame(1)] _ assms(5)]
    preservesD [OF continues_members(2) [OF frame(1)] _ assms(5)]
    preservesD [OF continues_members(3) [OF frame(1)] _ assms(5)]
    preservesD [OF continues_members(4) [OF frame(1)] _ assms(5)], assumption)+

lemma session_continues:
  assumes "session env s0 s" and "kii_api_frame env" and "push_frame env"
    and "\<And>h p. writes_only env h p" and "thing_ok s0"
  shows "continues s0 s"
  using assms(1)
proof induction
  case now
  show ?case using assms(5) by (simp add: continues_def)
next
  case (later t u)
  then show ?case using session_step_continues [OF assms(2-4)] by blast
qed

lemma wired_context [simp]:
  "app_context (wire_handler ch cb rc k) = ThingIfContext"
  "app_context (wire_updater su cb rc u) = ThingIfContext"
  by (simp_all add: wire_handler_def wire_updater_def)

lemma init_context:
  assumes "prv_init_kii_thing_if env appid appkey host chr sur cbr rc s0 = Inr (True, s)"
  shows "app_context (kii_of p s) = ThingIfContext"
    and "state (thing s) = KII_THING_IF_STATE_INITIALIZED"
proof -
  obtain ch cb k su u s1 x where "s = s1\<lparr>thing := x\<rparr>" and "command_handler x = wire_handler ch cb rc k"
    and "state_updater x = wire_updater su cb rc u" and "state x = KII_THING_IF_STATE_INITIALIZED"
    using init_kii_thing_if_True [OF assms] by (elim exE conjE) (metis kii_thing_if_t.select_convs(1,2,8))
  then show "app_context (kii_of p s) = ThingIfContext"
    and "state (thing s) = KII_THING_IF_STATE_INITIALIZED"
    by (cases p; simp add: kii_of_def)+
qed

lemma initialised_ok:
  assumes "initialised env s"
  shows "thing_ok s"
  using assms unfolding initialised_def
proof (elim disjE exE)
  fix appid appkey app_host chr sur cbr rc s0
  assume "init_kii_thing_if env appid appkey app_host chr sur cbr rc s0 = Inr (True, s)"
  from init_context [OF this [unfolded init_kii_thing_if_def]]
  show "thing_ok s" by (simp add: thing_ok_def)
next
  fix appid appkey app_host thing_id token chr sur cbr rc s0
  assume "init_kii_thing_if_with_onboarded_thing env appid appkey app_host thing_id token chr sur
    cbr rc s0 = Inr (True, s)"
  then obtain s1 s2 s3 where s1: "prv_init_kii_thing_if env appid appkey app_host chr sur cbr rc s0 = Inr (True, s1)"
    and s2: "set_author_of CommandHandler thing_id token s1 = Inr (True, s2)"
    and s3: "set_author_of StateUpdater thing_id token s2 = Inr (True, s3)"
    and s: "s = s3\<lparr>thing := (thing s3)\<lparr>state := KII_THING_IF_STATE_ONBOARDED\<rparr>\<rparr>"
    by (auto simp: init_kii_thing_if_with_onboarded_thing_def chain_eq_Inr split: if_splits)
  obtain i k where ik: "thing_id = Some i" "token = Some k"
    using set_author_of_None [OF s2] by auto
  have "app_context (kii_of p s3) = ThingIfContext" for p
    using s2 s3 init_context(1) [OF s1, of CommandHandler] init_context(1) [OF s1, of StateUpdater]
    by (cases p) (auto simp: set_author_of_eq_Inr kii_of_def)
  moreover have "kii_of p s = kii_of p s3" for p
    by (cases p) (simp_all add: s kii_of_def)
  ultimately show "thing_ok s"
    using set_author_of_True(3) [OF s3 [unfolded ik]] by (simp add: thing_ok_def s)
qed

section \<open>Properties\<close>

text \<open>
  C25. The life of a thing. In every state that a session reaches from a successful
  initialisation, both \<open>kii_t\<close> still lead back to the thing, to the same application and delay
  callback, the application's handlers and period are those it supplied, an onboarded thing has a
  terminated author in its state updater, the life cycle never goes back, and the state is never
  STARTED, so that the guards which test for it never fire.
\<close>

theorem session_invariant:
  assumes "kii_api_frame env" and "push_frame env" and "\<And>h p. writes_only env h p"
    and "initialised env s0" and "session env s0 s"
  shows "state (thing s) \<noteq> KII_THING_IF_STATE_STARTED \<and>
    (state (thing s) = KII_THING_IF_STATE_ONBOARDED \<longrightarrow>
       terminated (author (kii_of StateUpdater s))) \<and>
    state (thing s0) \<le> state (thing s) \<and>
    wiring (thing s) = wiring (thing s0) \<and>
    (\<forall>p. app_context (kii_of p s) = ThingIfContext \<and>
       fixed_part (kii_of p s) = fixed_part (kii_of p s0))"
  using session_continues [OF assms(5,1-3) initialised_ok [OF assms(4)]] initialised_ok [OF assms(4)]
  by (simp add: continues_def thing_ok_def life_cycle_steps)

lemma sample_push_frame: "push_frame sample_env"
  unfolding push_frame_def
proof (intro conjI allI impI)
  fix k :: "nat kii_t" and w
  show "same_identity k (fst (snd (kii_push_start_routine sample_env k w)))"
    by (simp add: sample_env_def)
next
  fix h n s ok s'
  assume "call_push_handler sample_env h CommandHandler n s = Inr (ok, s')"
  then have "s' = s" by (simp add: sample_env_def)
  then show "\<exists>k es. same_identity (kii_of CommandHandler s) k \<and>
      thing s' = put_kii CommandHandler k (thing s) \<and>
      trace s' = trace s @ es \<and> list_all (made_on CommandHandler) es"
    by (intro exI [where x = "kii_of CommandHandler s"] exI [where x = "[]"])
      (simp add: kii_of_def put_kii_other)
qed

theorem session_invariant_witness:
  "\<exists>s0 s. initialised sample_env s0 \<and> session sample_env s0 s \<and>
     state (thing s0) = KII_THING_IF_STATE_INITIALIZED \<and> wiring (thing s) = wiring (thing s0)"
proof -
  obtain s0 where s0: "prv_init_kii_thing_if sample_env (Some ''app1'') (Some ''key1'')
      (Some ''JP'') (Some sample_resource) (Some sample_updater_resource) (Some sample_system_cb)
      None sample_heap_st = Inr (True, s0)"
    using sample_prv_init by blast
  then have init: "initialised sample_env s0"
    unfolding initialised_def init_kii_thing_if_def by blast
  have "start sample_env s0 = Inr (False, s0)"
    using init_context(2) [OF s0] by (simp add: start_def)
  then have "session sample_env s0 s0"
    by (rule later [OF now session_step.start])
  then have "session sample_env s0 (s0\<lparr>err := None, msg := ''m'', heap := heap s0, world := []\<rparr>)"
    by (rule later [OF _ outside])
  from session_invariant [OF sample_frame sample_push_frame sample_writes_only init this]
    init this init_context(2) [OF s0]
  show ?thesis by blast
qed

end
