(* ===== verification/Tasks.thy ===== *)
theory Tasks
  imports Session
begin

text \<open>
  The two tasks that run after \<open>start\<close>: the one that receives pushed messages, on the command
  handler's \<open>kii_t\<close>, and the status task, on the state updater's. They share the
  \<open>kii_thing_if_t\<close>; the theorems show that neither can disturb the other's requests, and that
  neither dereferences NULL when the application supplied its callbacks.
\<close>

section \<open>What a task leaves alone\<close>

lemma quiet_made_on: "list_all quiet es \<Longrightarrow> list_all (made_on p) es"
proof (erule list.pred_mono_strong)
  show "made_on p e" if "quiet e" for e
    using that by (cases e) auto
qed

lemma grows_on_blind: "blind (grows_on p x)"
  by (auto simp: blind_def grows_on_def dest: quiet_made_on)

lemma kii_blind: "blind (\<lambda>s. kii_of p s = x)"
  by (simp add: blind_def kii_of_def)

lemma push_handler_keeps:
  assumes "push_frame env"
  shows "preserves (grows_on CommandHandler x) (call_push_handler env h CommandHandler n)"
    and "preserves (\<lambda>s. kii_of StateUpdater s = k) (call_push_handler env h CommandHandler n)"
proof -
  have frame: "\<exists>k es. thing s' = put_kii CommandHandler k (thing s) \<and>
      trace s' = trace s @ es \<and> list_all (made_on CommandHandler) es"
    if "call_push_handler env h CommandHandler n s = Inr (ok, s')" for s ok s'
    using assms that unfolding push_frame_def by blast
  show "preserves (grows_on CommandHandler x) (call_push_handler env h CommandHandler n)"
    by (rule preservesI, drule frame) (auto simp: grows_on_def)
  show "preserves (\<lambda>s. kii_of StateUpdater s = k) (call_push_handler env h CommandHandler n)"
    by (rule preservesI, drule frame) (auto simp: kii_of_def)
qed

section \<open>NULL\<close>

lemma never_get_key_null: "never NullDeref (get_key_and_value_at_index env off len i)"
  unfolding get_key_and_value_at_index_def prv_kii_thing_if_get_key_and_value_from_json_def
  by (auto intro!: never_intros split: kii_json_parse_result.split jsmn_result.split)

lemma never_call_action_Some: "never NullDeref (call_action env (Some h) al nm v)"
  by (auto simp: never_def call_action_def split: prod.splits option.splits)

lemma never_action_loop_null:
  "never NullDeref (action_loop env p (Some h) a i off len fuel j)"
proof (induction fuel arbitrary: j)
  case (Suc n)
  have "never NullDeref (handle_action env p (Some h) a i j name nl val vl)" for j name nl val vl
    unfolding handle_action_def append_error_message_def or_chain.simps
    by (intro never_intros never_call_action_Some) simp_all
  with Suc show ?case
    by (auto intro!: never_intros never_get_key_null split: prv_get_key_and_value_t.split)
qed (simp add: never_fail)

lemma avoids_results:
  "avoids I e m \<Longrightarrow> (\<And>k kl v vl. avoids I e (f k kl v vl)) \<Longrightarrow> avoids I e n \<Longrightarrow>
   avoids I e (case x of PRV_GET_KEY_AND_VALUE_SUCCESS k kl v vl \<Rightarrow> f k kl v vl
     | PRV_GET_KEY_AND_VALUE_FAIL \<Rightarrow> m | PRV_GET_KEY_AND_VALUE_FINISH \<Rightarrow> n)"
  "avoids I e q \<Longrightarrow> (\<And>z. avoids I e (g z)) \<Longrightarrow>
   avoids I e (case y of None \<Rightarrow> q | Some z \<Rightarrow> g z)"
  by (auto split: prv_get_key_and_value_t.split option.split)

text \<open>The callbacks that the two tasks call.\<close>

definition callbacks_given :: "('p, 'w) st \<Rightarrow> bool" where
  "callbacks_given s \<longleftrightarrow>
     action_handler (thing s) \<noteq> None \<and> state_handler_for_command_reaction (thing s) \<noteq> None \<and>
     state_handler_for_period (thing s) \<noteq> None \<and> delay_ms_cb (kii_of StateUpdater s) \<noteq> None"

text \<open>Callbacks that return or fault in another way.\<close>

definition handlers_safe :: "('p, 'w) env \<Rightarrow> bool" where
  "handlers_safe env \<longleftrightarrow>
     (\<forall>h p. never NullDeref (call_state_handler env h p (prv_writer env))) \<and>
     (\<forall>h p n. never NullDeref (call_push_handler env h p n))"

text \<open>Looking up the thing behind a \<open>kii_t\<close>: the link is in place, and so is the wiring.\<close>

lemma avoids_thing:
  assumes "\<And>t. wiring t = wiring (thing s0) \<Longrightarrow> avoids (continues s0) e (f t)"
  shows "avoids (continues s0) e (chain (context_thing p) f)"
  using assms unfolding avoids_def context_thing_def
  by (auto simp: continues_def thing_ok_def)

lemma wiring_callbacks:
  assumes "callbacks_given s0" and "wiring t = wiring (thing s0)"
  obtains a c d where "action_handler t = Some a" and "state_handler_for_command_reaction t = Some c"
    and "state_handler_for_period t = Some d"
  using assms by (auto simp: callbacks_given_def wiring_def)

lemma never_setter_null: "never NullDeref (prv_set_state_resource_path env a i n)"
  by (simp add: never_def setters_fault)

lemma send_state_null:
  assumes frame: "kii_api_frame env" and "callbacks_given s0" and safe: "handlers_safe env"
  shows "avoids (continues s0) NullDeref (prv_send_state env p)"
proof -
  have handler: "avoids (continues s0) NullDeref (chain (deref (state_handler_for_command_reaction t))
      (\<lambda>handler. chain (call_state_handler env handler p (prv_writer env)) (\<lambda>ok.
       if \<not> ok then ret False
       else chain (api_run env p) (\<lambda>r. if r \<noteq> 0 then ret False else ret True))))"
    if "wiring t = wiring (thing s0)" for t
    by (rule wiring_callbacks [OF assms(2) that])
      (use safe in \<open>auto simp: handlers_safe_def intro!: never_avoids never_intros\<close>)
  show ?thesis
    unfolding prv_send_state_def
    by (intro avoids_chain avoids_cases avoids_results avoids_thing handler
        api_invariant.call_intros [OF continues_api [OF frame]] preserves_intros preserves_setters
        never_avoids never_intros never_setter_null) simp_all
qed

lemma alias_loop_null:
  assumes frame: "kii_api_frame env" and "callbacks_given s0"
  shows "avoids (continues s0) NullDeref (alias_loop env p off len fuel' fuel i)"
proof (induction fuel arbitrary: i)
  case (Suc n)
  have loop: "avoids (continues s0) NullDeref
      (action_loop env p (action_handler t) a i acts alen fuel' 0)"
    if "wiring t = wiring (thing s0)" for t a acts alen
    by (rule wiring_callbacks [OF assms(2) that]) (simp add: never_avoids never_action_loop_null)
  show ?case
    unfolding alias_loop.simps
    by (intro avoids_chain avoids_cases avoids_results avoids_thing loop Suc.IH
        preserves_intros preserves_blind [OF continues_blind]
        api_invariant.action_loop_inv [OF continues_api [OF frame] continues_blind]
        never_avoids never_intros never_get_key_null) simp_all
qed (simp add: never_avoids never_fail)

lemma handle_command_null:
  assumes "kii_api_frame env" and "callbacks_given s0" and "handlers_safe env"
    and "\<And>h p. writes_only env h p"
  shows "avoids (continues s0) NullDeref (handle_command env fuel p n)"
  unfolding handle_command_def
  by (intro avoids_chain avoids_cases alias_loop_null send_state_null assms
      api_invariant.call_intros [OF continues_api [OF assms(1)]] preserves_intros
      api_invariant.alias_loop_inv [OF continues_api [OF assms(1)] continues_blind]
      api_invariant.prv_send_state_inv [OF continues_api [OF assms(1)] continues_blind assms(4)]
      never_avoids never_intros) simp_all

lemma received_callback_null:
  assumes "kii_api_frame env" and "callbacks_given s0" and "handlers_safe env"
    and "\<And>h p. writes_only env h p" and "push_frame env"
  shows "avoids (continues s0) NullDeref (received_callback env fuel CommandHandler n)"
proof -
  have push: "preserves (continues s0) (call_push_handler env h CommandHandler n)" for h
    by (rule continues_push [OF assms(5)])
  have "never NullDeref (call_push_handler env h CommandHandler n)" for h
    using assms(3) by (simp add: handlers_safe_def)
  then show ?thesis
    unfolding received_callback_def
    by (intro avoids_chain avoids_cases avoids_results avoids_thing handle_command_null assms(1-4)
        preserves_intros push never_avoids never_intros)
qed

lemma avoids_delay:
  assumes "callbacks_given s0" and "\<And>d. avoids (continues s0) e (f (Some d))"
  shows "avoids (continues s0) e (chain (gets (\<lambda>s. delay_ms_cb (kii_of StateUpdater s))) f)"
  unfolding avoids_def
proof (intro allI impI)
  fix s
  assume s: "continues s0 s"
  then obtain d where "delay_ms_cb (kii_of StateUpdater s) = Some d"
    using assms(1) by (auto simp: continues_def fixed_part_def callbacks_given_def)
  then show "chain (gets (\<lambda>s. delay_ms_cb (kii_of StateUpdater s))) f s \<noteq> Inl e"
    using avoidsD [OF assms(2) s] by simp
qed

lemma status_round_null:
  assumes "kii_api_frame env" and "callbacks_given s0" and "handlers_safe env"
  shows "avoids (continues s0) NullDeref (update_status_round env StateUpdater path)"
proof -
  have handler: "avoids (continues s0) NullDeref (chain (deref (state_handler_for_period t))
      (\<lambda>handler. chain (call_state_handler env handler StateUpdater (prv_writer env)) (\<lambda>ok.
       if \<not> ok then ret () else chain (api_run env StateUpdater) (\<lambda>_. ret ()))))"
    if "wiring t = wiring (thing s0)" for t
    by (rule wiring_callbacks [OF assms(2) that])
      (use assms(3) in \<open>auto simp: handlers_safe_def intro!: never_avoids never_intros\<close>)
  have mul: "never NullDeref (c_int_mul x y)" for x y
    by (simp add: never_def c_int_mul_def)
  have log: "never NullDeref (log_event e f)" for e f
    by (simp add: never_def log_event_def)
  show ?thesis
    unfolding update_status_round_def
    by (intro avoids_delay [OF assms(2)], simp only: deref_Some chain_ret,
        intro avoids_chain avoids_cases avoids_thing handler mul log
          api_invariant.call_intros [OF continues_api [OF assms(1)]] preserves_intros
          preserves_blind [OF continues_blind] never_avoids never_intros)
qed

section \<open>Properties\<close>

text \<open>
  C33. The two tasks do not disturb each other. Handling a pushed message never touches the state
  updater's \<open>kii_t\<close> and makes requests on the command handler only, a round of the status task
  the other way round; so however the calls of a message and of a round interleave, each
  connection sees the requests that it would have seen alone.
\<close>

theorem tasks_independent:
  assumes "push_frame env" and "\<And>h p. writes_only env h p"
    and "received_callback env fuel CommandHandler n s = Inr (u, s')"
    and "update_status_round env StateUpdater path t = Inr (v, t')"
  shows "kii_of StateUpdater s' = kii_of StateUpdater s \<and>
    kii_of CommandHandler t' = kii_of CommandHandler t \<and>
    (\<exists>xs ys. trace s' = trace s @ xs \<and> trace t' = trace t @ ys \<and>
       (\<forall>es \<in> shuffles xs ys.
          requests CommandHandler es = requests CommandHandler xs \<and>
          requests StateUpdater es = requests StateUpdater ys))"
proof -
  have "grows_on CommandHandler (trace s) s'"
    by (rule preservesD [OF own_calls.received_callback_inv [OF grows_on_blind assms(2)
          push_handler_keeps(1) [OF assms(1)]] assms(3)]) (simp add: grows_on_def)
  then obtain xs where xs: "trace s' = trace s @ xs" "list_all (made_on CommandHandler) xs"
    by (auto simp: grows_on_def)
  have "grows_on StateUpdater (trace t) t'"
    by (rule preservesD [OF own_calls.update_status_round_inv [OF grows_on_blind assms(2)]
          assms(4)]) (simp add: grows_on_def)
  then obtain ys where ys: "trace t' = trace t @ ys" "list_all (made_on StateUpdater) ys"
    by (auto simp: grows_on_def)
  have "kii_of StateUpdater s' = kii_of StateUpdater s"
    by (rule preservesD [OF updater_frame.received_callback_inv [OF kii_blind assms(2)
          push_handler_keeps(2) [OF assms(1)]] assms(3)]) simp
  moreover have "kii_of CommandHandler t' = kii_of CommandHandler t"
    by (rule preservesD [OF handler_frame.update_status_round_inv [OF kii_blind assms(2)]
          assms(4)]) simp
  ultimately show ?thesis
    using xs ys requests_shuffles [OF xs(2) ys(2)] by blast
qed

definition idle_message :: string where
  "idle_message = ''{'' @ member_text ''commandID'' ''X'' @ '','' @ dquote @ ''actions'' @ dquote @ '':[]}''"

definition idle_st :: "(nat, sample_world) st" where
  "idle_st = (sample_st KII_THING_IF_STATE_ONBOARDED [(204, []), (204, [])])\<lparr>msg := idle_message\<rparr>"

theorem tasks_independent_witness:
  "\<exists>s' t'. received_callback sample_env 10 CommandHandler (length idle_message) idle_st = Inr ((), s') \<and>
     update_status_round sample_env StateUpdater ''states'' idle_st = Inr ((), t') \<and>
     length (requests CommandHandler (trace s')) = 2 \<and>
     kii_of StateUpdater s' = kii_of CommandHandler t'"
proof -
  let ?push = "received_callback sample_env 10 CommandHandler (length idle_message) idle_st"
  let ?round = "update_status_round sample_env StateUpdater ''states'' idle_st"
  have s': "?push = Inr ((), end_state ?push)"
    by (rule returns_end_state) code_simp
  have t': "?round = Inr ((), end_state ?round)"
    by (rule returns_end_state) code_simp
  have two: "length (requests CommandHandler (trace (end_state ?push))) = 2"
    by code_simp
  have "kii_of StateUpdater idle_st = kii_of CommandHandler idle_st"
    by (simp add: idle_st_def sample_st_def sample_thing_def kii_of_def)
  with tasks_independent [OF sample_push_frame sample_writes_only s' t'] s' t' two
  show ?thesis by metis
qed

text \<open>
  C34. No NULL in the tasks. In every state of a session whose application supplied the action
  handler, the state handlers and the delay callback, neither the handling of a message, whatever
  it holds, nor a round of the status task dereferences NULL.
\<close>

theorem tasks_never_null:
  assumes "kii_api_frame env" and "push_frame env" and "\<And>h p. writes_only env h p"
    and "handlers_safe env" and "initialised env s0" and "callbacks_given s0"
    and "session env s0 s"
  shows "received_callback env fuel CommandHandler n s \<noteq> Inl NullDeref \<and>
    update_status_round env StateUpdater path s \<noteq> Inl NullDeref"
proof -
  have s: "continues s0 s"
    using session_continues [OF assms(7,1-3) initialised_ok [OF assms(5)]] .
  show ?thesis
    using avoidsD [OF received_callback_null [OF assms(1,6,4,3,2)] s]
      avoidsD [OF status_round_null [OF assms(1,6,4)] s] by blast
qed

lemma sample_handlers_safe: "handlers_safe sample_env"
  unfolding handlers_safe_def
  by (simp add: sample_env_def prv_writer_def never_intros)

theorem tasks_never_null_witness:
  "\<exists>s0 n. initialised sample_env s0 \<and>
     received_callback sample_env 10 CommandHandler n s0 \<noteq> Inl NullDeref"
proof -
  obtain s0 where s0: "prv_init_kii_thing_if sample_env (Some ''app1'') (Some ''key1'')
      (Some ''JP'') (Some sample_resource) (Some sample_updater_resource) (Some sample_system_cb)
      None sample_heap_st = Inr (True, s0)"
    using sample_prv_init by blast
  then have init: "initialised sample_env s0"
    unfolding initialised_def init_kii_thing_if_def by blast
  have given: "callbacks_given s0"
    using init_kii_thing_if_True [OF s0]
    by (auto simp: callbacks_given_def kii_of_def wire_updater_def sample_resource_def
        sample_updater_resource_def sample_system_cb_def)
  from tasks_never_null [OF sample_frame sample_push_frame sample_writes_only
      sample_handlers_safe init given now] init
  show ?thesis by blast
qed

end
