(* ===== verification/Command_Spec.thy ===== *)
theory Command_Spec
  imports Command_Frame
begin

text \<open>
  What a command means and that \<open>handle_command\<close> does it. A message is described by the spans
  that the JSON reader and jsmn find in it (\<open>command_from\<close>); the description determines the calls
  of the action handler (\<open>command_steps\<close>) and, with the handler's outcomes, the calls of the
  library and the body of the results request.
\<close>

section \<open>Descriptions of arrays\<close>

text \<open>
  \<open>item_at env T i = Some (k, kl, v, vl)\<close>: element \<open>i\<close> of the array in the text \<open>T\<close> is an object whose
  first member has its name at \<open>k\<close> with length \<open>kl\<close> and its value at \<open>v\<close> with length \<open>vl\<close>.
\<close>

definition index_field :: "('p, 'w) env \<Rightarrow> nat \<Rightarrow> kii_json_field_t" where
  "index_field env i =
     (field_by_path env (''/['' @ show_nat i @ '']'') KII_JSON_FIELD_TYPE_OBJECT None)
       \<lparr>jf_result := KII_JSON_FIELD_PARSE_SUCCESS\<rparr>"

definition index_fits :: "('p, 'w) env \<Rightarrow> nat \<Rightarrow> bool" where
  "index_fits env i \<longleftrightarrow> length (''/['' @ show_nat i @ '']'') < ulongbufsize env"

definition pair_of :: "('p, 'w) env \<Rightarrow> string \<Rightarrow> (nat \<times> nat \<times> nat \<times> nat) option" where
  "pair_of env t =
     (case jsmn_parse env t (token_num env) of
        (JSMN_count _, t0 # t1 # t2 # _) \<Rightarrow>
          if tok_type t0 = JSMN_OBJECT \<and> tok_type t1 = JSMN_STRING \<and>
             0 \<le> tok_start t1 \<and> tok_start t1 \<le> tok_end t1 \<and>
             0 \<le> tok_start t2 \<and> tok_start t2 \<le> tok_end t2
          then Some (nat (tok_start t1), nat (tok_end t1 - tok_start t1),
                     nat (tok_start t2), nat (tok_end t2 - tok_start t2))
          else None
      | _ \<Rightarrow> None)"

definition item_at ::
  "('p, 'w) env \<Rightarrow> string \<Rightarrow> nat \<Rightarrow> (nat \<times> nat \<times> nat \<times> nat) option" where
  "item_at env T i =
     (if index_fits env i then
        (case kii_json_read_object env T [index_field env i] of
           (KII_JSON_PARSE_SUCCESS, f # _) \<Rightarrow>
             if jf_start f \<le> jf_end f \<and> jf_end f \<le> length T then
               map_option (\<lambda>(k, kl, v, vl). (jf_start f + k, kl, jf_start f + v, vl))
                 (pair_of env (take (jf_end f - jf_start f) (drop (jf_start f) T)))
             else None
         | _ \<Rightarrow> None)
      else None)"

definition ends_at :: "('p, 'w) env \<Rightarrow> string \<Rightarrow> nat \<Rightarrow> bool" where
  "ends_at env T i \<longleftrightarrow> index_fits env i \<and>
     fst (kii_json_read_object env T [index_field env i]) = KII_JSON_PARSE_PARTIAL_SUCCESS"

definition pair_in :: "string \<Rightarrow> nat \<times> nat \<times> nat \<times> nat \<Rightarrow> bool" where
  "pair_in T x = (case x of (k, kl, v, vl) \<Rightarrow> k + kl < v \<and> v + vl < length T)"

definition key_text :: "string \<Rightarrow> nat \<times> nat \<times> nat \<times> nat \<Rightarrow> string" where
  "key_text T x = (case x of (k, kl, v, vl) \<Rightarrow> take kl (drop k T))"

definition value_text :: "string \<Rightarrow> nat \<times> nat \<times> nat \<times> nat \<Rightarrow> string" where
  "value_text T x = (case x of (k, kl, v, vl) \<Rightarrow> take vl (drop v T))"

primrec items_from ::
  "('p, 'w) env \<Rightarrow> string \<Rightarrow> nat \<Rightarrow> (nat \<times> nat \<times> nat \<times> nat) list \<Rightarrow> bool" where
  "items_from env T i [] \<longleftrightarrow> ends_at env T i"
| "items_from env T i (x # xs) \<longleftrightarrow>
     item_at env T i = Some x \<and> pair_in T x \<and> items_from env T (Suc i) xs"

text \<open>The array of aliases, each with the description of its array of actions.\<close>

type_synonym alias_items = "(nat \<times> nat \<times> nat \<times> nat) \<times> (nat \<times> nat \<times> nat \<times> nat) list"

primrec aliases_from :: "('p, 'w) env \<Rightarrow> string \<Rightarrow> nat \<Rightarrow> alias_items list \<Rightarrow> bool" where
  "aliases_from env T i [] \<longleftrightarrow> ends_at env T i"
| "aliases_from env T i (x # xs) \<longleftrightarrow>
     item_at env T i = Some (fst x) \<and> pair_in T (fst x) \<and>
     items_from env (value_text T (fst x)) 0 (snd x) \<and> aliases_from env T (Suc i) xs"

section \<open>What a described command asks for\<close>

text \<open>One action: whether a comma precedes its result, the alias, the action and its value.\<close>

type_synonym step = "bool \<times> string \<times> string \<times> string"

primrec action_steps ::
  "nat \<Rightarrow> nat \<Rightarrow> string \<Rightarrow> string \<Rightarrow> (nat \<times> nat \<times> nat \<times> nat) list \<Rightarrow> step list" where
  "action_steps i j al T [] = []"
| "action_steps i j al T (x # xs) =
     (i > 0 \<or> j > 0, al, key_text T x, value_text T x) # action_steps i (Suc j) al T xs"

primrec command_steps :: "nat \<Rightarrow> string \<Rightarrow> alias_items list \<Rightarrow> step list" where
  "command_steps i T [] = []"
| "command_steps i T (x # xs) =
     action_steps i 0 (key_text T (fst x)) (value_text T (fst x)) (snd x) @
     command_steps (Suc i) T xs"

text \<open>
  The outcome of an action: the handler's result and message, and what the library returned for
  the comma. The events of an action whose result was written.
\<close>

type_synonym outcome = "bool \<times> string option \<times> int"

definition result_chunks :: "string \<Rightarrow> bool \<Rightarrow> string option \<Rightarrow> string list" where
  "result_chunks nm succeeded e =
     [''{'' @ dquote, nm, dquote @ '':{''] @
     kv_chunks ''succeeded'' (if succeeded then ''true'' else ''false'') False False @
     opt_chunks ''errorMessage'' (if succeeded then None else e) True @ [''}}'']"

fun step_events :: "kii_ptr \<Rightarrow> step \<Rightarrow> outcome \<Rightarrow> event list" where
  "step_events p (comma, al, nm, v) (succeeded, e, r) =
     ActionCall al nm v succeeded e #
     (if comma then [ApiAppend p '','' r] else []) @
     map (\<lambda>c. ApiAppend p c 0) (result_chunks nm succeeded e)"

fun said :: "outcome \<Rightarrow> bool" where
  "said (succeeded, e, r) \<longleftrightarrow> succeeded \<or> e \<noteq> None"

definition steps_events :: "kii_ptr \<Rightarrow> step list \<Rightarrow> outcome list \<Rightarrow> event list" where
  "steps_events p xs os = concat (map2 (step_events p) xs os)"

text \<open>The handler calls in a list of events.\<close>

definition handler_calls_of :: "event list \<Rightarrow> (string \<times> string \<times> string) list" where
  "handler_calls_of es =
     concat (map (\<lambda>e. case e of ActionCall al nm v _ _ \<Rightarrow> [(al, nm, v)] | _ \<Rightarrow> []) es)"

lemma handler_calls_of_simps [simp]:
  "handler_calls_of [] = []"
  "handler_calls_of (ActionCall al nm v ok e # es) = (al, nm, v) # handler_calls_of es"
  "handler_calls_of (ApiAppend p b q # es) = handler_calls_of es"
  "handler_calls_of (ApiStart p m u ct au q # es) = handler_calls_of es"
  "handler_calls_of (ApiRun p q # es) = handler_calls_of es"
  "handler_calls_of (es @ fs) = handler_calls_of es @ handler_calls_of fs"
  by (simp_all add: handler_calls_of_def)

lemma handler_calls_of_appends: "handler_calls_of (map (\<lambda>c. ApiAppend p c r) cs) = []"
  by (induction cs) simp_all

lemma handler_calls_appends_only: "appends_only p es \<Longrightarrow> handler_calls_of es = []"
  by (induction es) (auto simp: appends_only_def split: event.splits)

lemma handler_calls_step_events: "handler_calls_of (step_events p x o1) = [snd x]"
  by (cases x; cases o1) (simp add: handler_calls_of_appends)

lemma handler_calls_steps:
  "length xs = length os \<Longrightarrow> handler_calls_of (steps_events p xs os) = map snd xs"
  by (induction xs os rule: list_induct2)
    (simp_all add: steps_events_def handler_calls_step_events)

lemma steps_events_simps [simp]:
  "steps_events p [] os = []"
  "steps_events p (x # xs) (o1 # os) = step_events p x o1 @ steps_events p xs os"
  by (simp_all add: steps_events_def)

lemma steps_events_append:
  "length xs = length os \<Longrightarrow>
     steps_events p (xs @ ys) (os @ qs) = steps_events p xs os @ steps_events p ys qs"
  by (simp add: steps_events_def)

text \<open>The answers of the handler in a list of events, and the answer in an outcome.\<close>

definition answers_of :: "event list \<Rightarrow> (bool \<times> string option) list" where
  "answers_of es =
     concat (map (\<lambda>e. case e of ActionCall _ _ _ succeeded m \<Rightarrow> [(succeeded, m)] | _ \<Rightarrow> []) es)"

definition answer :: "outcome \<Rightarrow> bool \<times> string option" where
  "answer x = (fst x, fst (snd x))"

lemma answers_of_simps [simp]:
  "answers_of [] = []"
  "answers_of (ActionCall al nm v ok e # es) = (ok, e) # answers_of es"
  "answers_of (ApiAppend p b q # es) = answers_of es"
  "answers_of (ApiStart p m u ct au q # es) = answers_of es"
  "answers_of (ApiRun p q # es) = answers_of es"
  "answers_of (es @ fs) = answers_of es @ answers_of fs"
  by (simp_all add: answers_of_def)

lemma answers_calls: "handler_calls_of es = [] \<longleftrightarrow> answers_of es = []"
  by (induction es) (auto simp: answers_of_def handler_calls_of_def split: event.split)

lemma answers_steps:
  "length xs = length os \<Longrightarrow> answers_of (steps_events p xs os) = map answer os"
proof (induction xs os rule: list_induct2)
  case (Cons x xs o1 os)
  then show ?case
    by (cases x; cases o1)
      (use answers_calls [THEN iffD1, OF handler_calls_of_appends] in \<open>auto simp: answer_def\<close>)
qed simp

text \<open>An answer in the record is one that a handler of the application gave.\<close>

fun given :: "('p, 'w) env \<Rightarrow> event \<Rightarrow> bool" where
  "given env (ActionCall al nm v succeeded m) \<longleftrightarrow>
     (\<exists>h w. fst (call_action_handler env h al nm v w) = (succeeded, m))"
| "given env e \<longleftrightarrow> True"

definition all_given :: "('p, 'w) env \<Rightarrow> event list \<Rightarrow> ('p, 'w) st \<Rightarrow> bool" where
  "all_given env x s \<longleftrightarrow> (\<exists>es. trace s = x @ es \<and> list_all (given env) es)"

interpretation given_frame: api_invariant env p "all_given env x"
  for env :: "('p, 'w) env" and p x
  by unfold_locales
    (auto intro!: preservesI dest!: call_kii_trace simp: api_defs all_given_def)

lemma all_given_actions: "keeps_actions env (all_given env x)"
proof -
  have "preserves (all_given env x) (call_action env h al nm v)" for h al nm v
  proof (cases h)
    case (Some f)
    show ?thesis
    proof (rule preservesI)
      fix s r s'
      assume "all_given env x s" and call: "call_action env h al nm v s = Inr (r, s')"
      then obtain es where es: "trace s = x @ es" "list_all (given env) es"
        by (auto simp: all_given_def)
      obtain ok e w where answer: "call_action_handler env f al nm v (world s) = ((ok, e), w)"
        by (metis surj_pair)
      then have "fst (call_action_handler env f al nm v (world s)) = (ok, e)" by simp
      then have "given env (ActionCall al nm v ok e)" unfolding given.simps by blast
      moreover have "trace s' = trace s @ [ActionCall al nm v ok e]"
        using call Some answer by (auto simp: call_action_def split: option.splits if_splits)
      ultimately show "all_given env x s'" using es by (auto simp: all_given_def)
    qed
  qed (simp add: preserves_def call_action_def)
  moreover have "preserves (all_given env x) (set_char i c)" for i c
    by (auto simp: preserves_def set_char_def all_given_def split: if_splits)
  ultimately show ?thesis by (simp add: keeps_actions_def)
qed

lemma command_given:
  assumes "\<And>h. writes_only env h p" and "handle_command env fuel p n s = Inr (u, s')"
    and "trace s' = trace s @ es"
  shows "list_all (given env) es"
proof -
  have "preserves (all_given env (trace s)) (handle_command env fuel p n)"
    by (intro given_frame.handle_command_keeps all_given_actions given_frame.handler_inv assms(1))
      (simp add: all_given_def)
  from preservesD [OF this assms(2)] assms(3) show ?thesis by (simp add: all_given_def)
qed

section \<open>Reading the buffer\<close>

lemma take_drop_sub:
  "b + n \<le> len \<Longrightarrow> take n (drop b (take len (drop off xs))) = take n (drop (off + b) xs)"
  by (simp add: drop_take min_def add.commute)

lemma take_drop_update:
  "i < off \<or> off + n \<le> i \<Longrightarrow> take n (drop off (xs[i := c])) = take n (drop off xs)"
  by (auto simp: list_eq_iff_nth_eq nth_list_update)

lemma c_str_span:
  assumes "off + n < length xs" and "xs ! (off + n) = NUL" and "NUL \<notin> set (take n (drop off xs))"
  shows "c_str (drop off xs) = take n (drop off xs)" and "NUL \<in> set (drop off xs)"
proof -
  have eq: "drop off xs = take n (drop off xs) @ NUL # drop (off + Suc n) xs"
    using assms(1,2) by (metis Cons_nth_drop_Suc add_Suc_right append_take_drop_id drop_drop add.commute)
  show "c_str (drop off xs) = take n (drop off xs)"
    using c_str_append_NUL [OF assms(3), of "drop (off + Suc n) xs"] eq by metis
  show "NUL \<in> set (drop off xs)"
    by (subst eq) simp
qed

lemma NUL_sub: "NUL \<notin> set T \<Longrightarrow> NUL \<notin> set (take n (drop off T))"
  by (meson in_set_dropD in_set_takeD)

lemma list_update_restore:
  "i < length xs \<Longrightarrow> xs[i := a, i := xs ! i] = xs"
  by simp

lemma two_updates_restore:
  "i < length xs \<Longrightarrow> j < length xs \<Longrightarrow>
     (xs[i := a, j := b])[i := xs ! i, j := xs ! j] = xs"
  by (auto simp: list_eq_iff_nth_eq nth_list_update)

section \<open>One element of an array\<close>

lemma buf_text_apply: "off + len \<le> length (msg s) \<Longrightarrow>
    buf_text off len s = Inr (take len (drop off (msg s)), s)"
  by (simp add: buf_text_def)

lemma pair_of_run:
  assumes "pair_of env (take len (drop off (msg s))) = Some (k, kl, v, vl)"
    and "off + len \<le> length (msg s)"
  shows "prv_kii_thing_if_get_key_and_value_from_json env off len s =
    Inr (Some (off + k, kl, off + v, vl), s)"
  using assms
  by (auto simp: prv_kii_thing_if_get_key_and_value_from_json_def pair_of_def buf_text_apply
      token_at_def tok_span_def split: prod.splits jsmn_result.splits list.splits if_splits)

lemma get_item:
  assumes "item_at env T i = Some (k, kl, v, vl)" and T: "T = take len (drop off (msg s))"
    and "off + len \<le> length (msg s)"
  shows "get_key_and_value_at_index env off len i s =
    Inr (PRV_GET_KEY_AND_VALUE_SUCCESS (off + k) kl (off + v) vl, s)"
proof -
  obtain f fs b q where read: "kii_json_read_object env T [index_field env i] =
      (KII_JSON_PARSE_SUCCESS, f # fs)"
    and fits: "index_fits env i" and b: "b = jf_start f" "b \<le> jf_end f" "jf_end f \<le> length T"
    and q: "pair_of env (take (jf_end f - b) (drop b T)) = Some q"
      "(case q of (k', kl', v', vl') \<Rightarrow> k = b + k' \<and> kl = kl' \<and> v = b + v' \<and> vl = vl')"
    using assms(1)
    by (auto simp: item_at_def split: prod.splits kii_json_parse_result.splits list.splits if_splits)
  have sub: "take (jf_end f - b) (drop b T) = take (jf_end f - b) (drop (off + b) (msg s))"
    unfolding T by (rule take_drop_sub) (use b assms(3) T in auto)
  have "prv_kii_thing_if_get_key_and_value_from_json env (off + b) (jf_end f - b) s =
      Inr (Some (off + k, kl, off + v, vl), s)"
    using pair_of_run [where off = "off + b" and len = "jf_end f - b" and s = s and env = env] q b
      assms(3) T unfolding sub by (auto simp: add.assoc)
  then show ?thesis
    using read fits b assms(3) unfolding T
    by (simp add: get_key_and_value_at_index_def sprintf_buf_def index_fits_def index_field_def
        buf_text_apply prv_kii_thing_if_json_read_object_def field_at_def span_len_def)
qed

lemma get_end:
  assumes "ends_at env T i" and T: "T = take len (drop off (msg s))"
    and "off + len \<le> length (msg s)"
  shows "get_key_and_value_at_index env off len i s = Inr (PRV_GET_KEY_AND_VALUE_FINISH, s)"
  using assms(1,3) unfolding T
  by (auto simp: ends_at_def get_key_and_value_at_index_def sprintf_buf_def index_fits_def
      index_field_def buf_text_apply prv_kii_thing_if_json_read_object_def case_prod_beta)

section \<open>One action\<close>

lemma api_append_msg: "api_append env p b s = Inr (r, s') \<Longrightarrow> msg s' = msg s"
  unfolding api_append_def by (rule call_kii_msg)

lemma append_chunks_msg: "append_chunks env p cs s = Inr (r, s') \<Longrightarrow> msg s' = msg s"
  by (rule preservesD [OF msg_frame.append_chunks_inv]) simp_all

lemma cstr_at_eq_Inr:
  "cstr_at off s = Inr (x, s') \<longleftrightarrow>
     NUL \<in> set (drop off (msg s)) \<and> x = c_str (drop off (msg s)) \<and> s' = s"
  by (auto simp: cstr_at_def cstr_eq_Inr)

text \<open>The appends of one result in \<open>handle_action\<close>.\<close>

abbreviation result_writes ::
  "('p, 'w) env \<Rightarrow> kii_ptr \<Rightarrow> nat \<Rightarrow> bool \<Rightarrow> string option \<Rightarrow> (('p, 'w) st, bool) prog" where
  "result_writes env p name ok e \<equiv> or_chain
     [api_append env p (''{'' @ dquote),
      chain (cstr_at name) (\<lambda>nm. api_append env p nm),
      api_append env p (dquote @ '':{''),
      prv_append_key_value_bool env p (Some ''succeeded'') ok False,
      append_error_message env p ok e,
      api_append env p ''}}'']"

text \<open>The result of an action, once it is written.\<close>

lemma result_written:
  assumes "result_writes env p name ok e s = Inr (False, s')"
    and nm: "c_str (drop name (msg s)) = nm"
  shows "append_chunks env p (result_chunks nm ok e) s = Inr (0, s')" and "ok \<or> e \<noteq> None"
proof -
  obtain s1 s2 s3 s4 s5
    where a1: "api_append env p (''{'' @ dquote) s = Inr (0, s1)"
      and a2: "chain (cstr_at name) (\<lambda>nm. api_append env p nm) s1 = Inr (0, s2)"
      and a3: "api_append env p (dquote @ '':{'') s2 = Inr (0, s3)"
      and a4: "prv_append_key_value_bool env p (Some ''succeeded'') ok False s3 = Inr (0, s4)"
      and a5: "append_error_message env p ok e s4 = Inr (0, s5)"
      and a6: "api_append env p ''}}'' s5 = Inr (0, s')"
    using assms(1) by (auto simp only: or_chain_ok or_chain.simps(1) ret_apply sum.inject prod.inject)
  show said: "ok \<or> e \<noteq> None"
    using a5 by (cases e) (auto simp: append_error_message_def chain_eq_Inr simp del: or_chain.simps
        split: if_splits)
  have a2': "api_append env p nm s1 = Inr (0, s2)"
    using a2 nm api_append_msg [OF a1] by (auto simp: chain_eq_Inr cstr_at_eq_Inr)
  have a5': "append_chunks env p (opt_chunks ''errorMessage'' (if ok then None else e) True) s4
      = Inr (0, s5)"
    using a5 said by (auto simp: append_error_message_def prv_append_optional_chunks
        split: if_splits option.splits)
  have "append_chunks env p ([''{'' @ dquote, nm, dquote @ '':{'']) s = Inr (0, s3)"
    using a1 a2' a3 by (simp add: chain_apply_Inr)
  from append_chunks_appI [OF this append_chunks_appI
      [OF a4 [unfolded prv_append_key_value_bool_chunks] append_chunks_appI [OF a5', of "[''}}'']"]]]
  show "append_chunks env p (result_chunks nm ok e) s = Inr (0, s')"
    using a6 by (simp add: result_chunks_def)
qed

lemma result_appends:
  assumes "result_writes env p name ok e s = Inr (x, s')"
  shows "\<exists>es. trace s' = trace s @ es \<and> appends_only p es" and "msg s' = msg s"
proof -
  have pres: "preserves I (result_writes env p name ok e)"
    if "append_invariant env p I" for I
    unfolding append_error_message_def or_chain.simps
    by (intro preserves_intros append_invariant.append_intros [OF that])
  show "\<exists>es. trace s' = trace s @ es \<and> appends_only p es"
    using preservesD [OF pres [OF append_trace.append_invariant_axioms] assms, of "trace s"]
    by (simp add: appends_only_def)
  show "msg s' = msg s"
    using preservesD [OF pres [OF msg_frame.append_invariant_axioms] assms refl] by simp
qed

lemma call_action_eq_Inr:
  assumes "call_action env handler al nm v s = Inr ((ok, e), s')"
  shows "trace s' = trace s @ [ActionCall al nm v ok e] \<and> msg s' = msg s \<and> thing s' = thing s"
proof -
  obtain b m w where "call_action_handler env (the handler) al nm v (world s) = ((b, m), w)"
    by (metis surj_pair)
  with assms show ?thesis
    by (cases handler; cases m) (auto simp: call_action_def split: if_splits)
qed

lemma handle_action_outcome:
  assumes run: "handle_action env p h alias_name i j name nl val vl s = Inr (ok, s')"
    and al: "alias_name + alen < name" "msg s ! (alias_name + alen) = NUL"
      "NUL \<notin> set (take alen (drop alias_name (msg s)))"
    and pair: "name + nl < val" "val + vl < length (msg s)"
      "NUL \<notin> set (take nl (drop name (msg s)))" "NUL \<notin> set (take vl (drop val (msg s)))"
    and x: "x = (i > 0 \<or> j > 0, take alen (drop alias_name (msg s)), take nl (drop name (msg s)),
      take vl (drop val (msg s)))"
  shows "if ok then msg s' = msg s \<and> (\<exists>o1. said o1 \<and> trace s' = trace s @ step_events p x o1)
    else \<exists>succeeded e es. trace s' =
      trace s @ ActionCall (fst (snd x)) (fst (snd (snd x))) (snd (snd (snd x))) succeeded e # es \<and>
      appends_only p es"
proof -
  let ?m = "msg s" and ?a = "alias_name"
  let ?m' = "?m[name + nl := NUL, val + vl := NUL]"
  let ?al = "take alen (drop ?a ?m)" and ?nm = "take nl (drop name ?m)" and ?v = "take vl (drop val ?m)"
  have same: "take alen (drop ?a ?m') = ?al" "take nl (drop name ?m') = ?nm" "take vl (drop val ?m') = ?v"
    using al pair by (simp_all add: take_drop_update)
  have str_al: "c_str (drop ?a ?m') = ?al"
    using c_str_span(1) [of ?a alen ?m'] same al pair by (simp add: nth_list_update)
  have str_nm: "c_str (drop name ?m') = ?nm"
    using c_str_span(1) [of name nl ?m'] same pair by (simp add: nth_list_update)
  have str_v: "c_str (drop val ?m') = ?v"
    using c_str_span(1) [of val vl ?m'] same pair by (simp add: nth_list_update)
  obtain b e s1 s2 s3 failed
    where call: "call_action env h ?al ?nm ?v (s\<lparr>msg := ?m'\<rparr>) = Inr ((b, e), s1)"
      and comma: "(if i > 0 \<or> j > 0 then chain (api_append env p '','') (\<lambda>_. ret ()) else ret ()) s1
        = Inr ((), s2)"
      and res: "result_writes env p name b e s2 = Inr (failed, s3)"
      and fin: "if failed then \<not> ok \<and> s' = s3
        else ok \<and> name + nl < length (msg s3) \<and> val + vl < length (msg s3) \<and>
          s' = s3\<lparr>msg := (msg s3)[name + nl := ?m ! (name + nl), val + vl := ?m ! (val + vl)]\<rparr>"
    using run pair unfolding handle_action_def
    by (auto simp: chain_eq_Inr get_char_def set_char_def cstr_at_eq_Inr str_al str_nm str_v
        simp del: or_chain.simps split: if_splits)
  note c = call_action_eq_Inr [OF call]
  obtain r where tr2: "trace s2 = trace s @ ActionCall ?al ?nm ?v b e #
      (if i > 0 \<or> j > 0 then [ApiAppend p '','' r] else [])" and m2: "msg s2 = ?m'"
    using comma c by (auto simp: chain_eq_Inr api_append_def call_kii_eq_Inr split: if_splits)
  show ?thesis
  proof (cases failed)
    case True
    with fin result_appends(1) [OF res] tr2 x show ?thesis
      by (auto simp: appends_only_def)
  next
    case False
    have res': "result_writes env p name b e s2 = Inr (False, s3)"
      using res False by simp
    have m3: "msg s3 = ?m'" using result_appends(2) [OF res] m2 by simp
    have ok: ok and s': "s' = s3\<lparr>msg := (msg s3)[name + nl := ?m ! (name + nl), val + vl := ?m ! (val + vl)]\<rparr>"
      using fin False by auto
    have "msg s' = ?m"
      using s' m3 pair by (simp add: two_updates_restore)
    moreover have "trace s' = trace s @ step_events p x (b, e, r)"
      using append_chunks_ok_trace [OF result_written(1) [OF res', of ?nm]] m2 str_nm tr2 s' x by simp
    moreover have "said (b, e, r)"
      using result_written(2) [OF res', of ?nm] m2 str_nm by simp
    ultimately show ?thesis using ok by auto
  qed
qed

section \<open>The loops\<close>

text \<open>
  The events of a run that was cut short: some steps went through, and the writing of the next
  one's result was refused.
\<close>

definition stopped_in :: "kii_ptr \<Rightarrow> step list \<Rightarrow> event list \<Rightarrow> bool" where
  "stopped_in p xs es \<longleftrightarrow>
     (\<exists>ys c al nm v zs os succeeded e rest. xs = ys @ (c, al, nm, v) # zs \<and>
        length os = length ys \<and>
        es = steps_events p ys os @ ActionCall al nm v succeeded e # rest \<and> appends_only p rest)"

lemma stopped_in_first:
  "appends_only p rest \<Longrightarrow>
     stopped_in p (x # xs)
       (ActionCall (fst (snd x)) (fst (snd (snd x))) (snd (snd (snd x))) succeeded e # rest)"
  unfolding stopped_in_def
  by (rule exI [where x = "[]"], cases x) (auto intro: exI [where x = "[]"])

lemma stopped_in_later:
  assumes "stopped_in p zs es" and "length os = length ys"
  shows "stopped_in p (ys @ zs) (steps_events p ys os @ es)"
proof -
  obtain xs c al nm v ws qs succeeded e rest where "zs = xs @ (c, al, nm, v) # ws"
    "length qs = length xs" "es = steps_events p xs qs @ ActionCall al nm v succeeded e # rest"
    "appends_only p rest"
    using assms(1) unfolding stopped_in_def by blast
  with assms(2) show ?thesis
    unfolding stopped_in_def
    by (intro exI [where x = "ys @ xs"] exI [where x = c] exI [where x = al] exI [where x = nm]
        exI [where x = v] exI [where x = ws] exI [where x = "os @ qs"] exI [where x = succeeded]
        exI [where x = e] exI [where x = rest])
      (simp add: steps_events_append)
qed

lemma stopped_in_more: "stopped_in p xs es \<Longrightarrow> stopped_in p (xs @ ys) es"
  unfolding stopped_in_def by (metis append_Cons append_assoc)

lemma appends_no_run: "appends_only p es \<Longrightarrow> list_all (\<lambda>e. case e of ApiRun _ _ \<Rightarrow> False | _ \<Rightarrow> True) es"
  by (induction es) (auto simp: appends_only_def split: event.splits)

lemma steps_events_no_run:
  "list_all (\<lambda>e. case e of ApiRun _ _ \<Rightarrow> False | _ \<Rightarrow> True) (steps_events p xs os)"
proof (induction xs os rule: list_induct2')
  case (4 x xs o1 os)
  then show ?case by (cases x; cases o1) (auto simp: list_all_iff)
qed (simp_all add: steps_events_def)

lemma stopped_in_no_run:
  "stopped_in p xs es \<Longrightarrow> list_all (\<lambda>e. case e of ApiRun _ _ \<Rightarrow> False | _ \<Rightarrow> True) es"
  by (auto simp: stopped_in_def steps_events_no_run appends_no_run)

text \<open>The calls of a run that was cut short are the first ones asked for.\<close>

lemma stopped_in_calls:
  assumes "stopped_in p xs es"
  shows "\<exists>n < length xs. handler_calls_of es = take (Suc n) (map snd xs)"
proof -
  obtain ys c al nm v zs os succeeded e rest where "xs = ys @ (c, al, nm, v) # zs"
    "length os = length ys" "es = steps_events p ys os @ ActionCall al nm v succeeded e # rest"
    "appends_only p rest"
    using assms unfolding stopped_in_def by blast
  then show ?thesis
    by (intro exI [where x = "length ys"]) (simp add: handler_calls_steps handler_calls_appends_only)
qed

lemma action_loop_outcome:
  assumes "items_from env T j its" and T: "T = take len (drop off (msg s))"
    and len: "off + len \<le> length (msg s)" and nul: "NUL \<notin> set T"
    and al: "al + alen < off" "msg s ! (al + alen) = NUL" "NUL \<notin> set (take alen (drop al (msg s)))"
    and "action_loop env p h al i off len fuel j s = Inr (ok, s')"
  shows "if ok then msg s' = msg s \<and> (\<exists>os. length os = length its \<and> list_all said os \<and>
      trace s' = trace s @
        steps_events p (action_steps i j (take alen (drop al (msg s))) T its) os)
    else \<exists>es. trace s' = trace s @ es \<and>
      stopped_in p (action_steps i j (take alen (drop al (msg s))) T its) es"
  using assms(1,8) T len al
proof (induction its arbitrary: j s fuel)
  case Nil
  then obtain n where fuel: "fuel = Suc n" by (cases fuel) auto
  have "get_key_and_value_at_index env off len j s = Inr (PRV_GET_KEY_AND_VALUE_FINISH, s)"
    using get_end [OF _ Nil.prems(3,4)] Nil.prems(1) by simp
  with Nil.prems(2) show ?case by (simp add: fuel)
next
  case (Cons x its)
  let ?al = "take alen (drop al (msg s))"
  obtain k kl v vl where x: "x = (k, kl, v, vl)" by (cases x) auto
  obtain n where fuel: "fuel = Suc n" using Cons.prems(2) by (cases fuel) auto
  have item: "get_key_and_value_at_index env off len j s =
      Inr (PRV_GET_KEY_AND_VALUE_SUCCESS (off + k) kl (off + v) vl, s)"
    using get_item [OF _ Cons.prems(3,4)] Cons.prems(1) x by simp
  have pair: "k + kl < v" "v + vl < len"
    using Cons.prems(1,3,4) x by (auto simp: pair_in_def)
  have sub: "take kl (drop (off + k) (msg s)) = take kl (drop k T)"
    "take vl (drop (off + v) (msg s)) = take vl (drop v T)"
    unfolding Cons.prems(3) using pair by (simp_all add: take_drop_sub)
  obtain b t where act: "handle_action env p h al i j (off + k) kl (off + v) vl s = Inr (b, t)"
    and rest: "(if \<not> b then ret False else action_loop env p h al i off len n (Suc j)) t = Inr (ok, s')"
    using Cons.prems(2) item by (auto simp: fuel chain_eq_Inr)
  have step: "(i > 0 \<or> j > 0, ?al, key_text T x, value_text T x) =
      (i > 0 \<or> j > 0, ?al, take kl (drop (off + k) (msg s)), take vl (drop (off + v) (msg s)))"
    by (simp add: x key_text_def value_text_def sub)
  have out: "if b then msg t = msg s \<and> (\<exists>o1. said o1 \<and>
        trace t = trace s @ step_events p (i > 0 \<or> j > 0, ?al, key_text T x, value_text T x) o1)
      else \<exists>succeeded e es. trace t = trace s @
        ActionCall ?al (key_text T x) (value_text T x) succeeded e # es \<and> appends_only p es"
  proof -
    have "al + alen < off + k" "off + k + kl < off + v" "off + v + vl < length (msg s)"
      "NUL \<notin> set (take kl (drop (off + k) (msg s)))"
      "NUL \<notin> set (take vl (drop (off + v) (msg s)))"
      using Cons.prems(4,5) pair NUL_sub [OF nul] sub by auto
    from handle_action_outcome [OF act this(1) Cons.prems(6,7) this(2-5) step]
    show ?thesis by (simp only: fst_conv snd_conv)
  qed
  show ?case
  proof (cases b)
    case False
    with out rest stopped_in_first [of p _ "(i > 0 \<or> j > 0, ?al, key_text T x, value_text T x)"]
    show ?thesis by auto
  next
    case True
    then obtain o1 where o1: "msg t = msg s" "said o1"
      "trace t = trace s @ step_events p (i > 0 \<or> j > 0, ?al, key_text T x, value_text T x) o1"
      using out by auto
    have r: "action_loop env p h al i off len n (Suc j) t = Inr (ok, s')"
      using rest True by simp
    have IH: "if ok then msg s' = msg s \<and> (\<exists>os. length os = length its \<and> list_all said os \<and>
        trace s' = trace t @ steps_events p (action_steps i (Suc j) ?al T its) os)
      else \<exists>es. trace s' = trace t @ es \<and> stopped_in p (action_steps i (Suc j) ?al T its) es"
      by (rule Cons.IH [OF _ r, unfolded o1(1)]) (use Cons.prems in simp_all)
    show ?thesis
    proof (cases ok)
      case True
      with IH obtain os where "msg s' = msg s" "length os = length its" "list_all said os"
        "trace s' = trace t @ steps_events p (action_steps i (Suc j) ?al T its) os" by auto
      with True o1 show ?thesis by (auto intro: exI [where x = "o1 # os"])
    next
      case False
      with IH obtain es where es: "trace s' = trace t @ es"
        "stopped_in p (action_steps i (Suc j) ?al T its) es" by auto
      have "stopped_in p ([(i > 0 \<or> j > 0, ?al, key_text T x, value_text T x)] @
          action_steps i (Suc j) ?al T its)
        (steps_events p [(i > 0 \<or> j > 0, ?al, key_text T x, value_text T x)] [o1] @ es)"
        by (rule stopped_in_later [OF es(2)]) simp
      with False es(1) o1(3) show ?thesis by auto
    qed
  qed
qed

lemma length_action_steps [simp]: "length (action_steps i j al T its) = length its"
  by (induction its arbitrary: j) simp_all

lemma alias_loop_outcome:
  assumes "aliases_from env T i als" and T: "T = take len (drop off (msg s))"
    and len: "off + len \<le> length (msg s)" and nul: "NUL \<notin> set T"
    and "alias_loop env p off len fuel' fuel i s = Inr (ok, s')"
  shows "if ok then msg s' = msg s \<and> (\<exists>os. length os = length (command_steps i T als) \<and>
      list_all said os \<and> trace s' = trace s @ steps_events p (command_steps i T als) os)
    else \<exists>es. trace s' = trace s @ es \<and> stopped_in p (command_steps i T als) es"
  using assms(1,5) T len
proof (induction als arbitrary: i s fuel)
  case Nil
  then obtain n where fuel: "fuel = Suc n" by (cases fuel) auto
  have "get_key_and_value_at_index env off len i s = Inr (PRV_GET_KEY_AND_VALUE_FINISH, s)"
    using get_end [OF _ Nil.prems(3,4)] Nil.prems(1) by simp
  with Nil.prems(2) show ?case by (auto simp: fuel chain_eq_Inr context_thing_eq_Inr)
next
  case (Cons a als)
  obtain k kl v vl its where a: "a = ((k, kl, v, vl), its)" by (metis surj_pair)
  obtain n where fuel: "fuel = Suc n" using Cons.prems(2) by (cases fuel) auto
  let ?x = "(k, kl, v, vl)"
  let ?m = "(msg s)[off + k + kl := NUL]"
  have item: "get_key_and_value_at_index env off len i s =
      Inr (PRV_GET_KEY_AND_VALUE_SUCCESS (off + k) kl (off + v) vl, s)"
    using get_item [OF _ Cons.prems(3,4)] Cons.prems(1) a by simp
  have pair: "k + kl < v" "v + vl < len"
    using Cons.prems(1,3,4) a by (auto simp: pair_in_def)
  have in_m: "off + k + kl < length (msg s)" using pair Cons.prems(4) by simp
  have key: "take kl (drop (off + k) ?m) = key_text T ?x"
    and val: "take vl (drop (off + v) ?m) = value_text T ?x"
    unfolding Cons.prems(3) using pair
    by (simp_all add: key_text_def value_text_def take_drop_sub take_drop_update)
  obtain b t where act: "action_loop env p (action_handler (thing s)) (off + k) i (off + v) vl fuel' 0
      (s\<lparr>msg := ?m\<rparr>) = Inr (b, t)"
    and rest: "if b then off + k + kl < length (msg t) \<and>
        alias_loop env p off len fuel' n (Suc i)
          (t\<lparr>msg := (msg t)[off + k + kl := msg s ! (off + k + kl)]\<rparr>) = Inr (ok, s')
      else \<not> ok \<and> s' = t"
    using Cons.prems(2) item
    by (auto simp: fuel chain_eq_Inr context_thing_eq_Inr get_char_def set_char_def split: if_splits)
  have inner: "if b then msg t = ?m \<and> (\<exists>os. length os = length its \<and> list_all said os \<and>
      trace t = trace s @ steps_events p (action_steps i 0 (key_text T ?x) (value_text T ?x) its) os)
    else \<exists>es. trace t = trace s @ es \<and>
      stopped_in p (action_steps i 0 (key_text T ?x) (value_text T ?x) its) es"
  proof -
    have 1: "items_from env (value_text T ?x) 0 its" using Cons.prems(1) a by simp
    have 2: "value_text T ?x = take vl (drop (off + v) (msg (s\<lparr>msg := ?m\<rparr>)))" using val by simp
    have 3: "off + v + vl \<le> length (msg (s\<lparr>msg := ?m\<rparr>))" using pair Cons.prems(4) by simp
    have 4: "NUL \<notin> set (value_text T ?x)" using NUL_sub [OF nul] by (simp add: value_text_def)
    have 5: "off + k + kl < off + v" using pair by simp
    have 6: "msg (s\<lparr>msg := ?m\<rparr>) ! (off + k + kl) = NUL" using in_m by simp
    have 7: "NUL \<notin> set (take kl (drop (off + k) (msg (s\<lparr>msg := ?m\<rparr>))))"
      using key NUL_sub [OF nul] by (simp add: key_text_def)
    have 8: "msg (s\<lparr>msg := ?m\<rparr>) = ?m" "trace (s\<lparr>msg := ?m\<rparr>) = trace s" by simp_all
    show ?thesis
      using action_loop_outcome [OF 1 2 3 4 5 6 7 act] unfolding 8 key .
  qed
  show ?case
  proof (cases b)
    case False
    then obtain es where "trace t = trace s @ es"
      "stopped_in p (action_steps i 0 (key_text T ?x) (value_text T ?x) its) es"
      using inner by auto
    with False rest stopped_in_more show ?thesis by (auto simp: a)
  next
    case True
    then obtain os where os: "msg t = ?m" "length os = length its" "list_all said os"
      "trace t = trace s @ steps_events p (action_steps i 0 (key_text T ?x) (value_text T ?x) its) os"
      using inner by auto
    let ?t = "t\<lparr>msg := (msg t)[off + k + kl := msg s ! (off + k + kl)]\<rparr>"
    have m: "msg ?t = msg s" using os(1) by simp
    have r: "alias_loop env p off len fuel' n (Suc i) ?t = Inr (ok, s')" using rest True by simp
    have IH: "if ok then msg s' = msg s \<and> (\<exists>os. length os = length (command_steps (Suc i) T als) \<and>
        list_all said os \<and> trace s' = trace ?t @ steps_events p (command_steps (Suc i) T als) os)
      else \<exists>es. trace s' = trace ?t @ es \<and> stopped_in p (command_steps (Suc i) T als) es"
      by (rule Cons.IH [OF _ r, unfolded m]) (use Cons.prems in simp_all)
    show ?thesis
    proof (cases ok)
      case True
      then obtain qs where "msg s' = msg s" "length qs = length (command_steps (Suc i) T als)"
        "list_all said qs" "trace s' = trace t @ steps_events p (command_steps (Suc i) T als) qs"
        using IH by auto
      with True os show ?thesis
        by (auto simp: a steps_events_append intro!: exI [where x = "os @ qs"])
    next
      case False
      then obtain es where es: "trace s' = trace t @ es" "stopped_in p (command_steps (Suc i) T als) es"
        using IH by auto
      have "stopped_in p (action_steps i 0 (key_text T ?x) (value_text T ?x) its @
          command_steps (Suc i) T als)
        (steps_events p (action_steps i 0 (key_text T ?x) (value_text T ?x) its) os @ es)"
        by (rule stopped_in_later [OF es(2)]) (simp add: os(2))
      with False es(1) os(4) show ?thesis by (auto simp: a)
    qed
  qed
qed

section \<open>The whole command\<close>

definition command_fields :: "('p, 'w) env \<Rightarrow> kii_json_field_t list" where
  "command_fields env =
     [field_by_path env ''/commandID'' KII_JSON_FIELD_TYPE_STRING None,
      field_by_path env ''/actions'' KII_JSON_FIELD_TYPE_ARRAY None]"

text \<open>
  The message \<open>M\<close> is the command \<open>cid\<close> with the array of actions \<open>T\<close>, described by \<open>als\<close>.
\<close>

definition command_from ::
  "('p, 'w) env \<Rightarrow> string \<Rightarrow> string \<Rightarrow> string \<Rightarrow> alias_items list \<Rightarrow> bool" where
  "command_from env M cid T als \<longleftrightarrow>
     (case kii_json_read_object env M (command_fields env) of
        (res, f0 # f1 # _) \<Rightarrow>
          (res = KII_JSON_PARSE_SUCCESS \<or>
           res = KII_JSON_PARSE_PARTIAL_SUCCESS \<and> jf_result f0 = KII_JSON_FIELD_PARSE_SUCCESS) \<and>
          jf_start f0 \<le> jf_end f0 \<and> jf_end f0 \<le> length M \<and>
          cid = take (jf_end f0 - jf_start f0) (drop (jf_start f0) M) \<and>
          jf_start f1 \<le> jf_end f1 \<and> jf_end f1 \<le> length M \<and>
          T = take (jf_end f1 - jf_start f1) (drop (jf_start f1) M)
      | _ \<Rightarrow> False) \<and>
     NUL \<notin> set M \<and> aliases_from env T 0 als"

definition results_path :: "string \<Rightarrow> string \<Rightarrow> string \<Rightarrow> string" where
  "results_path app thing_id cid = ''thing-if/apps/'' @ app @ ''/targets/thing:'' @ thing_id @
     ''/commands/'' @ cid @ ''/action-results''"

definition results_header :: string where
  "results_header = ''{'' @ dquote @ ''actionResults'' @ dquote @ '':[''"

text \<open>The events of a run that sent the results, up to the run of that request.\<close>

definition results_events :: "kii_ptr \<Rightarrow> string \<Rightarrow> step list \<Rightarrow> outcome list \<Rightarrow> int \<Rightarrow> event list" where
  "results_events p path xs os r =
     [ApiStart p ''PUT'' path (Some ''application/json'') True 0, ApiAppend p results_header 0] @
     steps_events p xs os @ [ApiAppend p '']}'' 0, ApiRun p r]"

lemma prv_send_state_steps:
  assumes "prv_send_state env p s = Inr (ok, s')"
  obtains (none) "s' = s"
    | (start) q r where "r \<noteq> 0"
        and "api_start env p ''PUT'' q (Some CONTENT_UPDATE_STATE) True s = Inr (r, s')"
    | (more) q s1 h b s2
      where "api_start env p ''PUT'' q (Some CONTENT_UPDATE_STATE) True s = Inr (0, s1)"
        and "call_state_handler env h p (prv_writer env) s1 = Inr (b, s2)"
        and "if b then \<exists>r. api_run env p s2 = Inr (r, s') else s' = s2"
proof -
  let ?start = "\<lambda>q. api_start env p ''PUT'' q (Some CONTENT_UPDATE_STATE) True"
  let ?body = "chain (context_thing p) (\<lambda>t.
     chain (deref (state_handler_for_command_reaction t)) (\<lambda>handler.
     chain (call_state_handler env handler p (prv_writer env)) (\<lambda>ok.
     if \<not> ok then ret False
     else chain (api_run env p) (\<lambda>r. if r \<noteq> 0 then ret False else ret True))))"
  obtain authorid t where c: "cstr (author_id (author (kii_of p s))) s = Inr (authorid, t)"
    and r1: "chain (prv_set_state_resource_path env (app_id (kii_of p s)) authorid 256) (\<lambda>succeeded.
      case succeeded of None \<Rightarrow> ret False
      | Some q \<Rightarrow> chain (?start q) (\<lambda>r. if r \<noteq> 0 then ret False else ?body)) t = Inr (ok, s')"
    using assms unfolding prv_send_state_def chain_gets_apply by (rule chain_InrE)
  obtain sp u where sp: "prv_set_state_resource_path env (app_id (kii_of p s)) authorid 256 t = Inr (sp, u)"
    and r2: "(case sp of None \<Rightarrow> ret False
      | Some q \<Rightarrow> chain (?start q) (\<lambda>r. if r \<noteq> 0 then ret False else ?body)) u = Inr (ok, s')"
    using r1 by (rule chain_InrE)
  have u: "u = s"
    using c sp by (cases sp) (simp_all add: cstr_eq_Inr setters_Some setters_None)
  consider (none) "s' = s"
    | (start) q r where "r \<noteq> 0" "?start q s = Inr (r, s')"
    | (body) q s1 where "?start q s = Inr (0, s1)" "?body s1 = Inr (ok, s')"
  proof (cases sp)
    case None
    with r2 u that(1) show ?thesis by simp
  next
    case (Some q)
    then obtain r s1 where "?start q s = Inr (r, s1)"
      and "(if r \<noteq> 0 then ret False else ?body) s1 = Inr (ok, s')"
      using r2 u by (auto elim: chain_InrE)
    with that(2,3) show ?thesis by (cases "r = 0") auto
  qed
  then show thesis
  proof cases
    case body
    then obtain h b s2 where "call_state_handler env h p (prv_writer env) s1 = Inr (b, s2)"
      and "(if \<not> b then ret False
        else chain (api_run env p) (\<lambda>r. if r \<noteq> 0 then ret False else ret True)) s2 = Inr (ok, s')"
      by (auto simp: chain_eq_Inr context_thing_eq_Inr run_iffs)
    then show thesis
      by (intro that(3) [OF body(1)]) (auto simp: chain_eq_Inr split: if_splits)
  qed (use that in blast)+
qed

lemma send_state_trace:
  assumes "\<And>h. writes_only env h p" and "prv_send_state env p s = Inr (ok, s')"
  shows "\<exists>path es. trace s' = trace s @ es \<and> (es = [] \<or> attempt p path es)" and "msg s' = msg s"
proof -
  from assms(2) have "(\<exists>path es. trace s' = trace s @ es \<and> (es = [] \<or> attempt p path es)) \<and> msg s' = msg s"
  proof (cases rule: prv_send_state_steps)
    case none
    then show ?thesis by simp
  next
    case (start q r)
    then show ?thesis
      using call_kii_trace [OF start(2) [unfolded api_start_def]]
        call_kii_msg [OF start(2) [unfolded api_start_def]] by (auto simp: attempt_def)
  next
    case (more q s1 h b s2)
    obtain as where as: "trace s2 = trace s1 @ as" "appends_only p as"
      using handler_calls [OF assms(1) more(2)] by blast
    have m2: "msg s2 = msg s1"
      using preservesD [OF msg_frame.handler_inv [OF assms(1)] more(2), of "msg s1"] by simp
    have tr2: "trace s2 = trace s @ ApiStart p ''PUT'' q (Some CONTENT_UPDATE_STATE) True 0 # as"
      and m: "msg s2 = msg s"
      using as(1) m2 call_kii_trace [OF more(1) [unfolded api_start_def]]
        call_kii_msg [OF more(1) [unfolded api_start_def]] by simp_all
    show ?thesis
    proof (cases b)
      case False
      with more(3) tr2 m as(2) show ?thesis by (auto simp: attempt_def)
    next
      case True
      then obtain r where r: "api_run env p s2 = Inr (r, s')" using more(3) by auto
      have "trace s' = trace s @ (ApiStart p ''PUT'' q (Some CONTENT_UPDATE_STATE) True 0 # as @
          [ApiRun p r])"
        using call_kii_trace [OF r [unfolded api_run_def]] tr2 by simp
      moreover have "attempt p q (ApiStart p ''PUT'' q (Some CONTENT_UPDATE_STATE) True 0 # as @
          [ApiRun p r])"
        using as(2) by (auto simp: attempt_def)
      ultimately show ?thesis using call_kii_msg [OF r [unfolded api_run_def]] m by auto
    qed
  qed
  then show "\<exists>path es. trace s' = trace s @ es \<and> (es = [] \<or> attempt p path es)" and "msg s' = msg s"
    by auto
qed

text \<open>\<open>handle_command\<close> from the start of the results request on.\<close>

definition command_tail ::
  "('p, 'w) env \<Rightarrow> nat \<Rightarrow> kii_ptr \<Rightarrow> nat \<Rightarrow> nat \<Rightarrow> string \<Rightarrow> (('p, 'w) st, unit) prog" where
  "command_tail env fuel kii off len path =
     chain (api_start env kii ''PUT'' path (Some ''application/json'') True) (\<lambda>r.
     if r \<noteq> 0 then ret ()
     else
       chain (api_append env kii results_header) (\<lambda>r.
       if r \<noteq> 0 then ret ()
       else
         chain (alias_loop env kii off len fuel fuel 0) (\<lambda>ok.
         if \<not> ok then ret ()
         else
           chain (api_append env kii '']}'') (\<lambda>r.
           if r \<noteq> 0 then ret ()
           else
             chain (api_run env kii) (\<lambda>r.
             if r \<noteq> 0 then ret ()
             else chain (prv_send_state env kii) (\<lambda>_. ret ()))))))"

lemma command_from_parts:
  assumes "command_from env (take n (msg s)) cid T als" and "n \<le> length (msg s)"
  obtains res f0 f1 fs where
    "kii_json_read_object env (take n (msg s)) (command_fields env) = (res, f0 # f1 # fs)"
    and "res = KII_JSON_PARSE_SUCCESS \<or>
      res = KII_JSON_PARSE_PARTIAL_SUCCESS \<and> jf_result f0 = KII_JSON_FIELD_PARSE_SUCCESS"
    and "jf_start f0 \<le> jf_end f0" and "jf_start f0 + (jf_end f0 - jf_start f0) \<le> length (msg s)"
    and "take (jf_end f0 - jf_start f0) (drop (jf_start f0) (msg s)) = cid" and "c_str cid = cid"
    and "length cid = jf_end f0 - jf_start f0"
    and "jf_start f1 \<le> jf_end f1" and "jf_start f1 + (jf_end f1 - jf_start f1) \<le> length (msg s)"
    and "T = take (jf_end f1 - jf_start f1) (drop (jf_start f1) (msg s))"
proof -
  let ?M = "take n (msg s)"
  obtain res f0 f1 fs where read: "kii_json_read_object env ?M (command_fields env) = (res, f0 # f1 # fs)"
    and res: "res = KII_JSON_PARSE_SUCCESS \<or>
      res = KII_JSON_PARSE_PARTIAL_SUCCESS \<and> jf_result f0 = KII_JSON_FIELD_PARSE_SUCCESS"
    and f0: "jf_start f0 \<le> jf_end f0" "jf_end f0 \<le> length ?M"
      "cid = take (jf_end f0 - jf_start f0) (drop (jf_start f0) ?M)"
    and f1: "jf_start f1 \<le> jf_end f1" "jf_end f1 \<le> length ?M"
      "T = take (jf_end f1 - jf_start f1) (drop (jf_start f1) ?M)"
    and nul: "NUL \<notin> set ?M"
    using assms(1) by (auto simp: command_from_def split: prod.splits list.splits)
  have "take (jf_end f0 - jf_start f0) (drop (jf_start f0) (msg s)) = cid"
    using take_drop_sub [of "jf_start f0" "jf_end f0 - jf_start f0" n 0 "msg s"] f0 by simp
  moreover have "T = take (jf_end f1 - jf_start f1) (drop (jf_start f1) (msg s))"
    using take_drop_sub [of "jf_start f1" "jf_end f1 - jf_start f1" n 0 "msg s"] f1 by simp
  moreover have "NUL \<notin> set cid"
    unfolding f0(3) by (rule NUL_sub [OF nul])
  then have "c_str cid = cid"
    by (rule c_str_id)
  moreover have "length cid = jf_end f0 - jf_start f0"
    using f0(1,2) unfolding f0(3) by (simp add: min_absorb2 diff_le_mono)
  moreover have "jf_start f0 + (jf_end f0 - jf_start f0) \<le> length (msg s)"
    "jf_start f1 + (jf_end f1 - jf_start f1) \<le> length (msg s)"
    using f0 f1 by auto
  ultimately show ?thesis
    using f0(1) f1(1) by (intro that [OF read res])
qed

lemma handle_command_apply:
  assumes desc: "command_from env (take n (msg s)) cid T als" and n: "n \<le> length (msg s)"
    and nul: "NUL \<in> set (author_id (author (kii_of p s)))"
    and pth: "path = results_path (app_id (kii_of p s)) (c_str (author_id (author (kii_of p s)))) cid"
  obtains off len where "T = take len (drop off (msg s))" and "off + len \<le> length (msg s)"
    and "handle_command env fuel p n s =
      (if 256 < length path then Inr ((), s)
       else if length path = 256 then Inl OutOfBounds
       else command_tail env fuel p off len path s)"
proof -
  obtain res f0 f1 fs
    where read: "kii_json_read_object env (take n (msg s)) (command_fields env) = (res, f0 # f1 # fs)"
    and res: "res = KII_JSON_PARSE_SUCCESS \<or>
      res = KII_JSON_PARSE_PARTIAL_SUCCESS \<and> jf_result f0 = KII_JSON_FIELD_PARSE_SUCCESS"
    and f0: "jf_start f0 \<le> jf_end f0" "jf_start f0 + (jf_end f0 - jf_start f0) \<le> length (msg s)"
      "take (jf_end f0 - jf_start f0) (drop (jf_start f0) (msg s)) = cid" "c_str cid = cid"
      "length cid = jf_end f0 - jf_start f0"
    and f1: "jf_start f1 \<le> jf_end f1" "jf_start f1 + (jf_end f1 - jf_start f1) \<le> length (msg s)"
      "T = take (jf_end f1 - jf_start f1) (drop (jf_start f1) (msg s))"
    by (rule command_from_parts [OF desc n])
  let ?app = "app_id (kii_of p s)" and ?id = "c_str (author_id (author (kii_of p s)))"
  have path': "THING_IF_APP_PATH @ ?app @ TARGET_PART @ ?id @ COMMAND_PART @ c_str cid @ RESULTS_PART
      = path"
    by (simp only: pth results_path_def path_parts f0(4))
  have len: "length THING_IF_APP_PATH + length ?app + length TARGET_PART + length ?id +
      length COMMAND_PART + (jf_end f0 - jf_start f0) + length RESULTS_PART - 1 = length path - 1"
    using f0(5) by (simp add: pth results_path_def path_parts)
  have "0 < length path" by (simp add: pth results_path_def)
  then have cmp: "256 \<le> length path - 1 \<longleftrightarrow> 256 < length path"
    by linarith
  have "handle_command env fuel p n s =
    (if 256 \<le> length THING_IF_APP_PATH + length ?app + length TARGET_PART + length ?id +
        length COMMAND_PART + (jf_end f0 - jf_start f0) + length RESULTS_PART - 1 then ret ()
     else chain (sprintf_buf 256 (THING_IF_APP_PATH @ ?app @ TARGET_PART @ ?id @ COMMAND_PART @
         c_str cid @ RESULTS_PART))
       (command_tail env fuel p (jf_start f1) (jf_end f1 - jf_start f1))) s"
    unfolding handle_command_def command_fields_def [symmetric] Let_def
    using res n nul f0(1-3) f1(1)
    by (elim disjE conjE) (simp_all add: buf_text_apply read prv_kii_thing_if_json_read_object_def field_at_def span_len_def
        cstr_def command_tail_def [abs_def] results_header_def del: ret_apply cong: if_cong)
  then have "handle_command env fuel p n s =
      (if 256 < length path then Inr ((), s)
       else if length path = 256 then Inl OutOfBounds
       else command_tail env fuel p (jf_start f1) (jf_end f1 - jf_start f1) path s)"
    unfolding len path' cmp by (auto simp: sprintf_buf_def)
  with that f1(2,3) show thesis by blast
qed

lemma handle_command_needs:
  assumes "command_from env (take n (msg s)) cid T als" and "handle_command env fuel p n s = Inr (u, s')"
  shows "n \<le> length (msg s)" and "NUL \<in> set (author_id (author (kii_of p s)))"
proof -
  show n: "n \<le> length (msg s)"
    using assms(2) by (auto simp: handle_command_def buf_text_def chain_eq_Inr split: if_splits)
  obtain res f0 f1 fs
    where read: "kii_json_read_object env (take n (msg s)) (command_fields env) = (res, f0 # f1 # fs)"
    and res: "res = KII_JSON_PARSE_SUCCESS \<or>
      res = KII_JSON_PARSE_PARTIAL_SUCCESS \<and> jf_result f0 = KII_JSON_FIELD_PARSE_SUCCESS"
    by (rule command_from_parts [OF assms(1) n])
  show "NUL \<in> set (author_id (author (kii_of p s)))"
  proof (rule ccontr)
    assume "NUL \<notin> set (author_id (author (kii_of p s)))"
    with res n have "handle_command env fuel p n s = Inl OutOfBounds"
      unfolding handle_command_def command_fields_def [symmetric]
      by (elim disjE conjE) (simp_all add: buf_text_apply read prv_kii_thing_if_json_read_object_def
          field_at_def cstr_def)
    with assms(2) show False by simp
  qed
qed

text \<open>The tail, step by step.\<close>

lemma command_tail_steps:
  assumes "command_tail env fuel p off len path s = Inr ((), s')"
  obtains
    (start) r where "r \<noteq> 0"
      and "api_start env p ''PUT'' path (Some ''application/json'') True s = Inr (r, s')"
  | (header) s1 r where "r \<noteq> 0"
      and "api_start env p ''PUT'' path (Some ''application/json'') True s = Inr (0, s1)"
      and "api_append env p results_header s1 = Inr (r, s')"
  | (loop) s1 s2 ok s3
    where "api_start env p ''PUT'' path (Some ''application/json'') True s = Inr (0, s1)"
      and "api_append env p results_header s1 = Inr (0, s2)"
      and "alias_loop env p off len fuel fuel 0 s2 = Inr (ok, s3)"
      and "if \<not> ok then s' = s3 else
        \<exists>s4 q. api_append env p '']}'' s3 = Inr (q, s4) \<and>
         (if q \<noteq> 0 then s' = s4 else
          \<exists>s5 x. api_run env p s4 = Inr (x, s5) \<and>
           (if x \<noteq> 0 then s' = s5 else \<exists>b. prv_send_state env p s5 = Inr (b, s')))"
proof -
  let ?rest = "chain (api_append env p '']}'') (\<lambda>r.
     if r \<noteq> 0 then ret ()
     else chain (api_run env p) (\<lambda>r.
       if r \<noteq> 0 then ret () else chain (prv_send_state env p) (\<lambda>_. ret ())))"
  obtain r s1 where s1: "api_start env p ''PUT'' path (Some ''application/json'') True s = Inr (r, s1)"
    and r1: "(if r \<noteq> 0 then ret () else
      chain (api_append env p results_header) (\<lambda>r. if r \<noteq> 0 then ret () else
      chain (alias_loop env p off len fuel fuel 0) (\<lambda>ok. if \<not> ok then ret () else ?rest))) s1
      = Inr ((), s')"
    using assms unfolding command_tail_def by (rule chain_InrE)
  show thesis
  proof (cases "r = 0")
    case False
    with s1 r1 start show thesis by simp
  next
    case True
    obtain q s2 where s2: "api_append env p results_header s1 = Inr (q, s2)"
      and r2: "(if q \<noteq> 0 then ret () else
        chain (alias_loop env p off len fuel fuel 0) (\<lambda>ok. if \<not> ok then ret () else ?rest)) s2
        = Inr ((), s')"
      using r1 True by (auto elim: chain_InrE)
    show thesis
    proof (cases "q = 0")
      case False
      with s1 s2 r2 True header show thesis by simp
    next
      case q: True
      obtain ok s3 where s3: "alias_loop env p off len fuel fuel 0 s2 = Inr (ok, s3)"
        and r3: "(if \<not> ok then ret () else ?rest) s3 = Inr ((), s')"
        using r2 q by (auto elim: chain_InrE)
      have "if \<not> ok then s' = s3 else
        \<exists>s4 q. api_append env p '']}'' s3 = Inr (q, s4) \<and>
         (if q \<noteq> 0 then s' = s4 else
          \<exists>s5 x. api_run env p s4 = Inr (x, s5) \<and>
           (if x \<noteq> 0 then s' = s5 else \<exists>b. prv_send_state env p s5 = Inr (b, s')))"
        using r3 by (cases ok) (fastforce simp: chain_eq_Inr split: if_splits)+
      with s1 s2 s3 True q loop show thesis by blast
    qed
  qed
qed

text \<open>
  Every run on a described command either stops before anything is sent, with the first few
  handler calls made, or sends the results of all actions and then at most one state update.
\<close>

lemma handle_command_outcome:
  assumes writes: "\<And>h. writes_only env h p"
    and desc: "command_from env (take n (msg s)) cid T als"
    and run: "handle_command env fuel p n s = Inr ((), s')"
  obtains
    (stopped) es k where "trace s' = trace s @ es"
      and "handler_calls_of es = take k (map snd (command_steps 0 T als))"
      and "list_all (\<lambda>e. case e of ApiRun _ _ \<Rightarrow> False | _ \<Rightarrow> True) es"
  | (sent) os r rest path' where "length os = length (command_steps 0 T als)" and "list_all said os"
      and "trace s' = trace s @ results_events p
        (results_path (app_id (kii_of p s)) (c_str (author_id (author (kii_of p s)))) cid)
        (command_steps 0 T als) os r @ rest"
      and "rest = [] \<or> r = 0 \<and> attempt p path' rest" and "msg s' = msg s"
      and "rest = [] \<or> (\<exists>t b. trace s' = trace t @ rest \<and> prv_send_state env p t = Inr (b, s'))"
proof -
  let ?path = "results_path (app_id (kii_of p s)) (c_str (author_id (author (kii_of p s)))) cid"
  let ?xs = "command_steps 0 T als"
  note needs = handle_command_needs [OF desc run]
  obtain off len where T: "T = take len (drop off (msg s))" "off + len \<le> length (msg s)"
    and apply': "handle_command env fuel p n s =
      (if 256 < length ?path then Inr ((), s)
       else if length ?path = 256 then Inl OutOfBounds
       else command_tail env fuel p off len ?path s)"
    by (rule handle_command_apply [OF desc needs refl])
  show thesis
  proof (cases "256 < length ?path")
    case True
    with apply' run show thesis by (intro stopped [of "[]" 0]) simp_all
  next
    case False
    then have tail: "command_tail env fuel p off len ?path s = Inr ((), s')"
      using apply' run by (simp split: if_splits)
    show thesis
      using tail
    proof (cases rule: command_tail_steps)
      case (start r)
      then show thesis
        using call_kii_trace [OF start(2) [unfolded api_start_def]]
        by (intro stopped [of "[ApiStart p ''PUT'' ?path (Some ''application/json'') True r]" 0])
          simp_all
    next
      case (header s1 r)
      then show thesis
        using call_kii_trace [OF header(2) [unfolded api_start_def]]
          call_kii_trace [OF header(3) [unfolded api_append_def]]
        by (intro stopped [of "[ApiStart p ''PUT'' ?path (Some ''application/json'') True 0,
            ApiAppend p results_header r]" 0]) simp_all
    next
      case (loop s1 s2 ok s3)
      have tr2: "trace s2 = trace s @ [ApiStart p ''PUT'' ?path (Some ''application/json'') True 0,
          ApiAppend p results_header 0]" and m2: "msg s2 = msg s"
        using call_kii_trace [OF loop(1) [unfolded api_start_def]]
          call_kii_msg [OF loop(1) [unfolded api_start_def]]
          call_kii_trace [OF loop(2) [unfolded api_append_def]]
          call_kii_msg [OF loop(2) [unfolded api_append_def]]
        by simp_all
      have als: "aliases_from env T 0 als" and nul: "NUL \<notin> set T"
        using desc NUL_sub [of "take n (msg s)"]
        by (auto simp: command_from_def split: prod.splits list.splits)
      note out = alias_loop_outcome [OF als _ _ nul loop(3), unfolded m2, OF T]
      show thesis
      proof (cases ok)
        case False
        then obtain es where es: "trace s3 = trace s2 @ es" "stopped_in p ?xs es" using out by auto
        then obtain k where "handler_calls_of es = take (Suc k) (map snd ?xs)"
          using stopped_in_calls by blast
        with False loop(4) es tr2 stopped_in_no_run [OF es(2)] show thesis
          by (intro stopped [of "[ApiStart p ''PUT'' ?path (Some ''application/json'') True 0,
                ApiAppend p results_header 0] @ es" "Suc k"]) simp_all
      next
        case True
        then obtain os where os: "msg s3 = msg s" "length os = length ?xs" "list_all said os"
          "trace s3 = trace s2 @ steps_events p ?xs os" using out by auto
        obtain s4 q where q: "api_append env p '']}'' s3 = Inr (q, s4)"
          and rest4: "if q \<noteq> 0 then s' = s4 else
            \<exists>s5 x. api_run env p s4 = Inr (x, s5) \<and>
             (if x \<noteq> 0 then s' = s5 else \<exists>b. prv_send_state env p s5 = Inr (b, s'))"
          using loop(4) True by auto
        have tr4: "trace s4 = trace s3 @ [ApiAppend p '']}'' q]" and m4: "msg s4 = msg s"
          using call_kii_trace [OF q [unfolded api_append_def]]
            call_kii_msg [OF q [unfolded api_append_def]] os(1) by simp_all
        show thesis
        proof (cases "q = 0")
          case False
          with rest4 tr4 tr2 os show thesis
            by (intro stopped [of "[ApiStart p ''PUT'' ?path (Some ''application/json'') True 0,
                  ApiAppend p results_header 0] @ steps_events p ?xs os @ [ApiAppend p '']}'' q]"
                "length ?xs"])
              (simp_all add: handler_calls_steps steps_events_no_run)
        next
          case q0: True
          then obtain s5 x where x: "api_run env p s4 = Inr (x, s5)"
            and rest5: "if x \<noteq> 0 then s' = s5 else \<exists>b. prv_send_state env p s5 = Inr (b, s')"
            using rest4 by auto
          have tr5: "trace s5 = trace s @ results_events p ?path ?xs os x" and m5: "msg s5 = msg s"
            using call_kii_trace [OF x [unfolded api_run_def]] call_kii_msg [OF x [unfolded api_run_def]]
              tr4 tr2 os m4 q0 by (simp_all add: results_events_def)
          show thesis
          proof (cases "x = 0")
            case False
            with rest5 tr5 m5 os show thesis by (intro sent [of os x "[]"]) simp_all
          next
            case x0: True
            then obtain b where b: "prv_send_state env p s5 = Inr (b, s')" using rest5 by auto
            then obtain path' es where es: "trace s' = trace s5 @ es" "es = [] \<or> attempt p path' es"
              using send_state_trace(1) [OF writes b] by blast
            with send_state_trace(2) [OF writes b] tr5 m5 os x0 b show thesis
              by (intro sent [of os x es path']) auto
          qed
        qed
      qed
    qed
  qed
qed

section \<open>The results request\<close>

definition result_text :: "string \<Rightarrow> bool \<Rightarrow> string option \<Rightarrow> string" where
  "result_text nm succeeded e =
     ''{'' @ dquote @ nm @ dquote @ '':{'' @
     kv_text ''succeeded'' (if succeeded then ''true'' else ''false'') False @
     (if succeeded then [] else case e of None \<Rightarrow> [] | Some m \<Rightarrow> '','' @ kv_text ''errorMessage'' m True) @
     ''}}''"

fun step_text :: "step \<Rightarrow> outcome \<Rightarrow> string" where
  "step_text (comma, al, nm, v) (succeeded, e, r) =
     (if comma \<and> r = 0 then '','' else []) @ result_text nm succeeded e"

definition steps_text :: "step list \<Rightarrow> outcome list \<Rightarrow> string" where
  "steps_text xs os = concat (map2 step_text xs os)"

definition results_request :: "string \<Rightarrow> string \<Rightarrow> request" where
  "results_request path body =
     \<lparr>rq_method = ''PUT'', rq_path = path, rq_content_type = Some ''application/json'',
      rq_auth = True, rq_body = results_header @ body @ '']}''\<rparr>"

lemma concat_result_chunks: "concat (result_chunks nm ok e) = result_text nm ok e"
  by (simp add: result_chunks_def result_text_def concat_kv_chunks concat_opt_chunks
      split: option.split)

lemma rq_body_updates: "rq_body_update f (rq_body_update g rq) = rq_body_update (f \<circ> g) rq"
  by simp

lemma replay_step:
  "replay p (step_events p x o1) (Some rq, d) =
     (Some (rq_body_update (\<lambda>b. b @ step_text x o1) rq), d)"
  by (cases x; cases o1) (simp add: concat_result_chunks comp_def)

lemma replay_steps:
  "replay p (steps_events p xs os) (Some rq, d) =
     (Some (rq_body_update (\<lambda>b. b @ steps_text xs os) rq), d)"
proof (induction xs os arbitrary: rq rule: list_induct2')
  case (4 x xs o1 os)
  then show ?case by (simp add: replay_step steps_text_def comp_def)
qed (simp_all add: steps_events_def steps_text_def)

lemma requests_results:
  "replay p (results_events p path xs os r) (cur, d) =
     (None, d @ [results_request path (steps_text xs os)])"
  by (simp add: results_events_def replay_steps results_request_def)

lemma attempt_requests:
  assumes "attempt p path es"
  shows "\<exists>cur more. replay p es (None, d) = (cur, d @ more) \<and> length more \<le> 1"
    and "handler_calls_of es = []"
proof -
  show "\<exists>cur more. replay p es (None, d) = (cur, d @ more) \<and> length more \<le> 1"
    using assms by (auto simp: attempt_def replay_appends_only)
  show "handler_calls_of es = []"
    using assms by (auto simp: attempt_def handler_calls_appends_only)
qed

lemma handler_calls_results:
  "length os = length xs \<Longrightarrow> handler_calls_of (results_events p path xs os r) = map snd xs"
  by (simp add: results_events_def handler_calls_steps)

subsection \<open>The commas\<close>

fun join_commas :: "string list \<Rightarrow> string" where
  "join_commas [] = []"
| "join_commas [x] = x"
| "join_commas (x # y # xs) = x @ '','' @ join_commas (y # xs)"

definition step_results :: "step list \<Rightarrow> outcome list \<Rightarrow> string list" where
  "step_results xs os = map2 (\<lambda>(c, al, nm, v) (succeeded, e, r). result_text nm succeeded e) xs os"

lemma join_commas_prefixed:
  "xs \<noteq> [] \<Longrightarrow> concat (map (\<lambda>x. '','' @ x) xs) = '','' @ join_commas xs"
  by (induction xs rule: join_commas.induct) simp_all

lemma join_commas_first: "join_commas (x # xs) = x @ concat (map (\<lambda>x. '','' @ x) xs)"
  by (induction xs arbitrary: x) simp_all

lemma flags_True:
  "i > 0 \<or> j > 0 \<Longrightarrow> list_all fst (action_steps i j al T its)"
  by (induction its arbitrary: j) simp_all

lemma command_flags_True: "0 < i \<Longrightarrow> list_all fst (command_steps i T als)"
  by (induction als arbitrary: i) (simp_all add: flags_True)

text \<open>Every comma that was due was accepted.\<close>

definition commas_accepted :: "step list \<Rightarrow> outcome list \<Rightarrow> bool" where
  "commas_accepted xs os = list_all (\<lambda>(x, b, e, r). fst x \<longrightarrow> r = 0) (zip xs os)"

lemma commas_accepted_Cons [simp]:
  "commas_accepted (x # xs) ((b, e, r) # os) \<longleftrightarrow> (fst x \<longrightarrow> r = 0) \<and> commas_accepted xs os"
  by (simp add: commas_accepted_def)

lemma commas_accepted_events:
  assumes "length os = length xs" and "\<And>r. ApiAppend p '','' r \<in> set (steps_events p xs os) \<Longrightarrow> r = 0"
  shows "commas_accepted xs os"
  using assms
proof (induction os xs rule: list_induct2)
  case (Cons o1 os x xs)
  then show ?case by (cases o1; cases x) simp_all
qed (simp add: commas_accepted_def)

lemma steps_text_True:
  assumes "length os = length xs" and "list_all fst xs" and "commas_accepted xs os"
  shows "steps_text xs os = concat (map (\<lambda>x. '','' @ x) (step_results xs os))"
  using assms
proof (induction os xs rule: list_induct2)
  case (Cons o1 os x xs)
  then show ?case by (cases o1; cases x) (simp_all add: steps_text_def step_results_def)
qed (simp add: steps_text_def step_results_def)

lemma command_steps_cases:
  "command_steps 0 T als = [] \<or>
   (if snd (hd als) = [] then list_all fst (command_steps 0 T als)
    else \<not> fst (hd (command_steps 0 T als)) \<and> list_all fst (tl (command_steps 0 T als)))"
proof (cases als)
  case (Cons x xs)
  then show ?thesis
    by (cases "snd x") (simp_all add: command_flags_True flags_True)
qed simp

lemma steps_text_commas:
  assumes len: "length os = length (command_steps 0 T als)"
    and commas: "commas_accepted (command_steps 0 T als) os"
  shows "steps_text (command_steps 0 T als) os =
    (if os \<noteq> [] \<and> snd (hd als) = [] then '','' else []) @
    join_commas (step_results (command_steps 0 T als) os)"
proof (cases "command_steps 0 T als")
  case Nil
  then show ?thesis using len by (simp add: steps_text_def step_results_def)
next
  case (Cons x xs)
  then obtain o1 os' where os: "os = o1 # os'" using len by (cases os) auto
  obtain c al nm v where x: "x = (c, al, nm, v)" by (cases x) auto
  obtain b e r where o1: "o1 = (b, e, r)" by (cases o1) auto
  have r: "c \<longrightarrow> r = 0" and commas': "commas_accepted xs os'"
    using commas os o1 Cons x by auto
  have len': "length os' = length xs" using len os Cons by simp
  show ?thesis
  proof (cases "snd (hd als) = []")
    case True
    then have flags: "list_all fst (command_steps 0 T als)"
      using command_steps_cases [of T als] Cons by auto
    have "steps_text (command_steps 0 T als) os =
        '','' @ join_commas (step_results (command_steps 0 T als) os)"
      unfolding steps_text_True [OF len flags commas]
      by (intro join_commas_prefixed) (simp add: os Cons step_results_def)
    then show ?thesis using True os by simp
  next
    case False
    then have flags: "\<not> c" "list_all fst xs"
      using command_steps_cases [of T als] Cons x by auto
    have "steps_text (command_steps 0 T als) os =
        result_text nm b e @ concat (map (\<lambda>x. '','' @ x) (step_results xs os'))"
      using steps_text_True [OF len' flags(2) commas'] flags(1)
      by (simp add: Cons os x o1 r steps_text_def)
    also have "\<dots> = join_commas (result_text nm b e # step_results xs os')"
      by (simp only: join_commas_first)
    finally show ?thesis using False by (simp add: Cons os x o1 step_results_def)
  qed
qed

end
