(* ===== verification/Command_Properties.thy ===== *)
theory Command_Properties
  imports Command_Spec
begin

text \<open>
  The properties of command handling: which fuel is enough, which calls the action handler gets,
  what the results request says, what happens to the message buffer and to the resource path,
  and the repository's own test of \<open>handle_command\<close> as an evaluated run.
\<close>

section \<open>Termination\<close>

text \<open>
  An array of \<open>n\<close> characters has at most \<open>n\<close> elements, so a JSON reader finds no element at an
  index that is not below the length of its text.
\<close>

definition reader_bounded :: "('p, 'w) env \<Rightarrow> bool" where
  "reader_bounded env \<longleftrightarrow> (\<forall>T i. length T \<le> i \<longrightarrow>
     fst (kii_json_read_object env T [index_field env i]) \<noteq> KII_JSON_PARSE_SUCCESS)"

lemma never_get_key:
  "never OutOfFuel (get_key_and_value_at_index env off len i)"
  unfolding get_key_and_value_at_index_def prv_kii_thing_if_get_key_and_value_from_json_def
  by (auto intro!: never_intros split: kii_json_parse_result.split jsmn_result.split)

lemma never_handle_action:
  "never OutOfFuel (handle_action env p h a i j name nl val vl)"
  unfolding handle_action_def append_error_message_def or_chain.simps
  by (intro never_intros) simp_all

text \<open>No step changes the length of the message buffer, and reading an element changes nothing.\<close>

interpretation length_frame: api_invariant env p "\<lambda>s. length (msg s) = x"
  for env :: "('p, 'w) env" and p x
  by unfold_locales (auto intro!: preservesI dest: call_kii_msg simp: api_defs)

lemma preserves_set_char_length: "preserves (\<lambda>s. length (msg s) = x) (set_char i c)"
  by (auto simp: preserves_def set_char_def)

lemma preserves_call_action:
  "(\<And>s w es. I s \<Longrightarrow> I (s\<lparr>world := w, trace := es\<rparr>)) \<Longrightarrow> preserves I (call_action env h al nm v)"
  by (cases h) (auto simp: preserves_def call_action_def split: prod.splits option.splits if_splits)

lemma handle_action_length:
  "preserves (\<lambda>s. length (msg s) = x) (handle_action env p h a i j name nl val vl)"
  unfolding handle_action_def append_error_message_def or_chain.simps
  by (intro preserves_intros length_frame.append_intros preserves_set_char_length
      preserves_call_action) simp_all

lemma reads_only_get_key:
  "get_key_and_value_at_index env off len i s = Inr (r, s') \<Longrightarrow> s' = s \<and> off + len \<le> length (msg s)"
proof -
  have reads: "preserves (\<lambda>t. t = s) (get_key_and_value_at_index env off len i)"
    unfolding get_key_and_value_at_index_def prv_kii_thing_if_get_key_and_value_from_json_def
    by (auto intro!: preserves_intros split: kii_json_parse_result.split jsmn_result.split)
  assume run: "get_key_and_value_at_index env off len i s = Inr (r, s')"
  then have "off + len \<le> length (msg s)"
    by (auto simp: get_key_and_value_at_index_def chain_eq_Inr sprintf_buf_eq_Inr buf_text_def
        split: if_splits)
  with preservesD [OF reads run] show ?thesis by simp
qed

lemma get_key_bound:
  assumes bounded: "reader_bounded env"
    and run: "get_key_and_value_at_index env off len i s =
      Inr (PRV_GET_KEY_AND_VALUE_SUCCESS k kl v vl, s')"
  shows "i < len"
proof (rule ccontr)
  assume "\<not> i < len"
  then have "fst (kii_json_read_object env (take len (drop off (msg s))) [index_field env i]) \<noteq>
      KII_JSON_PARSE_SUCCESS"
    using bounded by (simp add: reader_bounded_def)
  with run show False
    by (auto simp: get_key_and_value_at_index_def chain_eq_Inr sprintf_buf_eq_Inr buf_text_def
        prv_kii_thing_if_json_read_object_def index_field_def case_prod_beta
        split: if_splits kii_json_parse_result.splits)
qed

lemma action_loop_fuel:
  assumes "reader_bounded env" and "length (msg s) < fuel + j" and "0 < fuel"
  shows "action_loop env p h a i off len fuel j s \<noteq> Inl OutOfFuel"
  using assms(2,3)
proof (induction fuel arbitrary: j s)
  case (Suc n)
  show ?case
  proof (cases "get_key_and_value_at_index env off len j s")
    case (Inl e)
    then show ?thesis using neverD [OF never_get_key, of env off len j s] by simp
  next
    case (Inr x)
    then obtain r where item: "get_key_and_value_at_index env off len j s = Inr (r, s)"
      by (cases x) (auto dest: reads_only_get_key)
    show ?thesis
    proof (cases r)
      case (PRV_GET_KEY_AND_VALUE_SUCCESS k kl v vl)
      note item' = item [unfolded PRV_GET_KEY_AND_VALUE_SUCCESS]
      have j: "j < length (msg s)"
        using get_key_bound [OF assms(1) item'] reads_only_get_key [OF item] by simp
      show ?thesis
      proof (cases "handle_action env p h a i j k kl v vl s")
        case (Inl e)
        then show ?thesis
          using item' neverD [OF never_handle_action, of env p h a i j k kl v vl s] by simp
      next
        case (Inr y)
        then obtain b t where act: "handle_action env p h a i j k kl v vl s = Inr (b, t)"
          by (cases y) auto
        have "length (msg t) = length (msg s)"
          using preservesD [OF handle_action_length act refl] .
        then show ?thesis
          using item' act Suc.IH [of t "Suc j"] Suc.prems j by (cases b) simp_all
      qed
    qed (simp_all add: item)
  qed
qed simp

lemma action_loop_length:
  "preserves (\<lambda>s. length (msg s) = x) (action_loop env p h a i off len fuel j)"
proof (induction fuel arbitrary: j)
  case (Suc n)
  have "preserves (\<lambda>s. length (msg s) = x) (get_key_and_value_at_index env off len j)"
    by (auto intro!: preservesI dest: reads_only_get_key)
  with Suc handle_action_length show ?case
    by (auto intro!: preserves_intros split: prv_get_key_and_value_t.split)
qed (simp add: preserves_fail)

lemma alias_loop_length:
  "preserves (\<lambda>s. length (msg s) = x) (alias_loop env p off len fuel' fuel i)"
proof (induction fuel arbitrary: i)
  case (Suc n)
  have "preserves (\<lambda>s. length (msg s) = x) (get_key_and_value_at_index env off len i)"
    by (auto intro!: preservesI dest: reads_only_get_key)
  moreover have "preserves (\<lambda>s. length (msg s) = x) (context_thing p)"
    by (auto simp: preserves_def context_thing_eq_Inr)
  ultimately show ?case
    using Suc action_loop_length preserves_set_char_length
    by (auto intro!: preserves_intros split: prv_get_key_and_value_t.split)
qed (simp add: preserves_fail)

lemma char_access:
  "i < length (msg s) \<Longrightarrow> get_char i s = Inr (msg s ! i, s)"
  "\<not> i < length (msg s) \<Longrightarrow> get_char i s = Inl OutOfBounds"
  "i < length (msg s) \<Longrightarrow> set_char i c s = Inr ((), s\<lparr>msg := (msg s)[i := c]\<rparr>)"
  by (simp_all add: get_char_def set_char_def)

lemma alias_loop_fuel:
  assumes "reader_bounded env" and "length (msg s) < fuel + i" and "0 < fuel"
    and "length (msg s) < fuel'"
  shows "alias_loop env p off len fuel' fuel i s \<noteq> Inl OutOfFuel"
  using assms(2-4)
proof (induction fuel arbitrary: i s)
  case (Suc n)
  show ?case
  proof (cases "app_context (kii_of p s) = ThingIfContext \<and> (\<exists>r. get_key_and_value_at_index env off len i s = Inr (r, s))")
    case False
    then show ?thesis
      using neverD [OF never_get_key, of env off len i s] reads_only_get_key [of env off len i s]
      by (cases "app_context (kii_of p s)"; cases "get_key_and_value_at_index env off len i s")
        (auto simp: context_thing_def)
  next
    case True
    then obtain r where ctx: "context_thing p s = Inr (thing s, s)"
      and item: "get_key_and_value_at_index env off len i s = Inr (r, s)"
      by (auto simp: context_thing_def)
    show ?thesis
    proof (cases r)
      case (PRV_GET_KEY_AND_VALUE_SUCCESS k kl v vl)
      note item' = item [unfolded PRV_GET_KEY_AND_VALUE_SUCCESS]
      let ?s = "s\<lparr>msg := (msg s)[k + kl := NUL]\<rparr>"
      have i: "i < length (msg s)"
        using get_key_bound [OF assms(1) item'] reads_only_get_key [OF item] by simp
      show ?thesis
      proof (cases "action_loop env p (action_handler (thing s)) k i v vl fuel' 0 ?s")
        case (Inl e)
        have "e \<noteq> OutOfFuel"
          using Inl action_loop_fuel [OF assms(1), of ?s fuel' 0] Suc.prems(3) by force
        with Inl show ?thesis
          by (cases "k + kl < length (msg s)") (simp_all add: ctx item' char_access)
      next
        case (Inr y)
        then obtain b t where loop: "action_loop env p (action_handler (thing s)) k i v vl fuel' 0 ?s
            = Inr (b, t)"
          by (cases y) auto
        have "length (msg t) = length (msg s)"
          using preservesD [OF action_loop_length loop refl] by simp
        then show ?thesis
          using loop Suc.IH [of "t\<lparr>msg := (msg t)[k + kl := msg s ! (k + kl)]\<rparr>" "Suc i"] Suc.prems i
          by (cases b; cases "k + kl < length (msg s)") (simp_all add: ctx item' char_access)
      qed
    qed (simp_all add: ctx item)
  qed
qed simp

lemma never_send_state:
  assumes "\<And>h. never OutOfFuel (call_state_handler env h p (prv_writer env))"
  shows "never OutOfFuel (prv_send_state env p)"
proof -
  have "never OutOfFuel (prv_set_state_resource_path env a i n)" for a i n
    by (simp add: never_def setters_fault)
  then show ?thesis
    unfolding prv_send_state_def by (intro never_intros assms) simp_all
qed

section \<open>Properties\<close>

text \<open>
  C5. \<open>handle_command\<close> terminates: with a JSON reader that finds no element at an index beyond
  its text, and state handlers that return, one unit of fuel more than the message buffer has
  characters is enough for both loops, whatever the message is.
\<close>

theorem handle_command_terminates:
  assumes "reader_bounded env"
    and "\<And>h. never OutOfFuel (call_state_handler env h p (prv_writer env))"
    and "length (msg s) < fuel"
  shows "handle_command env fuel p n s \<noteq> Inl OutOfFuel"
proof -
  let ?I = "\<lambda>t. length (msg t) = length (msg s)"
  have loop: "avoids ?I OutOfFuel (alias_loop env p off len fuel fuel 0)" for off len
    using alias_loop_fuel [OF assms(1)] assms(3) by (auto simp: avoids_def)
  have loop_length: "preserves ?I (alias_loop env p off len fuel fuel 0)" for off len
    by (rule alias_loop_length)
  have "avoids ?I OutOfFuel (handle_command env fuel p n)"
    unfolding handle_command_def
    by (rule avoids_last [OF never_send_state [OF assms(2)]] loop loop_length avoids_chain
        avoids_cases length_frame.call_intros preserves_intros never_avoids never_intros
      | simp)+
  then show ?thesis by (rule avoidsD) simp
qed

text \<open>A reader for arrays of at most two elements, which can be seen to be bounded.\<close>

definition two_element_env :: "(nat, sample_world) env" where
  "two_element_env = sample_env\<lparr>kii_json_read_object := (\<lambda>t fs.
     case fs of
       [f] \<Rightarrow> if jf_path f = Some ''/[0]'' \<or> jf_path f = Some ''/[1]'' then sample_read t fs
              else (KII_JSON_PARSE_PARTIAL_SUCCESS, fs)
     | _ \<Rightarrow> sample_read t fs)\<rparr>"

lemma show_nat_small: "show_nat i = [CHR ''0''] \<Longrightarrow> i = 0" "show_nat i = [CHR ''1''] \<Longrightarrow> i = 1"
proof -
  have long: "\<not> i < 10 \<Longrightarrow> 1 < length (show_nat i)"
    using show_nat_nonempty [of "i div 10"] by (subst show_nat.simps) (cases "show_nat (i div 10)", auto)
  have digit: "i < 10 \<Longrightarrow> show_nat i = [char_of (48 + i)]"
    by (subst show_nat.simps) simp
  have digits: "i < 10 \<Longrightarrow> char_of (48 + i) = CHR ''0'' \<Longrightarrow> i = 0"
    "i < 10 \<Longrightarrow> char_of (48 + i) = CHR ''1'' \<Longrightarrow> i = 1"
    by (drule arg_cong [where f = "of_char :: char \<Rightarrow> nat"], simp)+
  show "show_nat i = [CHR ''0''] \<Longrightarrow> i = 0" "show_nat i = [CHR ''1''] \<Longrightarrow> i = 1"
    using long digit digits by (cases "i < 10"; auto)+
qed

lemma two_element_bounded: "reader_bounded two_element_env"
  unfolding reader_bounded_def
proof (intro allI impI)
  fix T :: string and i :: nat
  assume len: "length T \<le> i"
  let ?f = "index_field two_element_env i"
  show "fst (kii_json_read_object two_element_env T [?f]) \<noteq> KII_JSON_PARSE_SUCCESS"
  proof (cases "i \<le> 1")
    case False
    then have "jf_path ?f \<noteq> Some ''/[0]''" "jf_path ?f \<noteq> Some ''/[1]''"
      using show_nat_small [of i] by (auto simp: index_field_def field_by_path_def)
    then show ?thesis by (simp add: two_element_env_def)
  next
    case True
    have "map_of (spans T) (''/['' @ show_nat i @ '']'') = None"
    proof (cases T)
      case (Cons c cs)
      with len True have "T = [c]" by (cases cs) auto
      then show ?thesis by (simp add: spans_def)
    qed (simp add: spans_def)
    then show ?thesis
      by (auto simp: two_element_env_def sample_read_def read_field_def index_field_def
          field_by_path_def)
  qed
qed

definition sample_array :: string where
  "sample_array = ''[{'' @ dquote @ ''Al'' @ dquote @ '':[{'' @ dquote @ ''turn'' @ dquote @
     '':true},{'' @ dquote @ ''set'' @ dquote @ '':25}]}]''"

definition sample_message :: string where
  "sample_message = ''{'' @ member_text ''commandID'' ''X'' @ '','' @ dquote @ ''actions'' @ dquote @
     '':'' @ sample_array @ ''}''"

definition sample_items :: "alias_items list" where
  "sample_items = [((3, 2, 7, 26), [(3, 4, 9, 4), (17, 3, 22, 2)])]"

definition message_st :: "string \<Rightarrow> (nat, sample_world) st" where
  "message_st t = (sample_st KII_THING_IF_STATE_ONBOARDED [(201, []), (201, [])])\<lparr>msg := t @ [NUL]\<rparr>"

theorem handle_command_terminates_witness:
  "handle_command two_element_env 200 CommandHandler (length sample_message) (message_st sample_message)
    \<noteq> Inl OutOfFuel"
proof (rule handle_command_terminates [OF two_element_bounded])
  have "never OutOfFuel (prv_writer two_element_env CommandHandler b)" for b
    unfolding prv_writer_def by (intro never_intros)
  then show "never OutOfFuel (call_state_handler two_element_env h CommandHandler
      (prv_writer two_element_env))" for h
    by (simp add: two_element_env_def sample_env_def)
  have "length (msg (message_st sample_message)) = length sample_message + 1"
    by (simp add: message_st_def)
  moreover have "length sample_message < 100" by code_simp
  ultimately show "length (msg (message_st sample_message)) < 200" by simp
qed

section \<open>What a command does\<close>

text \<open>
  C2. The calls of the action handler. However a run on a described command ends, the handler
  has been called for the first few actions of the command, each once, in the order of the
  message and with its alias, name and value; and when a request was run it has been called for
  all of them.
\<close>

theorem handle_command_calls:
  assumes "\<And>h. writes_only env h p"
    and "command_from env (take n (msg s)) cid T als"
    and "handle_command env fuel p n s = Inr ((), s')"
  shows "\<exists>es k. trace s' = trace s @ es \<and>
    handler_calls_of es = take k (map snd (command_steps 0 T als)) \<and>
    ((\<exists>q r. ApiRun q r \<in> set es) \<longrightarrow> handler_calls_of es = map snd (command_steps 0 T als))"
  using assms
proof (cases rule: handle_command_outcome)
  case (stopped es k)
  then have "ApiRun q r \<notin> set es" for q r by (auto simp: list_all_iff)
  with stopped show ?thesis by blast
next
  case (sent os r rest path')
  let ?xs = "command_steps 0 T als"
  let ?es = "results_events p (results_path (app_id (kii_of p s))
    (c_str (author_id (author (kii_of p s)))) cid) ?xs os r @ rest"
  have "handler_calls_of rest = []"
    using sent(4) attempt_requests(2) by auto
  then have "handler_calls_of ?es = map snd ?xs"
    using handler_calls_results [OF sent(1)] by simp
  then show ?thesis
    using sent(3) by (intro exI [where x = ?es] exI [where x = "length ?xs"]) simp
qed

definition sample_command_run :: "fault + unit \<times> (nat, sample_world) st" where
  "sample_command_run =
     handle_command sample_env 10 CommandHandler (length sample_message) (message_st sample_message)"

lemma sample_message_command:
  "command_from sample_env (take (length sample_message) (msg (message_st sample_message))) ''X''
     sample_array sample_items"
proof -
  have "take (length sample_message) (msg (message_st sample_message)) = sample_message"
    by (simp add: message_st_def)
  moreover have "command_from sample_env sample_message ''X'' sample_array sample_items"
    by code_simp
  ultimately show ?thesis by simp
qed

lemma sample_command_steps:
  "map snd (command_steps 0 sample_array sample_items) =
     [(''Al'', ''turn'', ''true''), (''Al'', ''set'', ''25'')]"
  by code_simp

theorem handle_command_calls_witness:
  "\<exists>s' k. sample_command_run = Inr ((), s') \<and>
     handler_calls_of (trace s') = take k [(''Al'', ''turn'', ''true''), (''Al'', ''set'', ''25'')]"
proof -
  have "returns () sample_command_run" by code_simp
  then obtain s' where s': "sample_command_run = Inr ((), s')" by (rule returnsE)
  have "trace (message_st sample_message) = []" by (simp add: message_st_def sample_st_def)
  with handle_command_calls [OF sample_writes_only sample_message_command
      s' [unfolded sample_command_run_def]] s'
  show ?thesis unfolding sample_command_steps by auto
qed

text \<open>
  C1. The results request. When a run on a described command runs a request at all, the first
  one is the PUT of the results of all its actions to the command's path: one result for each
  action, in order, with the answer and the message that the action handler gave for it. The only
  request that may follow is the state update, every failed action said why, and the message
  buffer is what it was before: every character overwritten by a NUL was put back.
\<close>

theorem handle_command_results:
  assumes "\<And>h. writes_only env h p"
    and "command_from env (take n (msg s)) cid T als"
    and "handle_command env fuel p n s = Inr ((), s')"
    and "trace s' = trace s @ es" and "ApiRun q r \<in> set es"
  shows "\<exists>os more. requests p es = results_request (results_path (app_id (kii_of p s))
      (c_str (author_id (author (kii_of p s)))) cid) (steps_text (command_steps 0 T als) os) # more \<and>
    length more \<le> 1 \<and> length os = length (command_steps 0 T als) \<and> list_all said os \<and>
    handler_calls_of es = map snd (command_steps 0 T als) \<and> answers_of es = map answer os \<and>
    list_all (given env) es \<and> msg s' = msg s"
  using assms(1-3)
proof (cases rule: handle_command_outcome)
  case (stopped es' k)
  then show ?thesis using assms(4,5) by (auto simp: list_all_iff)
next
  case (sent os r rest path')
  let ?path = "results_path (app_id (kii_of p s)) (c_str (author_id (author (kii_of p s)))) cid"
  let ?xs = "command_steps 0 T als"
  have es: "es = results_events p ?path ?xs os r @ rest"
    using sent(3) assms(4) by simp
  obtain cur more where "replay p rest (None, [results_request ?path (steps_text ?xs os)]) =
      (cur, [results_request ?path (steps_text ?xs os)] @ more)" "length more \<le> 1"
    using sent(4) attempt_requests(1) [of p path' rest "[results_request ?path (steps_text ?xs os)]"]
    by (cases "rest = []") auto
  then have "requests p es = results_request ?path (steps_text ?xs os) # more"
    by (simp add: requests_def es requests_results)
  moreover have "handler_calls_of rest = []"
    using sent(4) attempt_requests(2) by auto
  then have "handler_calls_of es = map snd ?xs" "answers_of es = map answer os"
    using handler_calls_results [OF sent(1)] answers_calls [of rest] answers_steps sent(1)
    by (simp_all add: es results_events_def)
  ultimately show ?thesis
    using \<open>length more \<le> 1\<close> sent command_given [OF assms(1,3,4)] by blast
qed

theorem handle_command_results_witness:
  "\<exists>s' os. sample_command_run = Inr ((), s') \<and> msg s' = sample_message @ [NUL] \<and> length os = 2 \<and>
     answers_of (trace s') = map answer os"
proof -
  have "case sample_command_run of Inl _ \<Rightarrow> False
    | Inr (_, s') \<Rightarrow> ApiRun CommandHandler 0 \<in> set (trace s')" by code_simp
  then obtain s' where s': "sample_command_run = Inr ((), s')"
    and run: "ApiRun CommandHandler 0 \<in> set (trace s')"
    by (auto split: sum.splits)
  have "trace (message_st sample_message) = []" "msg (message_st sample_message) = sample_message @ [NUL]"
    by (simp_all add: message_st_def sample_st_def)
  with handle_command_results [OF sample_writes_only sample_message_command
      s' [unfolded sample_command_run_def] _ run]
  obtain os where "length os = length (command_steps 0 sample_array sample_items)"
    "answers_of (trace s') = map answer os" "msg s' = sample_message @ [NUL]"
    by auto
  with s' arg_cong [OF sample_command_steps, of length] show ?thesis
    by (intro exI [where x = s'] exI [where x = os]) simp
qed

text \<open>
  C20. The body of the results request. When no comma was refused, the results are separated by
  commas, as JSON requires, exactly when the first alias has an action: the comma is written by
  the position of alias and action and not by whether a result precedes it, so a command whose
  first alias has no actions gets a body that begins with a comma.
\<close>

theorem handle_command_body:
  assumes "\<And>h. writes_only env h p"
    and "command_from env (take n (msg s)) cid T als"
    and "handle_command env fuel p n s = Inr ((), s')"
    and "trace s' = trace s @ es" and "ApiRun q r \<in> set es"
    and "\<And>c. ApiAppend p '','' c \<in> set es \<Longrightarrow> c = 0"
  shows "\<exists>os. length os = length (command_steps 0 T als) \<and>
    rq_body (hd (requests p es)) = results_header @
      (if os \<noteq> [] \<and> snd (hd als) = [] then '','' else []) @
      join_commas (step_results (command_steps 0 T als) os) @ '']}''"
  using assms(1-3)
proof (cases rule: handle_command_outcome)
  case (stopped es' k)
  then show ?thesis using assms(4,5) by (auto simp: list_all_iff)
next
  case (sent os r rest path')
  let ?path = "results_path (app_id (kii_of p s)) (c_str (author_id (author (kii_of p s)))) cid"
  let ?xs = "command_steps 0 T als"
  have es: "es = results_events p ?path ?xs os r @ rest"
    using sent(3) assms(4) by simp
  have commas: "commas_accepted ?xs os"
    by (rule commas_accepted_events [OF sent(1)]) (auto intro!: assms(6) simp: es results_events_def)
  obtain cur more where "replay p rest (None, [results_request ?path (steps_text ?xs os)]) =
      (cur, [results_request ?path (steps_text ?xs os)] @ more)"
    using sent(4) attempt_requests(1) [of p path' rest "[results_request ?path (steps_text ?xs os)]"]
    by (cases "rest = []") auto
  then have "rq_body (hd (requests p es)) = results_header @ steps_text ?xs os @ '']}''"
    by (simp add: requests_def es requests_results results_request_def)
  then have "rq_body (hd (requests p es)) = results_header @
      ((if os \<noteq> [] \<and> snd (hd als) = [] then '','' else []) @ join_commas (step_results ?xs os)) @ '']}''"
    unfolding steps_text_commas [OF sent(1) commas] .
  with sent(1) show ?thesis by (intro exI [where x = os]) (simp only: append_assoc)
qed

theorem handle_command_body_witness:
  "\<exists>s' os. sample_command_run = Inr ((), s') \<and> length os = length (command_steps 0 sample_array sample_items) \<and>
     rq_body (hd (requests CommandHandler (trace s'))) = results_header @
       join_commas (step_results (command_steps 0 sample_array sample_items) os) @ '']}''"
proof -
  have "case sample_command_run of Inl _ \<Rightarrow> False
    | Inr (_, s') \<Rightarrow> ApiRun CommandHandler 0 \<in> set (trace s') \<and>
        list_all (\<lambda>e. case e of ApiAppend _ _ r \<Rightarrow> r = 0 | _ \<Rightarrow> True) (trace s')" by code_simp
  then obtain s' where s': "sample_command_run = Inr ((), s')"
    and run: "ApiRun CommandHandler 0 \<in> set (trace s')"
    and ok: "list_all (\<lambda>e. case e of ApiAppend _ _ r \<Rightarrow> r = 0 | _ \<Rightarrow> True) (trace s')"
    by (auto split: sum.splits)
  have tr: "trace s' = trace (message_st sample_message) @ trace s'"
    by (simp add: message_st_def sample_st_def)
  have commas: "c = 0" if "ApiAppend CommandHandler '','' c \<in> set (trace s')" for c
    using ok that by (auto simp: list_all_iff)
  have items: "snd (hd sample_items) \<noteq> []"
    by (simp add: sample_items_def)
  show ?thesis
    using handle_command_body [OF sample_writes_only sample_message_command
      s' [unfolded sample_command_run_def] tr run commas] s' items
    by auto
qed

text \<open>
  C21. The path of the results request and its array of 256 characters. A longer path makes the
  function return with nothing done and a shorter one is written and used for the start of the
  request; but the check counts one character too few, so a path of exactly 256 characters passes
  it and its NUL is written behind the array.
\<close>

theorem handle_command_path_bounds:
  assumes "command_from env (take n (msg s)) cid T als" and "n \<le> length (msg s)"
    and "NUL \<in> set (author_id (author (kii_of p s)))"
    and "path = results_path (app_id (kii_of p s)) (c_str (author_id (author (kii_of p s)))) cid"
  shows "if 256 < length path then handle_command env fuel p n s = Inr ((), s)
    else if length path = 256 then handle_command env fuel p n s = Inl OutOfBounds
    else \<forall>u s'. handle_command env fuel p n s = Inr (u, s') \<longrightarrow>
      (\<exists>r s1. api_start env p ''PUT'' path (Some ''application/json'') True s = Inr (r, s1) \<and>
        (r \<noteq> 0 \<longrightarrow> s' = s1))"
proof -
  obtain off len where "handle_command env fuel p n s =
      (if 256 < length path then Inr ((), s)
       else if length path = 256 then Inl OutOfBounds
       else command_tail env fuel p off len path s)"
    by (rule handle_command_apply [OF assms])
  then show ?thesis
    by (auto simp: command_tail_def chain_eq_Inr split: if_splits)
qed

text \<open>A command whose identifier makes the path 256 characters long.\<close>

definition long_id :: string where
  "long_id = replicate 192 (CHR ''X'')"

definition long_fields :: "kii_json_field_t list" where
  "long_fields = map (\<lambda>f. f\<lparr>jf_start := 0, jf_end := if jf_path f = Some ''/commandID'' then 192 else 0\<rparr>)
     (command_fields sample_env)"

definition long_env :: "(nat, sample_world) env" where
  "long_env = sample_env\<lparr>kii_json_read_object := (\<lambda>t fs.
     if length fs = 2 then (KII_JSON_PARSE_SUCCESS, long_fields)
     else (KII_JSON_PARSE_PARTIAL_SUCCESS, fs))\<rparr>"

theorem handle_command_path_bounds_witness:
  "handle_command long_env 10 CommandHandler 192 (message_st long_id) = Inl OutOfBounds"
proof -
  have take: "take 192 (msg (message_st long_id)) = long_id"
    by (simp add: message_st_def long_id_def)
  have "aliases_from long_env [] 0 []"
    by code_simp
  then have desc: "command_from long_env (take 192 (msg (message_st long_id))) long_id [] []"
    unfolding take
    by (simp add: command_from_def command_fields_def long_env_def long_fields_def long_id_def NUL_def
        field_by_path_def)
  have n: "192 \<le> length (msg (message_st long_id))"
    by (simp add: message_st_def long_id_def)
  have kii: "kii_of CommandHandler (message_st long_id) = sample_kii"
    by (simp add: message_st_def sample_st_def sample_thing_def kii_of_def)
  have nul: "NUL \<in> set (author_id (author (kii_of CommandHandler (message_st long_id))))"
    unfolding kii by code_simp
  have "length (results_path (app_id sample_kii) (c_str (author_id (author sample_kii))) long_id) = 256"
    by code_simp
  then show ?thesis
    using handle_command_path_bounds [OF desc n nul refl, of 10] unfolding kii by simp
qed

end
