(* ===== verification/Command_Tests.thy ===== *)
theory Command_Tests
  imports Command_Properties
begin

text \<open>
  The repository's own test of \<open>handle_command\<close> (tests/small_tests/handle_command_test.c) and a
  corner case of the results request as evaluated runs, and what becomes of a command whose
  action handler fails without a message: under conditions that rule out every other fault, the
  run ends in the read of the uninitialised array.
\<close>

section \<open>Evaluated runs\<close>

definition test_message :: string where
  "test_message = ''{'' @ member_text ''commandID'' ''XXXXXXXX-XXXX-XXXX-XXXX-XXXXXXXXXXXX'' @ '','' @
     dquote @ ''actions'' @ dquote @ '':[{'' @ dquote @ ''AirConditionerAlias'' @ dquote @ '':[{'' @
     dquote @ ''turnPower'' @ dquote @ '':true},{'' @ dquote @ ''setPresetTemperature'' @ dquote @
     '':25}]},{'' @ dquote @ ''HumidityAlias'' @ dquote @ '':[{'' @ dquote @ ''setPresetHumidity'' @
     dquote @ '':45}]}],'' @ member_text ''issuer'' ''user:XXXXXXXXXXXX-XXXX-XXXX-XXXX-XXXXXXXX'' @ ''}''"
definition result_true :: "string \<Rightarrow> string" where
  "result_true nm = ''{'' @ dquote @ nm @ dquote @ '':{'' @ dquote @ ''succeeded'' @ dquote @ '':true}}''"
definition test_st :: "(nat, sample_world) st" where
  "test_st = (let k = sample_kii\<lparr>app_id := ''app_id'', app_key := ''app_key'',
       author := \<lparr>author_id = ''owenr'' @ [NUL], access_token = ''token'' @ [NUL]\<rparr>\<rparr>
     in (message_st test_message)\<lparr>thing := (sample_thing KII_THING_IF_STATE_INITIALIZED)
       \<lparr>command_handler := k, state_updater := k\<rparr>\<rparr>)"

text \<open>
  The repository's test \<open>kiiThingIfTest.handle_command\<close>: for its payload, application and
  author, the action handler gets the three expected calls and the two requests are the expected
  ones (what the Kii library makes of them, headers and content length, is not the SDK's).
\<close>

theorem handle_command_test:
  "case test_handle_command sample_env 10 CommandHandler (length test_message) test_st of
   Inl _ \<Rightarrow> False
 | Inr (_, s') \<Rightarrow>
     handler_calls_of (trace s') =
       [(''AirConditionerAlias'', ''turnPower'', ''true''),
        (''AirConditionerAlias'', ''setPresetTemperature'', ''25''),
        (''HumidityAlias'', ''setPresetHumidity'', ''45'')] \<and>
     requests CommandHandler (trace s') =
       [\<lparr>rq_method = ''PUT'', rq_path =
          ''thing-if/apps/app_id/targets/thing:owenr/commands/XXXXXXXX-XXXX-XXXX-XXXX-XXXXXXXXXXXX/action-results'',
          rq_content_type = Some ''application/json'', rq_auth = True,
          rq_body = ''{'' @ dquote @ ''actionResults'' @ dquote @ '':['' @ result_true ''turnPower'' @ '','' @
            result_true ''setPresetTemperature'' @ '','' @ result_true ''setPresetHumidity'' @ '']}''\<rparr>,
        \<lparr>rq_method = ''PUT'', rq_path = ''thing-if/apps/app_id/targets/thing:owenr/states'',
          rq_content_type = Some ''application/vnd.kii.MultipleTraitState+json'', rq_auth = True,
          rq_body = ''{'' @ dquote @ ''power'' @ dquote @ '':true}''\<rparr>]"
  by code_simp

definition empty_alias_message :: string where
  "empty_alias_message = ''{'' @ member_text ''commandID'' ''X'' @ '','' @ dquote @ ''actions'' @ dquote @
     '':[{'' @ dquote @ ''A'' @ dquote @ '':[]},{'' @ dquote @ ''B'' @ dquote @ '':[{'' @ dquote @ ''t'' @
     dquote @ '':1}]}]}''"

text \<open>
  For instance, a command whose first alias has no actions is reported with a body that is not JSON: the
  first result is preceded by a comma.
\<close>

lemma leading_comma:
  "case handle_command sample_env 10 CommandHandler (length empty_alias_message)
       (message_st empty_alias_message) of
     Inl _ \<Rightarrow> False
   | Inr (_, s') \<Rightarrow>
       rq_body (hd (requests CommandHandler (trace s'))) =
         ''{'' @ dquote @ ''actionResults'' @ dquote @ '':[,'' @ result_true ''t'' @ '']}''"
  by code_simp

section \<open>Handlers that fail silently\<close>

text \<open>
  \<open>settles m s Q\<close>: from \<open>s\<close>, \<open>m\<close> either runs to its end with a result that satisfies \<open>Q\<close>, or it
  reads something uninitialised; no other fault is possible.
\<close>

definition settles :: "('s, 'a) prog \<Rightarrow> 's \<Rightarrow> ('a \<Rightarrow> 's \<Rightarrow> bool) \<Rightarrow> bool" where
  "settles m s Q \<longleftrightarrow> (case m s of Inl e \<Rightarrow> e = Uninitialised | Inr (a, t) \<Rightarrow> Q a t)"

lemma settles_Inr: "m s = Inr (a, t) \<Longrightarrow> Q a t \<Longrightarrow> settles m s Q"
  by (simp add: settles_def)

lemma settles_after: "m s = Inr (a, t) \<Longrightarrow> settles (f a) t Q \<Longrightarrow> settles (chain m f) s Q"
  by (simp add: settles_def)

lemma settles_through:
  "settles m s P \<Longrightarrow> (\<And>a t. P a t \<Longrightarrow> settles (f a) t Q) \<Longrightarrow> settles (chain m f) s Q"
  by (cases "m s") (auto simp: settles_def)

text \<open>A library that accepts every start and every append, and messages that fit their array.\<close>

definition accepting :: "('p, 'w) env \<Rightarrow> bool" where
  "accepting env \<longleftrightarrow>
     (\<forall>k meth path ctype auth w. fst (kii_api_call_start env k meth path ctype auth w) = 0) \<and>
     (\<forall>k b w. fst (kii_api_call_append_body env k b w) = 0)"

definition messages_fit :: "('p, 'w) env \<Rightarrow> fn_ptr \<Rightarrow> bool" where
  "messages_fit env h \<longleftrightarrow> (\<forall>al nm v w. case snd (fst (call_action_handler env h al nm v w)) of
     None \<Rightarrow> True | Some m \<Rightarrow> length m \<le> EMESSAGE_SIZE)"

definition ready :: "kii_ptr \<Rightarrow> fn_ptr \<Rightarrow> ('p, 'w) st \<Rightarrow> bool" where
  "ready p h s \<longleftrightarrow> app_context (kii_of p s) = ThingIfContext \<and> action_handler (thing s) = Some h"

text \<open>The handler always fails without a message when it is called in this way.\<close>

definition silent :: "('p, 'w) env \<Rightarrow> fn_ptr \<Rightarrow> string \<times> string \<times> string \<Rightarrow> bool" where
  "silent env h x \<longleftrightarrow> (case x of (al, nm, v) \<Rightarrow>
     \<forall>w. fst (call_action_handler env h al nm v w) = (False, None))"

lemma put_kii_handler [simp]: "action_handler (put_kii p k t) = action_handler t"
  by (cases p) (simp_all add: put_kii_def)

lemma ready_call:
  assumes "ready p h s" and "call_kii p f ev s = Inr (r, t)" and "same_identity (kii_of p s) (kii_of p t)"
  shows "ready p h t"
  using assms by (auto simp: ready_def same_identity_def call_kii_eq_Inr)

lemma start_accepted:
  assumes "accepting env" and "kii_api_frame env" and "ready p h s"
  obtains t where "api_start env p meth path ctype auth s = Inr (0, t)" and "msg t = msg s" and "ready p h t"
proof -
  obtain r t where run: "api_start env p meth path ctype auth s = Inr (r, t)"
    by (cases "api_start env p meth path ctype auth s") (auto simp: api_start_def)
  then have "r = 0"
    using assms(1) unfolding accepting_def by (auto simp: api_start_def call_kii_eq_Inr) (metis fst_conv)
  with run show thesis
    using that ready_call [OF assms(3) run [unfolded api_start_def] api_call_identity(1) [OF assms(2) run]]
      call_kii_msg [OF run [unfolded api_start_def]] by simp
qed

lemma append_accepted:
  assumes "accepting env" and "kii_api_frame env" and "ready p h s"
  obtains t where "api_append env p b s = Inr (0, t)" and "msg t = msg s" and "ready p h t"
proof -
  obtain r t where run: "api_append env p b s = Inr (r, t)"
    by (cases "api_append env p b s") (auto simp: api_append_def)
  then have "r = 0"
    using assms(1) unfolding accepting_def by (auto simp: api_append_def call_kii_eq_Inr) (metis fst_conv)
  with run show thesis
    using that ready_call [OF assms(3) run [unfolded api_append_def] api_call_identity(2) [OF assms(2) run]]
      call_kii_msg [OF run [unfolded api_append_def]] by simp
qed

lemma chunks_accepted:
  assumes "accepting env" and "kii_api_frame env" and "ready p h s"
  obtains t where "append_chunks env p cs s = Inr (0, t)" and "msg t = msg s" and "ready p h t"
  using assms(3)
proof (induction cs arbitrary: s thesis)
  case (Cons c cs)
  obtain t where t: "api_append env p c s = Inr (0, t)" "msg t = msg s" "ready p h t"
    by (rule append_accepted [OF assms(1,2) Cons.prems(2)])
  obtain u where "append_chunks env p cs t = Inr (0, u)" "msg u = msg t" "ready p h u"
    using Cons.IH [of t] t(3) by blast
  with t Cons.prems(1) show ?case by simp
qed simp

text \<open>The result of an action is written, unless its failure has no message.\<close>

lemma result_writes_settle:
  assumes "accepting env" and "kii_api_frame env" and "ready p h s"
    and name: "NUL \<in> set (drop name (msg s))"
  shows "settles (result_writes env p name ok e) s (\<lambda>failed t. \<not> failed \<and> msg t = msg s \<and> ready p h t \<and> (ok \<or> e \<noteq> None))"
proof -
  obtain s1 where s1: "api_append env p (''{'' @ dquote) s = Inr (0, s1)" "msg s1 = msg s" "ready p h s1"
    by (rule append_accepted [OF assms(1-3)])
  obtain s2 where s2: "api_append env p (c_str (drop name (msg s))) s1 = Inr (0, s2)" "msg s2 = msg s1" "ready p h s2"
    by (rule append_accepted [OF assms(1,2) s1(3)])
  obtain s3 where s3: "api_append env p (dquote @ '':{'') s2 = Inr (0, s3)" "msg s3 = msg s2" "ready p h s3"
    by (rule append_accepted [OF assms(1,2) s2(3)])
  obtain s4 where s4: "prv_append_key_value_bool env p (Some ''succeeded'') ok False s3 = Inr (0, s4)"
    "msg s4 = msg s3" "ready p h s4"
    unfolding prv_append_key_value_bool_chunks by (rule chunks_accepted [OF assms(1,2) s3(3)])
  have nm: "cstr_at name s1 = Inr (c_str (drop name (msg s)), s1)"
    using name s1(2) by (simp add: cstr_at_eq_Inr)
  show ?thesis
  proof (cases "ok \<or> e \<noteq> None")
    case True
    then have error: "append_error_message env p ok e =
        append_chunks env p (opt_chunks ''errorMessage'' (if ok then None else e) True)"
      by (auto simp: append_error_message_def prv_append_optional_chunks split: option.split)
    obtain s5 where s5: "append_error_message env p ok e s4 = Inr (0, s5)" "msg s5 = msg s4" "ready p h s5"
      unfolding error by (rule chunks_accepted [OF assms(1,2) s4(3)])
    obtain s6 where s6: "api_append env p ''}}'' s5 = Inr (0, s6)" "msg s6 = msg s5" "ready p h s6"
      by (rule append_accepted [OF assms(1,2) s5(3)])
    show ?thesis
      by (rule settles_Inr [of _ _ False s6]) (use s1 s2 s3 s4 s5 s6 nm True in simp_all)
  next
    case False
    obtain t where "append_chunks env p ['','', dquote, ''errorMessage'', dquote @ '':'', dquote] s4 = Inr (0, t)"
      by (rule chunks_accepted [OF assms(1,2) s4(3)])
    then have "append_error_message env p ok e s4 = Inl Uninitialised"
      using False by (auto simp: append_error_message_def chain_eq_Inr chain_eq_Inl split: if_splits)
    with s1 s2 s3 s4 nm show ?thesis by (simp add: settles_def)
  qed
qed

lemma call_action_fits:
  assumes "messages_fit env h" and "ready p h s"
  obtains ok e t where "call_action env (Some h) al nm v s = Inr ((ok, e), t)" and "msg t = msg s"
    and "ready p h t" and "ok \<or> e \<noteq> None \<longrightarrow> \<not> silent env h (al, nm, v)"
proof -
  obtain ok e w where run: "call_action_handler env h al nm v (world s) = ((ok, e), w)"
    by (metis surj_pair)
  let ?t = "s\<lparr>world := w, trace := trace s @ [ActionCall al nm v ok e]\<rparr>"
  have "case e of None \<Rightarrow> True | Some m \<Rightarrow> length m \<le> EMESSAGE_SIZE"
    using assms(1) run unfolding messages_fit_def by (metis fst_conv snd_conv)
  then have "call_action env (Some h) al nm v s = Inr ((ok, e), ?t)"
    using run by (cases e) (simp_all add: call_action_def)
  moreover have "ok \<or> e \<noteq> None \<longrightarrow> \<not> silent env h (al, nm, v)"
    by (simp add: silent_def exI [where x = "world s"] run)
  moreover have "ready p h ?t" using assms(2) by (simp add: ready_def)
  ultimately show thesis by (intro that) simp_all
qed

lemma handle_action_settles:
  assumes env: "accepting env" "kii_api_frame env" "messages_fit env h" and ready: "ready p h s"
    and al: "alias_name + alen < name" "msg s ! (alias_name + alen) = NUL"
      "NUL \<notin> set (take alen (drop alias_name (msg s)))"
    and pair: "name + nl < val" "val + vl < length (msg s)"
      "NUL \<notin> set (take nl (drop name (msg s)))" "NUL \<notin> set (take vl (drop val (msg s)))"
  shows "settles (handle_action env p (Some h) alias_name i j name nl val vl) s (\<lambda>ok t. ok \<and> msg t = msg s \<and>
    ready p h t \<and> \<not> silent env h (take alen (drop alias_name (msg s)), take nl (drop name (msg s)),
      take vl (drop val (msg s))))"
proof -
  let ?m = "msg s" and ?a = "alias_name"
  let ?m' = "?m[name + nl := NUL, val + vl := NUL]"
  let ?al = "take alen (drop ?a ?m)" and ?nm = "take nl (drop name ?m)" and ?v = "take vl (drop val ?m)"
  have same: "take alen (drop ?a ?m') = ?al" "take nl (drop name ?m') = ?nm" "take vl (drop val ?m') = ?v"
    using al pair by (simp_all add: take_drop_update)
  have str_al: "c_str (drop ?a ?m') = ?al" "NUL \<in> set (drop ?a ?m')"
    using c_str_span [of ?a alen ?m'] same al pair by (simp_all add: nth_list_update)
  have str_nm: "c_str (drop name ?m') = ?nm" "NUL \<in> set (drop name ?m')"
    using c_str_span [of name nl ?m'] same pair by (simp_all add: nth_list_update)
  have str_v: "c_str (drop val ?m') = ?v" "NUL \<in> set (drop val ?m')"
    using c_str_span [of val vl ?m'] same pair by (simp_all add: nth_list_update)
  have "ready p h (s\<lparr>msg := ?m'\<rparr>)" using ready by (simp add: ready_def)
  then obtain ok e s1 where s1: "call_action env (Some h) ?al ?nm ?v (s\<lparr>msg := ?m'\<rparr>) = Inr ((ok, e), s1)"
    "msg s1 = ?m'" "ready p h s1" and told: "ok \<or> e \<noteq> None \<longrightarrow> \<not> silent env h (?al, ?nm, ?v)"
    by (rule call_action_fits [OF env(3)]) simp
  obtain s2 where s2: "(if i > 0 \<or> j > 0 then chain (api_append env p '','') (\<lambda>_. ret ()) else ret ()) s1 = Inr ((), s2)"
    "msg s2 = ?m'" "ready p h s2"
  proof (cases "i > 0 \<or> j > 0")
    case True
    obtain u where "api_append env p '','' s1 = Inr (0, u)" "msg u = msg s1" "ready p h u"
      by (rule append_accepted [OF env(1,2) s1(3)])
    with True s1 that show thesis by simp
  qed (use s1 that in simp)
  have writes: "settles (result_writes env p name ok e) s2
      (\<lambda>failed t. \<not> failed \<and> msg t = ?m' \<and> ready p h t \<and> (ok \<or> e \<noteq> None))"
    using result_writes_settle [OF env(1,2) s2(3), of name ok e] str_nm(2) unfolding s2(2) by simp
  have "settles (chain (result_writes env p name ok e) (\<lambda>failed.
      if failed then ret False
      else chain (set_char (name + nl) (?m ! (name + nl))) (\<lambda>_.
        chain (set_char (val + vl) (?m ! (val + vl))) (\<lambda>_. ret True)))) s2
      (\<lambda>ok t. ok \<and> msg t = ?m \<and> ready p h t \<and> \<not> silent env h (?al, ?nm, ?v))"
  proof (rule settles_through [OF writes])
    fix failed t
    assume t: "\<not> failed \<and> msg t = ?m' \<and> ready p h t \<and> (ok \<or> e \<noteq> None)"
    let ?t = "t\<lparr>msg := ?m\<rparr>"
    have "(chain (set_char (name + nl) (?m ! (name + nl))) (\<lambda>_.
        chain (set_char (val + vl) (?m ! (val + vl))) (\<lambda>_. ret True))) t = Inr (True, ?t)"
      using t pair by (simp add: set_char_def two_updates_restore)
    moreover have "ready p h ?t" using t by (simp add: ready_def)
    ultimately show "settles (if failed then ret False
      else chain (set_char (name + nl) (?m ! (name + nl))) (\<lambda>_.
        chain (set_char (val + vl) (?m ! (val + vl))) (\<lambda>_. ret True))) t
      (\<lambda>ok t. ok \<and> msg t = ?m \<and> ready p h t \<and> \<not> silent env h (?al, ?nm, ?v))"
      using t told by (simp add: settles_def)
  qed
  moreover have "handle_action env p (Some h) alias_name i j name nl val vl s =
      chain (result_writes env p name ok e) (\<lambda>failed.
      if failed then ret False
      else chain (set_char (name + nl) (?m ! (name + nl))) (\<lambda>_.
        chain (set_char (val + vl) (?m ! (val + vl))) (\<lambda>_. ret True))) s2"
    unfolding handle_action_def
    using pair s1(1) s2(1) str_al str_nm str_v
    by (simp add: get_char_def set_char_def cstr_at_def cstr_def del: or_chain.simps)
  ultimately show ?thesis by (simp only: settles_def)
qed

lemma action_loop_settles:
  fixes env :: "('p, 'w) env"
  assumes env: "accepting env" "kii_api_frame env" "messages_fit env h" and nul: "NUL \<notin> set T"
    and "items_from env T j its" and T: "T = take len (drop off (msg s))" and "off + len \<le> length (msg s)"
    and "al + alen < off" "msg s ! (al + alen) = NUL" "NUL \<notin> set (take alen (drop al (msg s)))"
    and "ready p h s" and "length its < fuel"
  shows "settles (action_loop env p (Some h) al i off len fuel j) s (\<lambda>ok t. ok \<and> msg t = msg s \<and> ready p h t \<and>
    (\<forall>x \<in> set (action_steps i j (take alen (drop al (msg s))) T its). \<not> silent env h (snd x)))"
  using assms(5-)
proof (induction its arbitrary: j s fuel)
  case Nil
  then obtain n where fuel: "fuel = Suc n" by (cases fuel) auto
  have "get_key_and_value_at_index env off len j s = Inr (PRV_GET_KEY_AND_VALUE_FINISH, s)"
    using get_end [OF _ Nil.prems(2,3)] Nil.prems(1) by simp
  with Nil.prems(7) show ?case by (simp add: fuel settles_def)
next
  case (Cons x its)
  let ?al = "take alen (drop al (msg s))"
  obtain k kl v vl where x: "x = (k, kl, v, vl)" by (cases x) auto
  obtain n where fuel: "fuel = Suc n" "length its < n" using Cons.prems(8) by (cases fuel) auto
  have item: "get_key_and_value_at_index env off len j s =
      Inr (PRV_GET_KEY_AND_VALUE_SUCCESS (off + k) kl (off + v) vl, s)"
    using get_item [OF _ Cons.prems(2,3)] Cons.prems(1) x by simp
  have pair: "k + kl < v" "v + vl < len"
    using Cons.prems(1-3) x by (auto simp: pair_in_def)
  have sub: "take kl (drop (off + k) (msg s)) = key_text T x"
    "take vl (drop (off + v) (msg s)) = value_text T x"
    unfolding Cons.prems(2) x key_text_def value_text_def using pair by (simp_all add: take_drop_sub)
  have "al + alen < off + k" "off + k + kl < off + v" "off + v + vl < length (msg s)"
    "NUL \<notin> set (take kl (drop (off + k) (msg s)))" "NUL \<notin> set (take vl (drop (off + v) (msg s)))"
    using Cons.prems(3,4) pair NUL_sub [OF nul] sub by (auto simp: x key_text_def value_text_def)
  from handle_action_settles [OF env Cons.prems(7) this(1) Cons.prems(5,6) this(2-5), of i j]
  have act: "settles (handle_action env p (Some h) al i j (off + k) kl (off + v) vl) s (\<lambda>ok t. ok \<and>
      msg t = msg s \<and> ready p h t \<and> \<not> silent env h (?al, key_text T x, value_text T x))"
    unfolding sub .
  have "settles (chain (handle_action env p (Some h) al i j (off + k) kl (off + v) vl) (\<lambda>ok.
      if \<not> ok then ret False else action_loop env p (Some h) al i off len n (Suc j))) s
    (\<lambda>ok t. ok \<and> msg t = msg s \<and> ready p h t \<and>
      (\<forall>y \<in> set (action_steps i j ?al T (x # its)). \<not> silent env h (snd y)))"
  proof (rule settles_through [OF act])
    fix ok and t :: "('p, 'w) st"
    assume t: "ok \<and> msg t = msg s \<and> ready p h t \<and> \<not> silent env h (?al, key_text T x, value_text T x)"
    have m: "msg t = msg s" using t by simp
    have "settles (action_loop env p (Some h) al i off len n (Suc j)) t (\<lambda>ok u. ok \<and> msg u = msg s \<and> ready p h u \<and>
        (\<forall>y \<in> set (action_steps i (Suc j) ?al T its). \<not> silent env h (snd y)))"
      by (rule Cons.IH [of "Suc j" t n, unfolded m]) (use Cons.prems t fuel(2) in simp_all)
    with t show "settles (if \<not> ok then ret False else action_loop env p (Some h) al i off len n (Suc j)) t
      (\<lambda>ok t. ok \<and> msg t = msg s \<and> ready p h t \<and>
        (\<forall>y \<in> set (action_steps i j ?al T (x # its)). \<not> silent env h (snd y)))"
      by (simp add: settles_def)
  qed
  with item show ?case by (simp add: fuel(1) settles_def)
qed

lemma alias_loop_settles:
  fixes env :: "('p, 'w) env"
  assumes env: "accepting env" "kii_api_frame env" "messages_fit env h" and nul: "NUL \<notin> set T"
    and "aliases_from env T i als" and "T = take len (drop off (msg s))" and "off + len \<le> length (msg s)"
    and "ready p h s" and "length als < fuel" and "list_all (\<lambda>a. length (snd a) < fuel') als"
  shows "settles (alias_loop env p off len fuel' fuel i) s (\<lambda>ok t. ok \<and> ready p h t \<and>
    (\<forall>x \<in> set (command_steps i T als). \<not> silent env h (snd x)))"
  using assms(5-)
proof (induction als arbitrary: i s fuel)
  case Nil
  then obtain n where fuel: "fuel = Suc n" by (cases fuel) auto
  have "get_key_and_value_at_index env off len i s = Inr (PRV_GET_KEY_AND_VALUE_FINISH, s)"
    using get_end [OF _ Nil.prems(2,3)] Nil.prems(1) by simp
  with Nil.prems(4) show ?case by (simp add: fuel settles_def context_thing_def ready_def)
next
  case (Cons a als)
  obtain k kl v vl its where a: "a = ((k, kl, v, vl), its)" by (metis surj_pair)
  obtain n where fuel: "fuel = Suc n" "length als < n" using Cons.prems(5) by (cases fuel) auto
  let ?x = "(k, kl, v, vl)"
  let ?m = "(msg s)[off + k + kl := NUL]"
  let ?c = "msg s ! (off + k + kl)"
  have item: "get_key_and_value_at_index env off len i s =
      Inr (PRV_GET_KEY_AND_VALUE_SUCCESS (off + k) kl (off + v) vl, s)"
    using get_item [OF _ Cons.prems(2,3)] Cons.prems(1) a by simp
  have pair: "k + kl < v" "v + vl < len"
    using Cons.prems(1-3) a by (auto simp: pair_in_def)
  have in_m: "off + k + kl < length (msg s)" using pair Cons.prems(3) by simp
  have key: "take kl (drop (off + k) ?m) = key_text T ?x"
    and val: "take vl (drop (off + v) ?m) = value_text T ?x"
    unfolding Cons.prems(2) using pair
    by (simp_all add: key_text_def value_text_def take_drop_sub take_drop_update)
  let ?s = "s\<lparr>msg := ?m\<rparr>"
  have inner: "settles (action_loop env p (Some h) (off + k) i (off + v) vl fuel' 0) ?s (\<lambda>ok t. ok \<and> msg t = ?m \<and>
      ready p h t \<and> (\<forall>y \<in> set (action_steps i 0 (key_text T ?x) (value_text T ?x) its). \<not> silent env h (snd y)))"
  proof -
    have 1: "NUL \<notin> set (value_text T ?x)" using NUL_sub [OF nul] by (simp add: value_text_def)
    have 2: "items_from env (value_text T ?x) 0 its" using Cons.prems(1) a by simp
    have 3: "value_text T ?x = take vl (drop (off + v) (msg ?s))" using val by simp
    have 4: "off + v + vl \<le> length (msg ?s)" using pair Cons.prems(3) by simp
    have 5: "off + k + kl < off + v" using pair by simp
    have 6: "msg ?s ! (off + k + kl) = NUL" using in_m by simp
    have 7: "NUL \<notin> set (take kl (drop (off + k) (msg ?s)))"
      using key NUL_sub [OF nul] by (simp add: key_text_def)
    have 8: "ready p h ?s" using Cons.prems(4) by (simp add: ready_def)
    have 9: "length its < fuel'" using Cons.prems(6) a by simp
    have m: "msg ?s = ?m" by simp
    show ?thesis
      using action_loop_settles [OF env 1 2 3 4 5 6 7 8 9, of i] unfolding m key .
  qed
  have "settles (chain (action_loop env p (Some h) (off + k) i (off + v) vl fuel' 0) (\<lambda>ok.
      if \<not> ok then ret False
      else chain (set_char (off + k + kl) ?c) (\<lambda>_. alias_loop env p off len fuel' n (Suc i)))) ?s
    (\<lambda>ok t. ok \<and> ready p h t \<and> (\<forall>y \<in> set (command_steps i T (a # als)). \<not> silent env h (snd y)))"
  proof (rule settles_through [OF inner])
    fix ok and t :: "('p, 'w) st"
    assume t: "ok \<and> msg t = ?m \<and> ready p h t \<and>
      (\<forall>y \<in> set (action_steps i 0 (key_text T ?x) (value_text T ?x) its). \<not> silent env h (snd y))"
    let ?t = "t\<lparr>msg := msg s\<rparr>"
    have m: "msg ?t = msg s" by simp
    have "set_char (off + k + kl) ?c t = Inr ((), ?t)"
      using t in_m by (simp add: set_char_def)
    moreover have "settles (alias_loop env p off len fuel' n (Suc i)) ?t (\<lambda>ok u. ok \<and> ready p h u \<and>
        (\<forall>y \<in> set (command_steps (Suc i) T als). \<not> silent env h (snd y)))"
      by (rule Cons.IH [of "Suc i" ?t n, unfolded m]) (use Cons.prems t fuel(2) in \<open>simp_all add: ready_def\<close>)
    ultimately show "settles (if \<not> ok then ret False
      else chain (set_char (off + k + kl) ?c) (\<lambda>_. alias_loop env p off len fuel' n (Suc i))) t
      (\<lambda>ok t. ok \<and> ready p h t \<and> (\<forall>y \<in> set (command_steps i T (a # als)). \<not> silent env h (snd y)))"
      using t by (auto simp: settles_def a split: sum.splits prod.splits)
  qed
  moreover have "alias_loop env p off len fuel' fuel i s =
      chain (action_loop env p (Some h) (off + k) i (off + v) vl fuel' 0) (\<lambda>ok.
      if \<not> ok then ret False
      else chain (set_char (off + k + kl) ?c) (\<lambda>_. alias_loop env p off len fuel' n (Suc i))) ?s"
    using item in_m Cons.prems(4)
    by (simp add: fuel(1) context_thing_def ready_def get_char_def set_char_def)
  ultimately show ?case by (simp only: settles_def)
qed

section \<open>Properties\<close>

text \<open>
  C40. A handler that reports failure need not write a message (the header calls it optional).
  Take a library that accepts every start and append, a described command whose path fits, a
  handler whose messages fit their array, and enough fuel for the elements of its arrays. If the
  handler fails without a message for one of the actions, \<open>handle_command\<close> does not report the
  command: it reads the uninitialised array as a string.
\<close>

theorem silent_failure_is_undefined:
  assumes "accepting env" and "kii_api_frame env" and "messages_fit env h"
    and "app_context (kii_of p s) = ThingIfContext" and "action_handler (thing s) = Some h"
    and "command_from env (take n (msg s)) cid T als" and "n \<le> length (msg s)"
    and "NUL \<in> set (author_id (author (kii_of p s)))"
    and "length (results_path (app_id (kii_of p s)) (c_str (author_id (author (kii_of p s)))) cid) < 256"
    and "(comma, al, nm, v) \<in> set (command_steps 0 T als)"
    and "\<And>w. fst (call_action_handler env h al nm v w) = (False, None)"
    and "length als < fuel" and "list_all (\<lambda>a. length (snd a) < fuel) als"
  shows "handle_command env fuel p n s = Inl Uninitialised"
proof -
  let ?path = "results_path (app_id (kii_of p s)) (c_str (author_id (author (kii_of p s)))) cid"
  obtain off len where T: "T = take len (drop off (msg s))" "off + len \<le> length (msg s)"
    and run: "handle_command env fuel p n s =
      (if 256 < length ?path then Inr ((), s)
       else if length ?path = 256 then Inl OutOfBounds
       else command_tail env fuel p off len ?path s)"
    by (rule handle_command_apply [OF assms(6-8) refl])
  have "ready p h s" using assms(4,5) by (simp add: ready_def)
  then obtain s1 where s1: "api_start env p ''PUT'' ?path (Some ''application/json'') True s = Inr (0, s1)"
    "msg s1 = msg s" "ready p h s1"
    by (rule start_accepted [OF assms(1,2)])
  obtain s2 where s2: "api_append env p results_header s1 = Inr (0, s2)" "msg s2 = msg s1" "ready p h s2"
    by (rule append_accepted [OF assms(1,2) s1(3)])
  have m: "msg s2 = msg s" using s1(2) s2(2) by simp
  have "aliases_from env T 0 als" "NUL \<notin> set T"
    using assms(6) NUL_sub [of "take n (msg s)"]
    by (auto simp: command_from_def split: prod.splits list.splits)
  then have "settles (alias_loop env p off len fuel fuel 0) s2 (\<lambda>ok t. ok \<and> ready p h t \<and>
      (\<forall>x \<in> set (command_steps 0 T als). \<not> silent env h (snd x)))"
    using T s2(3) assms(12,13) by (intro alias_loop_settles [OF assms(1-3)]) (simp_all add: m)
  moreover have "silent env h (snd (comma, al, nm, v))"
    using assms(11) by (simp add: silent_def)
  ultimately have "alias_loop env p off len fuel fuel 0 s2 = Inl Uninitialised"
    using assms(10) unfolding settles_def by (auto split: sum.splits)
  with run s1(1) s2(1) assms(9) show ?thesis by (simp add: command_tail_def)
qed

text \<open>A library that refuses nothing, and a handler that fails silently for all actions but one.\<close>

definition silent_env :: "(nat, sample_world) env" where
  "silent_env = sample_env\<lparr>kii_api_call_start := (\<lambda>k meth path ctype auth w. (0, k, w)),
     kii_api_call_append_body := (\<lambda>k b w. (0, k, w)),
     call_action_handler := (\<lambda>f al nm v w. ((nm = ''turn'', None), w))\<rparr>"

theorem silent_failure_is_undefined_witness:
  "handle_command silent_env 10 CommandHandler (length sample_message) (message_st sample_message) =
    Inl Uninitialised"
proof -
  let ?s = "message_st sample_message"
  have env: "accepting silent_env" "kii_api_frame silent_env" "messages_fit silent_env 11"
    using sample_frame
    by (simp_all add: accepting_def kii_api_frame_def messages_fit_def silent_env_def)
  have kii: "kii_of CommandHandler ?s = sample_kii" "action_handler (thing ?s) = Some 11"
    by (simp_all add: message_st_def sample_st_def sample_thing_def kii_of_def)
  have cmd: "command_from silent_env (take (length sample_message) (msg ?s)) ''X'' sample_array sample_items"
    by code_simp
  have n: "length sample_message \<le> length (msg ?s)" by (simp add: message_st_def)
  have ids: "app_context sample_kii = ThingIfContext" "NUL \<in> set (author_id (author sample_kii))"
    "length (results_path (app_id sample_kii) (c_str (author_id (author sample_kii))) ''X'') < 256"
    by code_simp+
  have action: "(True, ''Al'', ''set'', ''25'') \<in> set (command_steps 0 sample_array sample_items)"
    by code_simp
  have silent: "fst (call_action_handler silent_env 11 ''Al'' ''set'' ''25'' w) = (False, None)" for w
    by (simp add: silent_env_def)
  show ?thesis
    by (rule silent_failure_is_undefined [OF env _ _ cmd n _ _ action silent])
      (use ids kii in \<open>simp_all add: sample_items_def\<close>)
qed

end
