(* ===== verification/Linux_Handlers.thy ===== *)
theory Linux_Handlers
  imports Tasks
begin

text \<open>
  The callbacks of the Linux sample application (linux-sample/example.c): the air conditioner
  behind its mutex, \<open>action_handler\<close>, \<open>state_handler\<close> and \<open>custom_push_handler\<close>, plugged into
  the SDK's environment.
\<close>

section \<open>The application's world\<close>

record prv_air_conditioner_t =
  power :: int
  temperature :: int

text \<open>
  \<open>state_file\<close> is the content of air_conditioner-state.json, \<open>None\<close> if it cannot be opened;
  \<open>terminal\<close> is what was printed.
\<close>

record 'x app_world =
  m_air_conditioner :: prv_air_conditioner_t
  state_file :: "string option"
  terminal :: string
  rest :: 'x

text \<open>
  The results of the mutex operations, the numbers of the Kii library's enumerators (the sample
  compares a \<open>kii_bool_t\<close> with a \<open>KII_JSON_TRUE\<close>), GNU's \<open>getopt_long\<close> on an argument vector and a
  table of long options (name, whether an argument is required, value): what its calls return,
  up to the - 1 that ends them, with \<open>*longindex\<close> (0 unless the call sets it) and \<open>optarg\<close>; and
  the text that \<open>%s\<close> prints for NULL.
\<close>

record getopt_result =
  opt_c :: int
  opt_index :: nat
  opt_arg :: "string option"

record 'x app_sys =
  pthread_mutex_init :: "'x \<Rightarrow> int \<times> 'x"
  pthread_mutex_lock :: "'x \<Rightarrow> int \<times> 'x"
  pthread_mutex_unlock :: "'x \<Rightarrow> int \<times> 'x"
  KII_TRUE :: int
  KII_FALSE :: int
  KII_JSON_TRUE :: int
  getopt_long :: "string list \<Rightarrow> (string \<times> bool \<times> int) list \<Rightarrow> getopt_result list"
  printed_NULL :: string

definition printf :: "string \<Rightarrow> ('x app_world, unit) prog" where
  "printf t = modify (\<lambda>w. w\<lparr>terminal := terminal w @ t\<rparr>)"

definition mutex :: "('x \<Rightarrow> int \<times> 'x) \<Rightarrow> ('x app_world, int) prog" where
  "mutex f = (\<lambda>w. case f (rest w) of (r, x) \<Rightarrow> Inr (r, w\<lparr>rest := x\<rparr>))"

text \<open>\<open>atoi\<close>: white space, a sign, digits; a value that is no \<open>int\<close> is undefined.\<close>

definition is_digit :: "char \<Rightarrow> bool" where
  "is_digit c \<longleftrightarrow> 48 \<le> (of_char c :: nat) \<and> (of_char c :: nat) \<le> 57"

definition is_space :: "char \<Rightarrow> bool" where
  "is_space c \<longleftrightarrow> c \<in> {CHR '' '', CHR 0x09, CHR 0x0A, CHR 0x0B, CHR 0x0C, CHR 0x0D}"

definition digits_value :: "string \<Rightarrow> int" where
  "digits_value t = foldl (\<lambda>n c. 10 * n + int (of_char c) - 48) 0 (takeWhile is_digit t)"

definition atoi :: "string \<Rightarrow> ('s, int) prog" where
  "atoi t =
     (let u = dropWhile is_space t;
          n = (case u of
                 [] \<Rightarrow> 0
               | c # v \<Rightarrow>
                   if c = CHR ''-'' then - digits_value v
                   else if c = CHR ''+'' then digits_value v
                   else digits_value u)
      in if - (2 ^ 31) \<le> n \<and> n < 2 ^ 31 then ret n else fail IntOverflow)"

section \<open>The code\<close>

text \<open>The result and what \<open>*air_conditioner\<close> holds then.\<close>

definition prv_get_air_conditioner_info ::
  "'x app_sys \<Rightarrow> prv_air_conditioner_t \<Rightarrow> ('x app_world, bool \<times> prv_air_conditioner_t) prog" where
  "prv_get_air_conditioner_info sys air_conditioner =
     chain (mutex (pthread_mutex_lock sys)) (\<lambda>r.
     if r \<noteq> 0 then ret (False, air_conditioner)
     else
       chain (gets m_air_conditioner) (\<lambda>m.
       chain (mutex (pthread_mutex_unlock sys)) (\<lambda>r.
       if r \<noteq> 0 then ret (False, m) else ret (True, m))))"

definition prv_set_air_conditioner_info ::
  "'x app_sys \<Rightarrow> prv_air_conditioner_t \<Rightarrow> ('x app_world, bool) prog" where
  "prv_set_air_conditioner_info sys air_conditioner =
     chain (mutex (pthread_mutex_lock sys)) (\<lambda>r.
     if r \<noteq> 0 then ret False
     else
       chain (modify (\<lambda>w. w\<lparr>m_air_conditioner := air_conditioner\<rparr>)) (\<lambda>_.
       chain (mutex (pthread_mutex_unlock sys)) (\<lambda>r.
       if r \<noteq> 0 then ret False else ret True)))"

definition zero_air_conditioner :: prv_air_conditioner_t where
  "zero_air_conditioner = \<lparr>power = 0, temperature = 0\<rparr>"

text \<open>The result, and the text written to \<open>error\<close> if one was.\<close>

definition action_handler_linux ::
  "'x app_sys \<Rightarrow> string \<Rightarrow> string \<Rightarrow> string \<Rightarrow> ('x app_world, bool \<times> string option) prog" where
  "action_handler_linux sys al action_name action_params =
     chain (printf (''alias='' @ al @ '', action name='' @ action_name @ '', action params='' @
       action_params @ [CHR 0x0A])) (\<lambda>_.
     if al \<noteq> ''AirConditionerAlias'' \<and> al \<noteq> ''HumidityAlias'' then
       ret (False, Some (take EMESSAGE_SIZE (''invalid alias: '' @ al)))
     else
       chain (prv_get_air_conditioner_info sys zero_air_conditioner) (\<lambda>(ok, air_conditioner).
       if \<not> ok then
         chain (printf (''fail to lock.'' @ [CHR 0x0A])) (\<lambda>_. ret (False, Some ''fail to lock.''))
       else
         chain (ret (if action_name = ''turnPower''
             then air_conditioner\<lparr>power := if action_params = ''true'' then KII_TRUE sys else KII_FALSE sys\<rparr>
             else air_conditioner)) (\<lambda>air_conditioner.
         chain (if action_name = ''setPresetTemperature''
             then chain (atoi action_name) (\<lambda>n. ret (air_conditioner\<lparr>temperature := n\<rparr>))
             else ret air_conditioner) (\<lambda>air_conditioner.
         chain (prv_set_air_conditioner_info sys air_conditioner) (\<lambda>ok.
         if \<not> ok then
           chain (printf (''fail to unlock.'' @ [CHR 0x0A])) (\<lambda>_. ret (False, None))
         else ret (True, None))))))"

text \<open>The lines of a file as \<open>fgets\<close> with an array of 256 characters delivers them.\<close>

function fgets_pieces :: "string \<Rightarrow> string list" where
  "fgets_pieces t =
     (if t = [] then []
      else
        let l = takeWhile (\<lambda>c. c \<noteq> CHR 0x0A) (take 255 t);
            n = (if length l < length (take 255 t) then Suc (length l) else length l)
        in take n t # fgets_pieces (drop n t))"
  by pat_completeness auto

termination
  by (relation "measure length") (auto simp: Let_def neq_Nil_conv split: if_splits)

declare fgets_pieces.simps [simp del]

text \<open>A program on the application's world, run by a callback of the SDK.\<close>

definition on_world :: "('w, 'a) prog \<Rightarrow> (('p, 'w) st, 'a) prog" where
  "on_world m = (\<lambda>s. case m (world s) of Inl e \<Rightarrow> Inl e | Inr (a, w) \<Rightarrow> Inr (a, s\<lparr>world := w\<rparr>))"

definition state_handler_linux ::
  "'x app_sys \<Rightarrow> kii_ptr \<Rightarrow> (kii_ptr \<Rightarrow> string \<Rightarrow> (('p, 'x app_world) st, bool) prog) \<Rightarrow>
     (('p, 'x app_world) st, bool) prog" where
  "state_handler_linux sys kii wr =
     chain (on_world (gets state_file)) (\<lambda>fp.
     case fp of
       Some content \<Rightarrow> write_all wr kii (map c_str (fgets_pieces content))
     | None \<Rightarrow>
         chain (on_world (prv_get_air_conditioner_info sys zero_air_conditioner))
           (\<lambda>(ok, air_conditioner).
         if \<not> ok then chain (on_world (printf (''fail to lock.'' @ [CHR 0x0A]))) (\<lambda>_. ret False)
         else
           chain (wr kii (''{'' @ dquote @ ''AirConditionerAlias'' @ dquote @ '':'')) (\<lambda>ok.
           if \<not> ok then ret False
           else
             chain (wr kii (''{'' @ dquote @ ''power'' @ dquote @ '':'')) (\<lambda>ok.
             if \<not> ok then ret False
             else
               chain (wr kii (if power air_conditioner = KII_JSON_TRUE sys then ''true,'' else ''false,''))
                 (\<lambda>ok.
               if \<not> ok then ret False
               else
                 chain (wr kii (dquote @ ''currentTemperature'' @ dquote @ '':'')) (\<lambda>ok.
                 if \<not> ok then ret False
                 else
                   chain (wr kii (take 255 (show_int (temperature air_conditioner) @ ''}''))) (\<lambda>ok.
                   if \<not> ok then ret False
                   else
                     chain (wr kii ''}'') (\<lambda>ok.
                     if \<not> ok then ret False else ret True))))))))"

definition custom_push_handler_linux ::
  "kii_ptr \<Rightarrow> nat \<Rightarrow> (('p, 'x app_world) st, bool) prog" where
  "custom_push_handler_linux kii message_length =
     chain (cstr_at 0) (\<lambda>message.
     chain (on_world (printf (''custom_push_handler:'' @ [CHR 0x0A] @ message @ [CHR 0x0A]))) (\<lambda>_.
     let r = (if take 12 message = ''{'' @ dquote @ ''commandID'' @ dquote then False else True);
         r = (if take 22 message = ''{'' @ dquote @ ''Item'' @ dquote @ '':'' @ dquote @ ''CheckNoError'' @ dquote
              then False else r)
     in ret r))"

text \<open>
  The environment of the sample: the library runs on the world outside the application, the
  handlers are the sample's.
\<close>

definition on_rest :: "('x \<Rightarrow> int \<times> 'k \<times> 'x) \<Rightarrow> 'x app_world \<Rightarrow> int \<times> 'k \<times> 'x app_world" where
  "on_rest f w = (case f (rest w) of (r, k, x) \<Rightarrow> (r, k, w\<lparr>rest := x\<rparr>))"

definition linux_env :: "'x app_sys \<Rightarrow> ('p, 'x) env \<Rightarrow> ('p, 'x app_world) env" where
  "linux_env sys base =
     \<lparr>noassert = noassert base, ulongbufsize = ulongbufsize base, token_num = token_num base,
      field_zero = field_zero base, http_error_zero = http_error_zero base,
      zero_private = zero_private base, kii_init_with_info = kii_init_with_info base,
      kii_api_call_start = (\<lambda>k meth path ctype auth. on_rest (kii_api_call_start base k meth path ctype auth)),
      kii_api_call_append_body = (\<lambda>k b. on_rest (kii_api_call_append_body base k b)),
      kii_api_call_run = (\<lambda>k. on_rest (kii_api_call_run base k)),
      kii_push_start_routine = (\<lambda>k. on_rest (kii_push_start_routine base k)),
      kii_json_read_object = kii_json_read_object base,
      jsmn_parse = jsmn_parse base,
      call_task_create = (\<lambda>f name p w. case call_task_create base f name p (rest w) of
        (ok, x) \<Rightarrow> (ok, w\<lparr>rest := x\<rparr>)),
      call_delay_ms = (\<lambda>f ms w. w\<lparr>rest := call_delay_ms base f ms (rest w)\<rparr>),
      call_action_handler = (\<lambda>f al name val w. projr (action_handler_linux sys al name val w)),
      call_state_handler = (\<lambda>f. state_handler_linux sys),
      call_push_handler = (\<lambda>f. custom_push_handler_linux)\<rparr>"

lemma linux_env_handlers [simp]:
  "call_action_handler (linux_env sys base) f al name val w =
     projr (action_handler_linux sys al name val w)"
  "call_state_handler (linux_env sys base) f = state_handler_linux sys"
  "call_push_handler (linux_env sys base) f = custom_push_handler_linux"
  by (simp_all add: linux_env_def)

section \<open>The sample keeps the SDK's contract\<close>

lemma preserves_on_world:
  "(\<And>s w. I s \<Longrightarrow> I (s\<lparr>world := w\<rparr>)) \<Longrightarrow> preserves I (on_world m)"
  by (auto simp: preserves_def on_world_def split: sum.splits prod.splits)

lemma preserves_write_all:
  "(\<And>b. preserves I (wr p b)) \<Longrightarrow> preserves I (write_all wr p cs)"
  by (induction cs) (auto intro!: preserves_intros simp del: ret_apply)

lemma linux_writes_only: "writes_only (linux_env sys base) h p"
  unfolding writes_only_def
proof (intro allI impI)
  fix I :: "('a, 'b app_world) st \<Rightarrow> bool"
  let ?env = "linux_env sys base"
  assume w: "\<forall>s w. I s \<longrightarrow> I (s\<lparr>world := w\<rparr>)" and wr: "\<forall>b. preserves I (prv_writer ?env p b)"
  then have "preserves I (state_handler_linux sys p (prv_writer ?env))"
    unfolding state_handler_linux_def
    by (intro preserves_intros preserves_write_all) (auto intro: preserves_on_world)
  then show "preserves I (call_state_handler ?env h p (prv_writer ?env))"
    by simp
qed

lemma never_mutex [never_intros]: "never e (mutex f)"
  by (auto simp: never_def mutex_def split: prod.splits)

lemma never_printf [never_intros]: "never e (printf t)"
  unfolding printf_def by (rule never_intros)

lemma never_on_world [never_intros]: "never e m \<Longrightarrow> never e (on_world m)"
  by (auto simp: never_def on_world_def split: sum.splits prod.splits)

lemma never_info [never_intros]:
  "never e (prv_get_air_conditioner_info sys ac)" "never e (prv_set_air_conditioner_info sys ac)"
  unfolding prv_get_air_conditioner_info_def prv_set_air_conditioner_info_def
  by (intro never_intros)+

lemma never_write_all: "(\<And>b. never e (wr p b)) \<Longrightarrow> never e (write_all wr p cs)"
  by (induction cs) (auto intro!: never_intros simp del: ret_apply)

lemma never_prv_writer: "never e (prv_writer env p b)"
  unfolding prv_writer_def by (intro never_intros)

lemma atoi_name: "atoi ''setPresetTemperature'' = ret 0"
  by (simp add: atoi_def is_space_def digits_value_def is_digit_def)

lemma never_action: "never e (action_handler_linux sys al name val)"
  unfolding action_handler_linux_def by (intro never_intros) (simp add: atoi_name never_intros)

lemma never_state_handler: "never e (state_handler_linux sys p (prv_writer env))"
  unfolding state_handler_linux_def by (intro never_intros never_write_all never_prv_writer)

lemma linux_frame: "kii_api_frame base \<Longrightarrow> kii_api_frame (linux_env sys base)"
  by (simp add: kii_api_frame_def linux_env_def on_rest_def case_prod_beta)

lemma linux_handlers_safe: "handlers_safe (linux_env sys base)"
  unfolding handlers_safe_def
  by (auto simp: custom_push_handler_linux_def Let_def printf_def
      intro!: never_intros never_state_handler)

lemma linux_push_frame:
  assumes "\<And>k w. same_identity k (fst (snd (kii_push_start_routine base k w)))"
  shows "push_frame (linux_env sys base)"
  unfolding push_frame_def
proof (intro conjI allI impI)
  fix k w
  show "same_identity k (fst (snd (kii_push_start_routine (linux_env sys base) k w)))"
    using assms [of k "rest w"] by (simp add: linux_env_def on_rest_def case_prod_beta)
next
  fix h n s ok s'
  assume "call_push_handler (linux_env sys base) h CommandHandler n s = Inr (ok, s')"
  then have "thing s' = thing s" and "trace s' = trace s"
    by (auto simp: custom_push_handler_linux_def Let_def chain_eq_Inr cstr_at_def
        cstr_eq_Inr on_world_def printf_def)
  then show "\<exists>k es. same_identity (kii_of CommandHandler s) k \<and>
      thing s' = put_kii CommandHandler k (thing s) \<and> trace s' = trace s @ es \<and>
      list_all (made_on CommandHandler) es"
    by (intro exI [where x = "kii_of CommandHandler s"] exI [where x = "[]"])
      (simp add: kii_of_def put_kii_other)
qed

lemma never_all_returns: "(\<And>e. never e m) \<Longrightarrow> \<exists>a s'. m s = Inr (a, s')"
  by (cases "m s") (auto simp: never_def)

lemma linux_handler_returns: "handler_returns (linux_env sys base) h p"
  unfolding handler_returns_def linux_env_handlers
  by (intro allI never_all_returns never_state_handler)

section \<open>What the handlers do\<close>

text \<open>A mutex that can always be locked and unlocked.\<close>

definition mutex_works :: "'x app_sys \<Rightarrow> bool" where
  "mutex_works sys \<longleftrightarrow>
     (\<forall>x. fst (pthread_mutex_lock sys x) = 0 \<and> fst (pthread_mutex_unlock sys x) = 0)"

lemma mutex_worksD:
  "mutex_works sys \<Longrightarrow> pthread_mutex_lock sys x = (r, y) \<Longrightarrow> r = 0"
  "mutex_works sys \<Longrightarrow> pthread_mutex_unlock sys x = (r, y) \<Longrightarrow> r = 0"
  unfolding mutex_works_def by (metis fst_conv)+

lemma yields_app [yields_intros]:
  "(\<And>r x. f (rest w) = (r, x) \<Longrightarrow> Q r (w\<lparr>rest := x\<rparr>)) \<Longrightarrow> yields (mutex f) w Q"
  "S () (w\<lparr>terminal := terminal w @ t\<rparr>) \<Longrightarrow> yields (printf t) w S"
  by (auto simp: yields_def mutex_def printf_def split: prod.splits)

lemma get_info_works:
  assumes "mutex_works sys" and "\<And>x. Q (True, m_air_conditioner w) (w\<lparr>rest := x\<rparr>)"
  shows "yields (prv_get_air_conditioner_info sys ac) w Q"
  unfolding prv_get_air_conditioner_info_def
  by (intro yields_intros) (use assms(2) in \<open>auto dest: mutex_worksD [OF assms(1)]\<close>)

lemma set_info_works:
  assumes "mutex_works sys" and "\<And>x. Q True (w\<lparr>m_air_conditioner := ac, rest := x\<rparr>)"
  shows "yields (prv_set_air_conditioner_info sys ac) w Q"
  unfolding prv_set_air_conditioner_info_def
  by (intro yields_intros) (use assms(2) in \<open>auto dest: mutex_worksD [OF assms(1)]\<close>)

text \<open>What an action makes of the air conditioner.\<close>

definition apply_action :: "'x app_sys \<Rightarrow> string \<Rightarrow> string \<Rightarrow> prv_air_conditioner_t \<Rightarrow> prv_air_conditioner_t"
where
  "apply_action sys name val ac =
     (if name = ''turnPower'' then ac\<lparr>power := if val = ''true'' then KII_TRUE sys else KII_FALSE sys\<rparr>
      else if name = ''setPresetTemperature'' then ac\<lparr>temperature := 0\<rparr>
      else ac)"

lemma action_works:
  assumes "mutex_works sys" and "al = ''AirConditionerAlias'' \<or> al = ''HumidityAlias''"
  shows "\<exists>w'. action_handler_linux sys al name val w = Inr ((True, None), w') \<and>
    m_air_conditioner w' = apply_action sys name val (m_air_conditioner w) \<and>
    state_file w' = state_file w"
proof -
  have "yields (action_handler_linux sys al name val) w (\<lambda>r w'. r = (True, None) \<and>
      m_air_conditioner w' = apply_action sys name val (m_air_conditioner w) \<and>
      state_file w' = state_file w)"
    unfolding action_handler_linux_def
    by (intro yields_intros get_info_works set_info_works assms(1))
      (use assms(2) in \<open>auto simp: apply_action_def atoi_name
        intro!: yields_intros set_info_works [OF assms(1)]\<close>)
  moreover obtain r w' where "action_handler_linux sys al name val w = Inr (r, w')"
    using never_all_returns [OF never_action] by blast
  ultimately show ?thesis by (auto simp: yields_def)
qed

section \<open>What is uploaded\<close>

lemma yields_on_world [yields_intros]:
  "yields m (world s) (\<lambda>a w. Q a (s\<lparr>world := w\<rparr>)) \<Longrightarrow> yields (on_world m) s Q"
  by (auto simp: yields_def on_world_def split: sum.splits prod.splits)

lemma yields_writer:
  "(\<And>t. trace t = trace s @ [ApiAppend p b 0] \<Longrightarrow> Q True t) \<Longrightarrow> (\<And>t. Q False t) \<Longrightarrow>
     yields (prv_writer env p b) s Q"
  by (auto simp: yields_def prv_writer_def api_append_def chain_eq_Inr dest!: call_kii_trace
      split: if_splits)

lemma write_all_trace:
  "yields (write_all (prv_writer env) p cs) s
     (\<lambda>ok t. ok \<longrightarrow> trace t = trace s @ map (\<lambda>c. ApiAppend p c 0) cs)"
proof (induction cs arbitrary: s)
  case Nil
  show ?case by (simp add: yields_def)
next
  case (Cons c cs)
  show ?case
    unfolding write_all.simps
    by (intro yields_intros yields_writer) (use Cons.IH in \<open>auto simp: yields_def\<close>)
qed

text \<open>The state that the sample writes, piece by piece and as one text.\<close>

definition report_pieces :: "'x app_sys \<Rightarrow> prv_air_conditioner_t \<Rightarrow> string list" where
  "report_pieces sys ac =
     [''{'' @ dquote @ ''AirConditionerAlias'' @ dquote @ '':'', ''{'' @ dquote @ ''power'' @ dquote @ '':'',
      if power ac = KII_JSON_TRUE sys then ''true,'' else ''false,'',
      dquote @ ''currentTemperature'' @ dquote @ '':'',
      take 255 (show_int (temperature ac) @ ''}''), ''}'']"

definition air_conditioner_json :: "bool \<Rightarrow> int \<Rightarrow> string" where
  "air_conditioner_json on n = ''{'' @ dquote @ ''AirConditionerAlias'' @ dquote @ '':{'' @ dquote @ ''power'' @
     dquote @ '':'' @ (if on then ''true'' else ''false'') @ '','' @ dquote @ ''currentTemperature'' @ dquote @
     '':'' @ show_int n @ ''}}''"

lemma length_show_int32:
  assumes "\<bar>n\<bar> \<le> 2 ^ 31"
  shows "length (show_int n) \<le> 11"
proof -
  have "nat \<bar>n\<bar> < 10 ^ 10" using assms by simp
  from length_show_nat [OF this] show ?thesis by (auto simp: show_int_def)
qed

lemma concat_report_pieces:
  assumes "\<bar>temperature ac\<bar> \<le> 2 ^ 31"
  shows "concat (report_pieces sys ac) =
    air_conditioner_json (power ac = KII_JSON_TRUE sys) (temperature ac)"
  using length_show_int32 [OF assms] by (simp add: report_pieces_def air_conditioner_json_def)

text \<open>The pieces that a call of the state handler writes, by the application's world.\<close>

definition uploaded_pieces :: "'x app_sys \<Rightarrow> 'x app_world \<Rightarrow> string list" where
  "uploaded_pieces sys w = (case state_file w of
     Some content \<Rightarrow> map c_str (fgets_pieces content)
   | None \<Rightarrow> report_pieces sys (m_air_conditioner w))"

lemma state_handler_writes:
  assumes "mutex_works sys"
  shows "yields (state_handler_linux sys p (prv_writer env)) s (\<lambda>ok t. ok \<longrightarrow>
    trace t = trace s @ map (\<lambda>c. ApiAppend p c 0) (uploaded_pieces sys (world s)))"
proof (cases "state_file (world s)")
  case None
  then show ?thesis
    unfolding state_handler_linux_def
    by (intro yields_intros get_info_works [OF assms] yields_writer)
      (auto simp: uploaded_pieces_def report_pieces_def)
next
  case (Some content)
  let ?cs = "map c_str (fgets_pieces content)"
  have "yields (write_all (prv_writer env) p ?cs) (s\<lparr>world := world s\<rparr>)
      (\<lambda>ok t. ok \<longrightarrow> trace t = trace s @ map (\<lambda>c. ApiAppend p c 0) ?cs)"
    using write_all_trace [of env p ?cs s] by simp
  with Some show ?thesis
    unfolding state_handler_linux_def uploaded_pieces_def
    by (intro yields_intros) auto
qed

text \<open>The library's calls leave the application's own state alone.\<close>

definition same_ac :: "'x app_world \<Rightarrow> 'x app_world \<Rightarrow> bool" where
  "same_ac w w' \<longleftrightarrow> m_air_conditioner w' = m_air_conditioner w \<and> state_file w' = state_file w"

lemma same_ac_pieces: "same_ac w w' \<Longrightarrow> uploaded_pieces sys w' = uploaded_pieces sys w"
  by (simp add: same_ac_def uploaded_pieces_def split: option.split)

lemma linux_start:
  "api_start (linux_env sys base) p meth path ctype auth s = Inr (r, t) \<Longrightarrow>
     same_ac (world s) (world t)"
  by (auto simp: api_start_def call_kii_eq_Inr linux_env_def on_rest_def same_ac_def
      split: prod.splits)

lemma send_state_uploads:
  assumes "mutex_works sys" and "prv_send_state (linux_env sys base) p s = Inr (True, s')"
  shows "trace s' = trace s @ call_events p ''PUT''
    (state_path (app_id (kii_of p s)) (c_str (author_id (author (kii_of p s)))))
    (Some CONTENT_UPDATE_STATE) True (uploaded_pieces sys (world s))"
proof -
  let ?env = "linux_env sys base"
  let ?path = "state_path (app_id (kii_of p s)) (c_str (author_id (author (kii_of p s))))"
  obtain s1 s2
    where start: "api_start ?env p ''PUT'' ?path (Some CONTENT_UPDATE_STATE) True s = Inr (0, s1)"
      and call: "state_handler_linux sys p (prv_writer ?env) s1 = Inr (True, s2)"
      and run: "api_run ?env p s2 = Inr (0, s')"
    using assms(2) unfolding prv_send_state_def
    by (auto simp: chain_eq_Inr run_iffs setters_Some setters_None context_thing_eq_Inr
        split: option.splits if_splits)
  have "trace s2 = trace s1 @ map (\<lambda>c. ApiAppend p c 0) (uploaded_pieces sys (world s1))"
    using yieldsD [OF state_handler_writes [OF assms(1)] call] by simp
  then show ?thesis
    using call_kii_trace [OF start [unfolded api_start_def]]
      call_kii_trace [OF run [unfolded api_run_def]] same_ac_pieces [OF linux_start [OF start]]
    by (simp add: call_events_def)
qed

lemma requests_call_events [simp]:
  "requests p (call_events p meth path ctype auth cs) =
     [\<lparr>rq_method = meth, rq_path = path, rq_content_type = ctype, rq_auth = auth,
       rq_body = concat cs\<rparr>]"
  by (simp add: requests_def)

text \<open>A text is the concatenation of the pieces that \<open>fgets\<close> reads from it, each of which fits.\<close>

lemma concat_fgets_pieces: "concat (fgets_pieces t) = t"
  by (induction t rule: fgets_pieces.induct) (subst fgets_pieces.simps, simp add: Let_def)

lemma fgets_pieces_fit: "c \<in> set (fgets_pieces t) \<Longrightarrow> c \<noteq> [] \<and> length c < 256"
proof (induction t rule: fgets_pieces.induct)
  case (1 t)
  define u where "u = take 255 t"
  define l where "l = takeWhile (\<lambda>c. c \<noteq> CHR 0x0A) u"
  define n where "n = (if length l < length u then Suc (length l) else length l)"
  have t: "t \<noteq> []" using "1.prems" by (subst (asm) fgets_pieces.simps) (auto split: if_splits)
  have "length l \<le> length u" by (simp add: l_def length_takeWhile_le)
  then have n: "0 < n" "n \<le> length u" using t by (auto simp: n_def u_def)
  have pieces: "fgets_pieces t = take n t # fgets_pieces (drop n t)"
    by (subst fgets_pieces.simps) (simp add: t Let_def n_def l_def u_def)
  have "c = take n t \<or> c \<in> set (fgets_pieces (drop n t))" using "1.prems" pieces by simp
  then show ?case
  proof
    assume "c = take n t"
    with n t show ?thesis by (auto simp: u_def)
  next
    assume "c \<in> set (fgets_pieces (drop n t))"
    then show ?thesis unfolding n_def l_def u_def by (rule "1.IH" [OF t refl refl])
  qed
qed

lemma set_fgets_pieces: "c \<in> set (fgets_pieces t) \<Longrightarrow> set c \<subseteq> set t"
  using concat_fgets_pieces [of t] by (metis UN_upper set_concat)

lemma concat_c_str_pieces:
  assumes "NUL \<notin> set t"
  shows "concat (map c_str (fgets_pieces t)) = t"
proof -
  have "map c_str (fgets_pieces t) = map id (fgets_pieces t)"
    using set_fgets_pieces assms by (intro map_cong) (auto intro!: c_str_id)
  then show ?thesis by (simp add: concat_fgets_pieces)
qed

lemma yields_get_info:
  assumes "\<And>x r. Q (False, r) (w\<lparr>rest := x\<rparr>)" and "\<And>x. Q (True, m_air_conditioner w) (w\<lparr>rest := x\<rparr>)"
  shows "yields (prv_get_air_conditioner_info sys ac) w Q"
  unfolding prv_get_air_conditioner_info_def
  by (intro yields_intros) (use assms in auto)

lemma yields_set_info:
  assumes "\<And>x. Q False (w\<lparr>rest := x\<rparr>)"
    and "\<And>b x. Q b (w\<lparr>m_air_conditioner := ac, rest := x\<rparr>)"
  shows "yields (prv_set_air_conditioner_info sys ac) w Q"
  unfolding prv_set_air_conditioner_info_def
  by (intro yields_intros) (use assms in auto)

section \<open>Properties\<close>

text \<open>
  C26. The sample's callbacks keep the contract that the SDK's theorems rest on. When the library
  and its push routine keep the identity of the \<open>kii_t\<close>, the environment made of the library and
  the sample's handlers does; its state handler only writes through the writer it is given and
  always returns, whatever the writer answers; and no handler dereferences NULL.
\<close>

theorem linux_sample_contract:
  assumes "kii_api_frame base"
    and "\<And>k w. same_identity k (fst (snd (kii_push_start_routine base k w)))"
  shows "kii_api_frame (linux_env sys base) \<and> push_frame (linux_env sys base) \<and>
    handlers_safe (linux_env sys base) \<and> writes_only (linux_env sys base) h p \<and>
    handler_returns (linux_env sys base) h p"
  using linux_frame [OF assms(1)] linux_push_frame [OF assms(2)] linux_handlers_safe
    linux_writes_only linux_handler_returns by blast

text \<open>
  A mutex that always works, on a world without other content; \<open>KII_TRUE\<close> and \<open>KII_JSON_TRUE\<close>
  are the same number.
\<close>

definition sample_sys :: "'x app_sys" where
  "sample_sys = \<lparr>pthread_mutex_init = (\<lambda>x. (0, x)), pthread_mutex_lock = (\<lambda>x. (0, x)),
     pthread_mutex_unlock = (\<lambda>x. (0, x)), KII_TRUE = 1, KII_FALSE = 0, KII_JSON_TRUE = 1,
     getopt_long = (\<lambda>argv opts. []), printed_NULL = ''(null)''\<rparr>"

theorem linux_sample_contract_witness:
  "push_frame (linux_env sample_sys sample_env) \<and>
   writes_only (linux_env sample_sys sample_env) 12 StateUpdater"
proof -
  have "same_identity k (fst (snd (kii_push_start_routine sample_env k w)))" for k w
    by (simp add: sample_env_def)
  from linux_sample_contract [OF sample_frame this, of sample_sys 12 StateUpdater]
  show ?thesis by blast
qed

text \<open>
  C30. Actions of the sample. An unknown alias is refused with a message of at most 50
  characters and nothing changes; on the two known aliases the handler succeeds whenever its mutex
  works, and the air conditioner is what the action makes of it: \<open>turnPower\<close> sets the power and
  \<open>setPresetTemperature\<close> stores 0, whatever temperature the command asked for. A failure on a
  known alias is a failure of the mutex; it leaves a message only when the air conditioner could
  not be read, and none when it could not be written.
\<close>

theorem action_handler_outcome:
  "\<exists>ok message w'. action_handler_linux sys al name val w = Inr ((ok, message), w') \<and>
     state_file w' = state_file w \<and>
     (al \<noteq> ''AirConditionerAlias'' \<and> al \<noteq> ''HumidityAlias'' \<longrightarrow>
        \<not> ok \<and> message = Some (take EMESSAGE_SIZE (''invalid alias: '' @ al)) \<and>
        m_air_conditioner w' = m_air_conditioner w) \<and>
     (al = ''AirConditionerAlias'' \<or> al = ''HumidityAlias'' \<longrightarrow>
        (mutex_works sys \<longrightarrow> ok) \<and> message \<in> {None, Some ''fail to lock.''} \<and>
        (message \<noteq> None \<longrightarrow> \<not> ok \<and> m_air_conditioner w' = m_air_conditioner w)) \<and>
     (ok \<longrightarrow> m_air_conditioner w' = apply_action sys name val (m_air_conditioner w))"
proof -
  let ?valid = "al = ''AirConditionerAlias'' \<or> al = ''HumidityAlias''"
  obtain ok message w'
    where run: "action_handler_linux sys al name val w = Inr ((ok, message), w')"
    using never_all_returns [OF never_action] by (metis surj_pair)
  have "yields (action_handler_linux sys al name val) w (\<lambda>(ok, message) w'.
      state_file w' = state_file w \<and>
      (\<not> ?valid \<longrightarrow> \<not> ok \<and> message = Some (take EMESSAGE_SIZE (''invalid alias: '' @ al)) \<and>
        m_air_conditioner w' = m_air_conditioner w) \<and>
      (?valid \<longrightarrow> message \<in> {None, Some ''fail to lock.''} \<and>
        (message \<noteq> None \<longrightarrow> \<not> ok \<and> m_air_conditioner w' = m_air_conditioner w)) \<and>
      (ok \<longrightarrow> m_air_conditioner w' = apply_action sys name val (m_air_conditioner w)))"
    unfolding action_handler_linux_def
    by (intro yields_intros yields_get_info yields_set_info)
      (auto simp: apply_action_def atoi_name intro!: yields_intros yields_set_info)
  moreover have "ok" if "?valid" "mutex_works sys"
    using action_works [OF that(2,1), of name val w] run by auto
  ultimately show ?thesis using run by (auto simp: yields_def)
qed

theorem action_handler_outcome_witness:
  "\<exists>message w'. action_handler_linux sample_sys ''AirConditionerAlias'' ''setPresetTemperature'' ''25''
      \<lparr>m_air_conditioner = \<lparr>power = 1, temperature = 20\<rparr>, state_file = None, terminal = [],
        rest = ()\<rparr> = Inr ((True, message), w') \<and> temperature (m_air_conditioner w') = 0"
  using action_handler_outcome [of sample_sys "''AirConditionerAlias''" "''setPresetTemperature''" "''25''"
      "\<lparr>m_air_conditioner = \<lparr>power = 1, temperature = 20\<rparr>, state_file = None, terminal = [], rest = ()\<rparr>"]
  by (auto simp: mutex_works_def sample_sys_def apply_action_def)

text \<open>
  C9. What is set is what is uploaded. When an action has set the power and the state is sent
  next, the one request that is run is the PUT to the thing's state path, with the JSON text of the
  new power and the old temperature as its body; \<open>KII_TRUE\<close> and \<open>KII_JSON_TRUE\<close>, which the sample
  mixes, must be the same number and not \<open>KII_FALSE\<close>. With a state file present its text is sent
  instead, unchanged although it is read in pieces of at most 255 characters, and the action has
  no effect on it.
\<close>

theorem power_uploaded:
  assumes mutex: "mutex_works sys" and known: "al = ''AirConditionerAlias'' \<or> al = ''HumidityAlias''"
    and numbers: "KII_JSON_TRUE sys = KII_TRUE sys" "KII_FALSE sys \<noteq> KII_TRUE sys"
    and bounded: "\<bar>temperature (m_air_conditioner (world s))\<bar> \<le> 2 ^ 31"
    and content: "\<And>t. state_file (world s) = Some t \<Longrightarrow> NUL \<notin> set t"
    and action: "action_handler_linux sys al ''turnPower'' val (world s) = Inr (r, w)"
    and upload: "prv_send_state (linux_env sys base) p (s\<lparr>world := w\<rparr>) = Inr (True, s')"
  shows "fst r \<and> requests p (drop (length (trace s)) (trace s')) =
    [state_request (state_path (app_id (kii_of p s)) (c_str (author_id (author (kii_of p s)))))
       (case state_file (world s) of
          Some t \<Rightarrow> t
        | None \<Rightarrow> air_conditioner_json (val = ''true'') (temperature (m_air_conditioner (world s))))]"
proof -
  have w: "r = (True, None)" "state_file w = state_file (world s)" "m_air_conditioner w =
      apply_action sys ''turnPower'' val (m_air_conditioner (world s))"
    using action_works [OF mutex known, of "''turnPower''" val "world s"] action by auto
  have "concat (uploaded_pieces sys w) = (case state_file (world s) of Some t \<Rightarrow> t
      | None \<Rightarrow> air_conditioner_json (val = ''true'') (temperature (m_air_conditioner (world s))))"
    using w bounded numbers content concat_report_pieces [of "m_air_conditioner w" sys]
    by (auto simp: uploaded_pieces_def apply_action_def concat_c_str_pieces split: option.split)
  with send_state_uploads [OF mutex upload] w show ?thesis
    by (simp add: state_request_def)
qed

definition linux_demo :: "(nat, sample_world app_world) st" where
  "linux_demo =
     \<lparr>thing = sample_thing KII_THING_IF_STATE_ONBOARDED, err = None, msg = [], heap = (\<lambda>_. None),
      world = \<lparr>m_air_conditioner = \<lparr>power = 0, temperature = 23\<rparr>, state_file = None, terminal = [],
        rest = [(204, [])]\<rparr>, trace = []\<rparr>"

definition linux_demo_action :: "fault + (bool \<times> string option) \<times> sample_world app_world" where
  "linux_demo_action =
     action_handler_linux sample_sys ''AirConditionerAlias'' ''turnPower'' ''true'' (world linux_demo)"

definition linux_demo_upload :: "fault + bool \<times> (nat, sample_world app_world) st" where
  "linux_demo_upload = prv_send_state (linux_env sample_sys sample_env) CommandHandler
     (linux_demo\<lparr>world := end_state linux_demo_action\<rparr>)"

theorem power_uploaded_witness:
  "map rq_body (requests CommandHandler (trace (end_state linux_demo_upload))) =
     [air_conditioner_json True 23]"
proof -
  have mutex: "mutex_works sample_sys" by (simp add: mutex_works_def sample_sys_def)
  have "returns (True, None) linux_demo_action" by code_simp
  note action = returns_end_state [OF this]
  have "returns True linux_demo_upload" by code_simp
  note upload = returns_end_state [OF this]
  have s: "trace linux_demo = []" "state_file (world linux_demo) = None"
    "temperature (m_air_conditioner (world linux_demo)) = 23"
    by (simp_all add: linux_demo_def)
  from power_uploaded [OF mutex _ _ _ _ _ action [unfolded linux_demo_action_def]
      upload [unfolded linux_demo_upload_def linux_demo_action_def]]
  show ?thesis
    by (simp add: s sample_sys_def state_request_def linux_demo_upload_def linux_demo_action_def)
qed

end
