(* ===== verification/Linux_Main.thy ===== *)
theory Linux_Main
  imports Linux_Handlers
begin

text \<open>
  The program of the Linux sample (linux-sample/example.c: \<open>main\<close>, \<open>print_help\<close>): its four
  subcommands, built from the SDK's operations and the sample's handlers.

  \<open>None\<close> as the result of a subcommand leaves it by \<open>break\<close>; \<open>Some n\<close> is \<open>exit(n)\<close>. The result of
  \<open>main\<close> is \<open>None\<close> when it is in its last, endless loop.
\<close>

section \<open>Configuration\<close>

definition EX_APP_ID :: string where
  "EX_APP_ID = ''ex4liedteote''"

definition EX_APP_KEY :: string where
  "EX_APP_KEY = ''d787de623f15483fa887815017f010e6''"

definition EX_APP_SITE :: string where
  "EX_APP_SITE = ''api.kii.com''"

definition EX_COMMAND_HANDLER_BUFF_SIZE :: nat where
  "EX_COMMAND_HANDLER_BUFF_SIZE = 4096"

definition EX_STATE_UPDATER_BUFF_SIZE :: nat where
  "EX_STATE_UPDATER_BUFF_SIZE = 4096"

definition EX_MQTT_BUFF_SIZE :: nat where
  "EX_MQTT_BUFF_SIZE = 2048"

definition EX_STATE_UPDATE_PERIOD :: int where
  "EX_STATE_UPDATE_PERIOD = 60"

text \<open>
  The arrays of \<open>main\<close> are the heap's buffers 1 to 3; the sample's functions have the numbers 101
  to 113.
\<close>

definition linux_command_handler_resource :: kii_thing_if_command_handler_resource_t where
  "linux_command_handler_resource =
     \<lparr>ch_buffer = 1, ch_buffer_size = EX_COMMAND_HANDLER_BUFF_SIZE,
      ch_mqtt_buffer = 2, ch_mqtt_buffer_size = EX_MQTT_BUFF_SIZE,
      ch_action_handler = Some 101, ch_state_handler = Some 102,
      ch_custom_push_handler = Some 103\<rparr>"

definition linux_state_updater_resource :: kii_thing_if_state_updater_resource_t where
  "linux_state_updater_resource =
     \<lparr>su_buffer = 3, su_buffer_size = EX_STATE_UPDATER_BUFF_SIZE,
      su_period = EX_STATE_UPDATE_PERIOD, su_state_handler = Some 102\<rparr>"

definition linux_sys_cb :: kii_thing_if_system_cb_t where
  "linux_sys_cb =
     \<lparr>cb_task_create = Some 104, cb_delay_ms = Some 105, cb_log = Some 106,
      cb_socket_connect = Some 107, cb_socket_send = Some 108, cb_socket_recv = Some 109,
      cb_socket_close = Some 110, cb_mqtt_socket_connect = Some 111, cb_mqtt_socket_send = Some 112,
      cb_mqtt_socket_recv = Some 113, cb_mqtt_socket_close = Some 114\<rparr>"

text \<open>The uninitialised objects of \<open>main\<close>: an error object and an array of 64 characters.\<close>

record indeterminate =
  junk_error :: kii_thing_if_error_t
  junk_array :: "char list"

section \<open>Printing and leaving\<close>

definition print_line :: "string \<Rightarrow> (('p, 'x app_world) st, unit) prog" where
  "print_line t = on_world (printf (t @ [CHR 0x0A]))"

definition exit_with :: "string \<Rightarrow> int \<Rightarrow> (('p, 'x app_world) st, int option) prog" where
  "exit_with t n = chain (print_line t) (\<lambda>_. ret (Some n))"

primrec print_lines :: "string list \<Rightarrow> (('p, 'x app_world) st, unit) prog" where
  "print_lines [] = ret ()"
| "print_lines (t # ts) = chain (print_line t) (\<lambda>_. print_lines ts)"

definition print_help :: "(('p, 'x app_world) st, unit) prog" where
  "print_help = print_lines
     [''sub commands: [onboard|onboard-with-token|get|update]'', [],
      ''to see detail usage of sub command, execute ./exampleapp {subcommand} --help'', [],
      ''onboard with vendor-thing-id'',
      ''./exampleapp onboard --vendor-thing-id={vendor thing id} --password={password}'', [],
      ''onboard with thing-id'',
      ''./exampleapp onboard --thing-id={thing id} --password={password}'', [],
      ''onboard-with-token.'',
      ''./exampleapp onboard-with-token --thing-id={thing id} --access-token={access token}'', [],
      ''to configure app to use, edit example.h'', [],
      ''get.'',
      ''./exampleapp get --firmware-version --thing-type --vendor-thing-id={vendor thing id} --password={password} '', [],
      ''get.'',
      ''./exampleapp get --firmware-version --thing-type --thing-id={thing id} --password={password} '', [],
      ''update.'',
      ''./exampleapp update --firmware-version --thing-type --vendor-thing-id={vendor thing id} --password={password} '', [],
      ''update.'',
      ''./exampleapp update --firmware-version --thing-type --thing-id={thing id} --password={password} '', []]"

section \<open>Command line options\<close>

text \<open>The variables that the option loops of the subcommands set.\<close>

record locals =
  lv_vendorThingID :: "string option"
  lv_thingID :: "string option"
  lv_accessToken :: "string option"
  lv_password :: "string option"
  lv_firmwareVersion :: "string option"
  lv_thingType :: "string option"
  lv_getFirmwareVersion :: bool
  lv_getThingType :: bool

definition no_locals :: locals where
  "no_locals =
     \<lparr>lv_vendorThingID = None, lv_thingID = None, lv_accessToken = None, lv_password = None,
      lv_firmwareVersion = None, lv_thingType = None, lv_getFirmwareVersion = False,
      lv_getThingType = False\<rparr>"

definition token_options :: "(string \<times> bool \<times> int) list" where
  "token_options = [(''thing-id'', True, 0), (''access-token'', True, 1), (''help'', False, 2)]"

definition onboard_options :: "(string \<times> bool \<times> int) list" where
  "onboard_options = [(''vendor-thing-id'', True, 0), (''thing-id'', True, 1),
     (''password'', True, 2), (''help'', False, 3)]"

definition get_options :: "(string \<times> bool \<times> int) list" where
  "get_options = [(''vendor-thing-id'', True, 0), (''thing-id'', True, 1), (''password'', True, 2),
     (''firmware-version'', False, 3), (''thing-type'', False, 4), (''help'', False, 5)]"

definition update_options :: "(string \<times> bool \<times> int) list" where
  "update_options = [(''vendor-thing-id'', True, 0), (''thing-id'', True, 1), (''password'', True, 2),
     (''firmware-version'', True, 3), (''thing-type'', True, 4), (''help'', False, 5)]"

text \<open>\<open>longOptions[optIndex].name\<close>; the entry that ends the table has no name.\<close>

definition opt_name :: "(string \<times> bool \<times> int) list \<Rightarrow> nat \<Rightarrow> ('s, string) prog" where
  "opt_name tbl i =
     (if i < length tbl then ret (fst (tbl ! i))
      else if i = length tbl then fail NullDeref
      else fail OutOfBounds)"

definition print_option :: "'x app_sys \<Rightarrow> string \<Rightarrow> string option \<Rightarrow> (('p, 'x app_world) st, unit) prog"
where
  "print_option sys name arg = print_line (''option '' @ name @ '' : '' @
     (case arg of None \<Rightarrow> printed_NULL sys | Some a \<Rightarrow> a))"

text \<open>
  The loops of onboard-with-token and onboard up to - 1 (\<open>Some\<close> of the variables then) or to the
  \<open>break\<close> after the option "help" (\<open>None\<close>).
\<close>

fun token_loop ::
  "'x app_sys \<Rightarrow> getopt_result list \<Rightarrow> locals \<Rightarrow> (('p, 'x app_world) st, locals option) prog" where
  "token_loop sys [] l = ret (Some l)"
| "token_loop sys (g # gs) l =
     chain (opt_name token_options (opt_index g)) (\<lambda>optName.
     chain (print_option sys optName (opt_arg g)) (\<lambda>_.
     chain (if opt_c g = 0 then ret (l\<lparr>lv_thingID := opt_arg g\<rparr>)
            else if opt_c g = 1 then ret (l\<lparr>lv_accessToken := opt_arg g\<rparr>)
            else if opt_c g = 3 then
              chain (print_lines [''usage: '',
                ''onboard-with-token --thing-id={ID of the thing} --access-token={access token of the thing} or''])
                (\<lambda>_. ret l)
            else chain (print_line ''unexpected usage.'') (\<lambda>_. ret l)) (\<lambda>l.
     if optName = ''help'' then ret None else token_loop sys gs l)))"

fun onboard_loop ::
  "'x app_sys \<Rightarrow> getopt_result list \<Rightarrow> locals \<Rightarrow> (('p, 'x app_world) st, locals option) prog" where
  "onboard_loop sys [] l = ret (Some l)"
| "onboard_loop sys (g # gs) l =
     chain (opt_name onboard_options (opt_index g)) (\<lambda>optName.
     chain (print_option sys optName (opt_arg g)) (\<lambda>_.
     chain (if opt_c g = 0 then ret (l\<lparr>lv_vendorThingID := opt_arg g\<rparr>)
            else if opt_c g = 1 then ret (l\<lparr>lv_thingID := opt_arg g\<rparr>)
            else if opt_c g = 2 then ret (l\<lparr>lv_password := opt_arg g\<rparr>)
            else if opt_c g = 3 then
              chain (print_lines [''usage: '',
                ''onboard --thing-id={ID of the thing} --password={password of the thing} or'',
                ''onboard --vendor-thing-id={ID of the thing} --password={password of the thing}''])
                (\<lambda>_. ret l)
            else chain (print_line ''unexpected usage.'') (\<lambda>_. ret l)) (\<lambda>l.
     if optName = ''help'' then ret None else onboard_loop sys gs l)))"

text \<open>The loops of get and update up to - 1, or to the \<open>exit\<close> of the option "help" (\<open>None\<close>).\<close>

fun get_loop :: "getopt_result list \<Rightarrow> locals \<Rightarrow> locals option" where
  "get_loop [] l = Some l"
| "get_loop (g # gs) l =
     (if opt_c g = 0 then get_loop gs (l\<lparr>lv_vendorThingID := opt_arg g\<rparr>)
      else if opt_c g = 1 then get_loop gs (l\<lparr>lv_thingID := opt_arg g\<rparr>)
      else if opt_c g = 2 then get_loop gs (l\<lparr>lv_password := opt_arg g\<rparr>)
      else if opt_c g = 3 then get_loop gs (l\<lparr>lv_getFirmwareVersion := True\<rparr>)
      else if opt_c g = 4 then get_loop gs (l\<lparr>lv_getThingType := True\<rparr>)
      else if opt_c g = 5 then None
      else get_loop gs l)"

fun update_loop :: "getopt_result list \<Rightarrow> locals \<Rightarrow> locals option" where
  "update_loop [] l = Some l"
| "update_loop (g # gs) l =
     (if opt_c g = 0 then update_loop gs (l\<lparr>lv_vendorThingID := opt_arg g\<rparr>)
      else if opt_c g = 1 then update_loop gs (l\<lparr>lv_thingID := opt_arg g\<rparr>)
      else if opt_c g = 2 then update_loop gs (l\<lparr>lv_password := opt_arg g\<rparr>)
      else if opt_c g = 3 then update_loop gs (l\<lparr>lv_firmwareVersion := opt_arg g\<rparr>)
      else if opt_c g = 4 then update_loop gs (l\<lparr>lv_thingType := opt_arg g\<rparr>)
      else if opt_c g = 5 then None
      else update_loop gs l)"

section \<open>Calls of the SDK\<close>

text \<open>A call with \<open>e\<close> as its error object: its result and the object it leaves.\<close>

definition with_error ::
  "kii_thing_if_error_t option \<Rightarrow> (('p, 'w) st, 'a) prog \<Rightarrow>
     (('p, 'w) st, 'a \<times> kii_thing_if_error_t option) prog" where
  "with_error e m =
     chain (modify (\<lambda>s. s\<lparr>err := e\<rparr>)) (\<lambda>_.
     chain m (\<lambda>r. chain (gets err) (\<lambda>e'. ret (r, e'))))"

definition no_error :: "(('p, 'w) st, 'a) prog \<Rightarrow> (('p, 'w) st, 'a) prog" where
  "no_error m = chain (with_error None m) (\<lambda>(r, _). ret r)"

definition init_linux :: "('p, 'x app_world) env \<Rightarrow> (('p, 'x app_world) st, bool) prog" where
  "init_linux env = no_error (init_kii_thing_if env (Some EX_APP_ID) (Some EX_APP_KEY)
     (Some EX_APP_SITE) (Some linux_command_handler_resource) (Some linux_state_updater_resource)
     (Some linux_sys_cb) None)"

definition onboard_linux :: "('p, 'x app_world) env \<Rightarrow> locals \<Rightarrow> (('p, 'x app_world) st, bool) prog"
where
  "onboard_linux env l =
     (if lv_vendorThingID l \<noteq> None then
        no_error (onboard_with_vendor_thing_id env (lv_vendorThingID l) (lv_password l)
          None None None None)
      else
        no_error (onboard_with_thing_id env (lv_thingID l) (lv_password l) None None None None))"

fun error_number :: "kii_thing_if_error_code_t \<Rightarrow> int" where
  "error_number KII_THING_IF_ERROR_INVALID_STATE = 0"
| "error_number KII_THING_IF_ERROR_HTTP = 1"
| "error_number KII_THING_IF_ERROR_SOCKET = 2"
| "error_number KII_THING_IF_ERROR_INSUFFICIENT_BUFFER = 3"
| "error_number KII_THING_IF_ERROR_INSUFFICIENT_ARG_BUFFER = 4"
| "error_number KII_THING_IF_ERROR_INVALID_PAYLOAD = 5"

text \<open>The report of a failed call on its error object, and the exit.\<close>

definition exit_failed ::
  "string \<Rightarrow> kii_thing_if_error_t option \<Rightarrow> int \<Rightarrow> (('p, 'x app_world) st, int option) prog" where
  "exit_failed name e n =
     chain (deref e) (\<lambda>e.
     chain (print_line (name @ '' is failed: '' @ show_int (error_number (code e)))) (\<lambda>_.
     if code e = KII_THING_IF_ERROR_HTTP then
       chain (cstr (error_code e)) (\<lambda>c.
       exit_with (''status code='' @ show_int (http_status_code e) @ '', error code='' @ c) n)
     else ret (Some n)))"

section \<open>The subcommands\<close>

definition run_with_token ::
  "'x app_sys \<Rightarrow> ('p, 'x app_world) env \<Rightarrow> string list \<Rightarrow> (('p, 'x app_world) st, int option) prog"
where
  "run_with_token sys env argv =
     chain (token_loop sys (getopt_long sys argv token_options) no_locals) (\<lambda>l.
     case l of
       None \<Rightarrow> ret None
     | Some l \<Rightarrow>
         if lv_thingID l = None then exit_with ''thing-id is not specified.'' 1
         else if lv_accessToken l = None then exit_with ''access-token is not specifeid.'' 1
         else
           chain (no_error (init_kii_thing_if_with_onboarded_thing env (Some EX_APP_ID)
             (Some EX_APP_KEY) (Some EX_APP_SITE)
             (map_option (\<lambda>t. t @ [NUL]) (lv_thingID l)) (map_option (\<lambda>t. t @ [NUL]) (lv_accessToken l))
             (Some linux_command_handler_resource) (Some linux_state_updater_resource)
             (Some linux_sys_cb) None)) (\<lambda>ok.
           if \<not> ok then exit_with ''failed to onboard with token.'' 1
           else chain (print_line ''program successfully started!'') (\<lambda>_. ret None)))"

definition run_onboard ::
  "'x app_sys \<Rightarrow> ('p, 'x app_world) env \<Rightarrow> string list \<Rightarrow> (('p, 'x app_world) st, int option) prog"
where
  "run_onboard sys env argv =
     chain (onboard_loop sys (getopt_long sys argv onboard_options) no_locals) (\<lambda>l.
     case l of
       None \<Rightarrow> ret None
     | Some l \<Rightarrow>
         if lv_vendorThingID l = None \<and> lv_thingID l = None then
           exit_with ''neither vendor-thing-id and thing-id are specified.'' 1
         else if lv_password l = None then exit_with ''password is not specifeid.'' 1
         else if lv_vendorThingID l \<noteq> None \<and> lv_thingID l \<noteq> None then
           exit_with ''both vendor-thing-id and thing-id is specified.  either of one should be specified.'' 1
         else
           chain (print_line ''program successfully started!'') (\<lambda>_.
           chain (init_linux env) (\<lambda>ok.
           if \<not> ok then exit_with ''failed to onboard.'' 1
           else
             chain (onboard_linux env l) (\<lambda>ok.
             if \<not> ok then exit_with ''failed to onboard.'' 1 else ret None))))"

text \<open>What get and update have in common: the checks of the variables, then onboarding.\<close>

definition check_and_onboard ::
  "('p, 'x app_world) env \<Rightarrow> locals \<Rightarrow> bool \<Rightarrow> (('p, 'x app_world) st, int option) prog \<Rightarrow>
     (('p, 'x app_world) st, int option) prog" where
  "check_and_onboard env l nothing onward =
     (if lv_vendorThingID l = None \<and> lv_thingID l = None then
        exit_with ''neither vendor-thing-id and thing-id are specified.'' 1
      else if lv_password l = None then exit_with ''password is not specifeid.'' 1
      else if lv_vendorThingID l \<noteq> None \<and> lv_thingID l \<noteq> None then
        exit_with ''both vendor-thing-id and thing-id is specified.  either of one should be specified.'' 1
      else if nothing then
        exit_with ''--firmware-version or --thing-type must be specified.'' 1
      else
        chain (init_linux env) (\<lambda>ok.
        if \<not> ok then exit_with ''fail to initialize.'' 1
        else
          chain (onboard_linux env l) (\<lambda>ok.
          if \<not> ok then exit_with ''fail to onboard.'' 1 else onward)))"

definition fetch_info ::
  "('p, 'x app_world) env \<Rightarrow> indeterminate \<Rightarrow> locals \<Rightarrow> (('p, 'x app_world) st, int option) prog" where
  "fetch_info env u l =
     chain (if lv_getFirmwareVersion l then
         chain (with_error (Some (junk_error u))
           (get_firmware_version env (Some (junk_array u)) 64)) (\<lambda>((ok, out), e).
         if \<not> ok then exit_failed ''get_firmware_version'' e 0
         else
           chain (deref out) (\<lambda>a.
           chain (cstr a) (\<lambda>t.
           chain (print_line (''firmware version='' @ t)) (\<lambda>_. ret None))))
       else ret None) (\<lambda>x.
     case x of
       Some n \<Rightarrow> ret (Some n)
     | None \<Rightarrow>
         chain (if lv_getThingType l then
             chain (with_error (Some (junk_error u))
               (get_thing_type env (Some (junk_array u)) 64)) (\<lambda>((ok, out), e).
             if \<not> ok then exit_failed ''get_thing_type'' e 0
             else
               chain (deref out) (\<lambda>a.
               chain (cstr a) (\<lambda>t.
               chain (print_line (''thing type='' @ t)) (\<lambda>_. ret None))))
           else ret None) (\<lambda>x.
         case x of Some n \<Rightarrow> ret (Some n) | None \<Rightarrow> ret (Some 0)))"

definition run_get ::
  "'x app_sys \<Rightarrow> ('p, 'x app_world) env \<Rightarrow> indeterminate \<Rightarrow> string list \<Rightarrow>
     (('p, 'x app_world) st, int option) prog" where
  "run_get sys env u argv =
     (case get_loop (getopt_long sys argv get_options) no_locals of
        None \<Rightarrow>
          chain (print_line ''usage: '') (\<lambda>_. exit_with
            ''get --vendor-thing-id={ID of the thing} --password={password of the thing} --thing-type --firmware-version'' 0)
      | Some l \<Rightarrow>
          check_and_onboard env l (\<not> lv_getFirmwareVersion l \<and> \<not> lv_getThingType l)
            (fetch_info env u l))"

definition change_info ::
  "('p, 'x app_world) env \<Rightarrow> indeterminate \<Rightarrow> locals \<Rightarrow> (('p, 'x app_world) st, int option) prog" where
  "change_info env u l =
     chain (if lv_firmwareVersion l \<noteq> None then
         chain (with_error (Some (junk_error u))
           (update_firmware_version env (lv_firmwareVersion l))) (\<lambda>(ok, e).
         if \<not> ok then exit_failed ''update_firmware_version'' e 1
         else chain (print_line ''firmware version successfully updated.'') (\<lambda>_. ret None))
       else ret None) (\<lambda>x.
     case x of
       Some n \<Rightarrow> ret (Some n)
     | None \<Rightarrow>
         chain (if lv_thingType l \<noteq> None then
             chain (with_error (Some (junk_error u))
               (update_thing_type env (lv_thingType l))) (\<lambda>(ok, e).
             if \<not> ok then exit_failed ''update_thing_type'' e 1
             else chain (print_line ''thing type successfully updated.'') (\<lambda>_. ret None))
           else ret None) (\<lambda>x.
         case x of Some n \<Rightarrow> ret (Some n) | None \<Rightarrow> ret (Some 0)))"

definition run_update ::
  "'x app_sys \<Rightarrow> ('p, 'x app_world) env \<Rightarrow> indeterminate \<Rightarrow> string list \<Rightarrow>
     (('p, 'x app_world) st, int option) prog" where
  "run_update sys env u argv =
     (case update_loop (getopt_long sys argv update_options) no_locals of
        None \<Rightarrow>
          chain (print_line ''usage: '') (\<lambda>_. exit_with
            ''update --vendor-thing-id={ID of the thing} --password={password of the thing} --thing-type={thing type --firmware-version={firmware version}'' 0)
      | Some l \<Rightarrow>
          check_and_onboard env l (lv_firmwareVersion l = None \<and> lv_thingType l = None)
            (change_info env u l))"

text \<open>The dispatch on the first argument.\<close>

definition subcommand ::
  "'x app_sys \<Rightarrow> ('p, 'x app_world) env \<Rightarrow> indeterminate \<Rightarrow> string list \<Rightarrow>
     (('p, 'x app_world) st, int option) prog" where
  "subcommand sys env u argv =
     (let subc = argv ! 1
      in if subc = ''onboard-with-token'' then run_with_token sys env argv
         else if subc = ''onboard'' then run_onboard sys env argv
         else if subc = ''get'' then run_get sys env u argv
         else if subc = ''update'' then run_update sys env u argv
         else chain print_help (\<lambda>_. ret (Some 0)))"

definition linux_main ::
  "'x app_sys \<Rightarrow> ('p, 'x) env \<Rightarrow> indeterminate \<Rightarrow> string list \<Rightarrow>
     (('p, 'x app_world) st, int option) prog" where
  "linux_main sys base u argv =
     (if argv = [] then fail OutOfBounds
      else
        chain (on_world (mutex (pthread_mutex_init sys))) (\<lambda>r.
        if r \<noteq> 0 then exit_with ''fail to get mutex.'' 1
        else if length argv < 2 then
          chain (print_line ''too few arguments.'') (\<lambda>_. chain print_help (\<lambda>_. ret (Some 1)))
        else
          chain (subcommand sys (linux_env sys base) u argv) (\<lambda>x.
          case x of
            Some n \<Rightarrow> ret (Some n)
          | None \<Rightarrow> chain (no_error (start (linux_env sys base))) (\<lambda>_. ret None))))"

end
