(* ===== verification/Linux_Main_Properties.thy ===== *)
theory Linux_Main_Properties
  imports Linux_Main
begin

text \<open>
  What the program of the Linux sample does with the SDK: the requests of its subcommands and the
  states in which it starts the tasks. Its printing is tracked only as far as it keeps everything
  else (\<open>printed_only\<close>).
\<close>

section \<open>What the parts do\<close>

text \<open>The documented effect of \<open>kii_init_with_info\<close>: it stores the application's ID and key.\<close>

definition init_configures :: "('p, 'w) env \<Rightarrow> bool" where
  "init_configures env \<longleftrightarrow>
     (\<forall>k site i key info k'. kii_init_with_info env k site i key info = (0, k') \<longrightarrow>
        app_id k' = i \<and> app_key k' = key)"

definition printed_only :: "('p, 'w) st \<Rightarrow> ('p, 'w) st \<Rightarrow> bool" where
  "printed_only s s' \<longleftrightarrow> (\<exists>w. s' = s\<lparr>world := w\<rparr>)"

lemma printed_only_refl [simp]: "printed_only s s"
  unfolding printed_only_def by (metis st.surjective st.update_convs(5))

lemma printed_only_trans: "printed_only s t \<Longrightarrow> printed_only t u \<Longrightarrow> printed_only s u"
  by (auto simp: printed_only_def)

lemma printed_only_parts:
  "printed_only s s' \<Longrightarrow> thing s' = thing s"
  "printed_only s s' \<Longrightarrow> trace s' = trace s"
  "printed_only s s' \<Longrightarrow> err s' = err s"
  "printed_only s s' \<Longrightarrow> kii_of p s' = kii_of p s"
  by (auto simp: printed_only_def)

lemma yields_printing [yields_intros]:
  "(\<And>t'. printed_only s t' \<Longrightarrow> Q () t') \<Longrightarrow> yields (print_line t) s Q"
  "(\<And>t'. printed_only s t' \<Longrightarrow> R (Some n) t') \<Longrightarrow> yields (exit_with t n) s R"
proof -
  have "yields (print_line t) s (\<lambda>_ t'. printed_only s t')" for t
    unfolding print_line_def
    by (intro yields_intros) (auto simp: printed_only_def)
  then show "(\<And>t'. printed_only s t' \<Longrightarrow> Q () t') \<Longrightarrow> yields (print_line t) s Q"
    and "(\<And>t'. printed_only s t' \<Longrightarrow> R (Some n) t') \<Longrightarrow> yields (exit_with t n) s R"
    by (auto simp: yields_def exit_with_def chain_eq_Inr)
qed

lemma yields_print_lines [yields_intros]:
  "(\<And>t'. printed_only s t' \<Longrightarrow> Q () t') \<Longrightarrow> yields (print_lines ts) s Q"
proof (induction ts arbitrary: s)
  case Nil
  then show ?case by (simp add: yields_def)
next
  case (Cons t ts)
  show ?case
    unfolding print_lines.simps
    by (intro yields_intros Cons.IH Cons.prems) (blast intro: printed_only_trans)
qed

lemma yields_exit_failed:
  "(\<And>t'. printed_only s t' \<Longrightarrow> Q (Some n) t') \<Longrightarrow> yields (exit_failed name e n) s Q"
  unfolding exit_failed_def
  by (intro yields_intros) (blast intro: printed_only_trans)+

lemma no_error_eq_Inr: "no_error m s = Inr (r, s') \<longleftrightarrow> m (s\<lparr>err := None\<rparr>) = Inr (r, s')"
  by (auto simp: no_error_def with_error_def chain_eq_Inr)

lemma with_error_eq_Inr:
  "with_error e m s = Inr ((r, e'), s') \<longleftrightarrow> m (s\<lparr>err := e\<rparr>) = Inr (r, s') \<and> e' = err s'"
  by (auto simp: with_error_def chain_eq_Inr)

lemma init_linux_ok:
  assumes "init_configures env" and "init_linux env s = Inr (True, s')"
  shows "trace s' = trace s" and "app_id (kii_of CommandHandler s') = EX_APP_ID"
    and "app_key (kii_of CommandHandler s') = EX_APP_KEY"
proof -
  let ?ch = linux_command_handler_resource and ?su = linux_state_updater_resource
  let ?s = "s\<lparr>err := None\<rparr>"
  obtain k u s1
    where k: "kii_init_with_info env (zero_kii env (kii_of CommandHandler ?s)) EX_APP_SITE EX_APP_ID
        EX_APP_KEY THING_IF_INFO = (0, k)"
      and buf: "init_buffers ?ch ?su (?s\<lparr>thing := zero_thing env (thing ?s)\<rparr>) = Inr ((), s1)"
      and s': "trace s' = trace s1" "kii_of CommandHandler s' = wire_handler ?ch linux_sys_cb None k"
    using init_kii_thing_if_True [OF assms(2) [unfolded init_linux_def no_error_eq_Inr
        init_kii_thing_if_def]]
    by (auto simp: kii_of_def)
  show "trace s' = trace s" using s'(1) init_buffers_result [OF buf] by simp
  show "app_id (kii_of CommandHandler s') = EX_APP_ID" "app_key (kii_of CommandHandler s') = EX_APP_KEY"
    using assms(1) k s'(2) by (auto simp: init_configures_def wire_handler_def)
qed

text \<open>
  The registration that the options ask for: both requests by the vendor's thing ID; by the thing ID
  the calls for both, the second of which is no request where its start, with the result \<open>r\<close>, failed.
\<close>

definition registered :: "string \<Rightarrow> string \<Rightarrow> locals \<Rightarrow> event list \<Rightarrow> bool" where
  "registered a key l new \<longleftrightarrow> (\<exists>pw. lv_password l = Some pw \<and>
     (case lv_vendorThingID l of
        Some v \<Rightarrow> requests CommandHandler new =
          [oauth_request a key, onboard_request CONTENT_TYPE_VENDOR_THING_ID ''vendorThingID'' a v pw
             None None None None]
      | None \<Rightarrow> \<exists>t r. lv_thingID l = Some t \<and>
          new = token_calls CommandHandler a key @
            thing_id_calls CommandHandler a t pw None None None None r \<and>
          requests CommandHandler new = oauth_request a key #
            (if r = 0 then [onboard_request CONTENT_TYPE_THING_ID ''thingID'' a t pw None None None None]
             else [])))"

lemma app_frame:
  assumes "kii_api_frame env"
  shows "author_invariant env CommandHandler (\<lambda>s. same_app k (kii_of CommandHandler s))"
proof unfold_locales
  fix a
  show "preserves (\<lambda>s. same_app k (kii_of CommandHandler s))
      (update_kii CommandHandler (\<lambda>k. k\<lparr>author := a k\<rparr>))"
    by (auto intro!: preservesI simp: kii_of_def same_app_def)
qed (auto intro!: preservesI intro: same_app_trans same_identity_app
      dest!: api_call_identity [OF assms])

lemma onboard_linux_ok:
  assumes frame: "kii_api_frame env" and ok: "onboard_linux env l s = Inr (True, s')"
  shows "(\<exists>new. trace s' = trace s @ new \<and>
      registered (app_id (kii_of CommandHandler s)) (app_key (kii_of CommandHandler s)) l new) \<and>
    state (thing s') = KII_THING_IF_STATE_ONBOARDED \<and>
    same_app (kii_of CommandHandler s) (kii_of CommandHandler s')"
proof -
  let ?s = "s\<lparr>err := None\<rparr>" and ?v = "lv_vendorThingID l" and ?t = "lv_thingID l" and ?pw = "lv_password l"
  define m where "m = (if ?v \<noteq> None
    then prv_onboard_with_vendor_thing_id env CommandHandler ?v ?pw None None None None
    else prv_onboard_with_thing_id env CommandHandler ?t ?pw None None None None)"
  have gate: "onboard_gate m ?s = Inr (True, s')"
    using ok by (simp add: onboard_linux_def onboard_gates m_def no_error_eq_Inr split: if_splits)
  obtain s1 where m: "m ?s = Inr (True, s1)" and s1: "trace s' = trace s1"
      "kii_of CommandHandler s' = kii_of CommandHandler s1"
    using onboard_gate_True(1) [OF gate] by blast
  have "preserves (\<lambda>t. same_app (kii_of CommandHandler s) (kii_of CommandHandler t)) m"
    unfolding m_def
    by (auto intro: author_invariant.prv_onboard_with_vendor_thing_id_inv
        author_invariant.prv_onboard_with_thing_id_inv app_frame [OF frame])
  from preservesD [OF this m]
  have "same_app (kii_of CommandHandler s) (kii_of CommandHandler s1)"
    by (simp add: same_app_def)
  moreover have "\<exists>new. trace s1 = trace s @ new \<and>
      registered (app_id (kii_of CommandHandler s)) (app_key (kii_of CommandHandler s)) l new"
  proof (cases ?v)
    case (Some v)
    then have "prv_onboard_with_vendor_thing_id env CommandHandler ?v ?pw None None None None ?s
        = Inr (True, s1)"
      using m by (simp add: m_def)
    from prv_onboard_with_vendor_thing_id_ok [OF frame this] Some show ?thesis
      by (auto simp: registered_def)
  next
    case None
    then have "prv_onboard_with_thing_id env CommandHandler ?t ?pw None None None None ?s
        = Inr (True, s1)"
      using m by (simp add: m_def)
    from prv_onboard_with_thing_id_ok [OF frame this] None show ?thesis
      by (auto simp: registered_def requests_thing_id)
  qed
  ultimately show ?thesis using s1 onboard_gate_True(3) [OF gate] by simp
qed

text \<open>The requests of the changes that the options ask for.\<close>

definition changes :: "string \<Rightarrow> string \<Rightarrow> locals \<Rightarrow> request list" where
  "changes a i l =
     (case lv_firmwareVersion l of None \<Rightarrow> []
      | Some v \<Rightarrow> [put_request (firmware_path a i) CONTENT_UPDATE_FIRMWARE_VERSION ''firmwareVersion'' v]) @
     (case lv_thingType l of None \<Rightarrow> []
      | Some v \<Rightarrow> [put_request (thing_type_path a i) CONTENT_UPDATE_THING_TYPE ''thingType'' v])"

text \<open>One of the two changes: left out, or made, or failed with the exit status 1.\<close>

definition one_change ::
  "kii_thing_if_error_t option \<Rightarrow> string \<Rightarrow> string \<Rightarrow>
     (string option \<Rightarrow> (('p, 'x app_world) st, bool) prog) \<Rightarrow> string option \<Rightarrow>
     (('p, 'x app_world) st, int option) prog" where
  "one_change e name t op v =
     (if v \<noteq> None then
        chain (with_error e (op v)) (\<lambda>(ok, e).
        if \<not> ok then exit_failed name e 1 else chain (print_line t) (\<lambda>_. ret None))
      else ret None)"

lemma change_info_steps:
  "change_info env u l =
     chain (one_change (Some (junk_error u)) ''update_firmware_version''
       ''firmware version successfully updated.'' (update_firmware_version env) (lv_firmwareVersion l)) (\<lambda>x.
     case x of
       None \<Rightarrow>
         chain (one_change (Some (junk_error u)) ''update_thing_type''
           ''thing type successfully updated.'' (update_thing_type env) (lv_thingType l)) (\<lambda>x.
         case x of None \<Rightarrow> ret (Some 0) | Some n \<Rightarrow> ret (Some n))
     | Some n \<Rightarrow> ret (Some n))"
  by (simp only: change_info_def one_change_def)

definition change_made :: "string option \<Rightarrow> (string \<Rightarrow> request) \<Rightarrow> ('p, 'w) st \<Rightarrow> ('p, 'w) st \<Rightarrow> bool" where
  "change_made v rq s s' \<longleftrightarrow>
     (\<exists>new. trace s' = trace s @ new \<and>
        runs CommandHandler new (case v of None \<Rightarrow> [] | Some v \<Rightarrow> [rq v])) \<and>
     same_identity (kii_of CommandHandler s) (kii_of CommandHandler s')"

lemma change_step:
  assumes frame: "kii_api_frame env" and setter: "path_setter env setter text_of"
    and inv: "\<And>app i n. preserves (\<lambda>t. same_identity (kii_of CommandHandler s)
      (kii_of CommandHandler t)) (setter app i n)"
  shows "yields (one_change e name t (put_member env setter key ctype) v) s (\<lambda>x s'.
    x = Some 1 \<or> x = None \<and> change_made v (put_request (text_of (app_id (kii_of CommandHandler s))
      (c_str (author_id (author (kii_of CommandHandler s))))) ctype key) s s')"
proof (rule yieldsI)
  fix x s'
  assume run: "one_change e name t (put_member env setter key ctype) v s = Inr (x, s')"
  show "x = Some 1 \<or> x = None \<and> change_made v (put_request (text_of (app_id (kii_of CommandHandler s))
      (c_str (author_id (author (kii_of CommandHandler s))))) ctype key) s s'"
  proof (cases "v = None")
    case True
    with run show ?thesis by (auto simp: one_change_def change_made_def runs_Nil)
  next
    case False
    then obtain ok e' s1 where put: "put_member env setter key ctype v (s\<lparr>err := e\<rparr>) = Inr (ok, s1)"
      and go: "(if \<not> ok then exit_failed name e' 1 else chain (print_line t) (\<lambda>_. ret None)) s1 = Inr (x, s')"
      using run by (auto simp: one_change_def chain_eq_Inr with_error_eq_Inr)
    show ?thesis
    proof (cases ok)
      case False
      have "yields (exit_failed name e' 1) s1 (\<lambda>x _. x = Some 1)"
        by (rule yields_exit_failed) simp
      with go False show ?thesis by (auto simp: yields_def)
    next
      case True
      have "yields (chain (print_line t) (\<lambda>_. ret None)) s1 (\<lambda>x s'. x = None \<and> printed_only s1 s')"
        by (intro yields_intros) simp_all
      with go True have x: "x = None" "printed_only s1 s'" by (auto simp: yields_def)
      have success: "put_member env setter key ctype v (s\<lparr>err := e\<rparr>) = Inr (True, s1)"
        using put True by simp
      have "same_identity (kii_of CommandHandler s) (kii_of CommandHandler s1)"
        using preservesD [OF member_invs(2) [OF identity_frame [OF frame] inv] put] by simp
      with put_member_runs [OF frame setter success] x show ?thesis
        by (auto simp: printed_only_parts change_made_def)
    qed
  qed
qed

lemma changes_made:
  assumes "change_made v (put_request (firmware_path a i) CONTENT_UPDATE_FIRMWARE_VERSION
      ''firmwareVersion'') s t"
    and "change_made w (put_request (thing_type_path a i) CONTENT_UPDATE_THING_TYPE ''thingType'') t s'"
    and "v = lv_firmwareVersion l" and "w = lv_thingType l"
  shows "(\<exists>new. trace s' = trace s @ new \<and> runs CommandHandler new (changes a i l)) \<and>
    same_identity (kii_of CommandHandler s) (kii_of CommandHandler s')"
  using assms unfolding change_made_def changes_def
  by (auto intro: same_identity_trans intro!: runs_append)

lemma change_info_ok:
  assumes frame: "kii_api_frame env"
  shows "yields (change_info env u l) s (\<lambda>x s'. x = Some 1 \<or> x = Some 0 \<and>
    (\<exists>new. trace s' = trace s @ new \<and> runs CommandHandler new (changes (app_id (kii_of CommandHandler s))
        (c_str (author_id (author (kii_of CommandHandler s)))) l)) \<and>
    same_identity (kii_of CommandHandler s) (kii_of CommandHandler s'))"
proof -
  let ?a = "app_id (kii_of CommandHandler s)" and ?i = "c_str (author_id (author (kii_of CommandHandler s)))"
  note firmware = change_step [OF frame firmware_setter.path_setter_axioms preserves_setters(3)]
  note kind = change_step [OF frame thing_type_setter.path_setter_axioms preserves_setters(4)]
  have later: "yields (chain (one_change (Some (junk_error u)) ''update_thing_type''
         ''thing type successfully updated.'' (update_thing_type env) (lv_thingType l)) (\<lambda>x.
       case x of None \<Rightarrow> ret (Some 0) | Some n \<Rightarrow> ret (Some n))) t (\<lambda>x s'. x = Some 1 \<or> x = Some 0 \<and>
      (\<exists>new. trace s' = trace s @ new \<and> runs CommandHandler new (changes ?a ?i l)) \<and>
      same_identity (kii_of CommandHandler s) (kii_of CommandHandler s'))"
    if made: "change_made (lv_firmwareVersion l) (put_request (firmware_path ?a ?i)
      CONTENT_UPDATE_FIRMWARE_VERSION ''firmwareVersion'') s t" for t
  proof (unfold member_ops, rule yields_through, rule kind, elim disjE)
    have same: "app_id (kii_of CommandHandler t) = ?a" "c_str (author_id (author (kii_of CommandHandler t))) = ?i"
      using made by (auto simp: change_made_def same_identity_def)
    fix x :: "int option" and t'
    assume "x = None \<and> change_made (lv_thingType l) (put_request (thing_type_path
      (app_id (kii_of CommandHandler t)) (c_str (author_id (author (kii_of CommandHandler t)))))
      CONTENT_UPDATE_THING_TYPE ''thingType'') t t'"
    with changes_made [OF made _ refl refl] same
    show "yields (case x of None \<Rightarrow> ret (Some 0) | Some n \<Rightarrow> ret (Some n)) t' (\<lambda>x s'. x = Some 1 \<or> x = Some 0 \<and>
      (\<exists>new. trace s' = trace s @ new \<and> runs CommandHandler new (changes ?a ?i l)) \<and>
      same_identity (kii_of CommandHandler s) (kii_of CommandHandler s'))"
      by (auto simp: yields_def)
  qed (simp add: yields_def)
  show ?thesis
    unfolding change_info_steps
    by (rule yields_through, unfold member_ops, rule firmware)
      (auto intro: later [unfolded member_ops] yields_simple)
qed

text \<open>What get and update do before their last part.\<close>

lemma checked_and_onboarded:
  assumes frame: "kii_api_frame env" and init: "init_configures env"
    and onward: "\<And>t new. trace t = trace s @ new \<Longrightarrow> registered EX_APP_ID EX_APP_KEY l new \<Longrightarrow>
      state (thing t) = KII_THING_IF_STATE_ONBOARDED \<Longrightarrow>
      app_id (kii_of CommandHandler t) = EX_APP_ID \<Longrightarrow>
      \<not> (lv_vendorThingID l \<noteq> None \<and> lv_thingID l \<noteq> None) \<Longrightarrow> \<not> nothing \<Longrightarrow> yields rest_of t Q"
    and failed: "\<And>t. Q (Some 1) t"
  shows "yields (check_and_onboard env l nothing rest_of) s Q"
proof -
  let ?begun = "\<lambda>t. app_id (kii_of CommandHandler t) = EX_APP_ID \<and>
    app_key (kii_of CommandHandler t) = EX_APP_KEY"
  have onboard: "yields (onboard_linux env l) t (\<lambda>ok t'. ok \<longrightarrow> (\<exists>new. trace t' = trace t @ new \<and>
      registered EX_APP_ID EX_APP_KEY l new) \<and> state (thing t') = KII_THING_IF_STATE_ONBOARDED \<and>
      app_id (kii_of CommandHandler t') = EX_APP_ID)" if "?begun t" for t
    using onboard_linux_ok [OF frame, of l t] that by (auto simp: yields_def same_app_def)
  have start: "yields (init_linux env) s (\<lambda>ok t. ok \<longrightarrow> trace t = trace s \<and> ?begun t)"
    using init_linux_ok [OF init] by (auto simp: yields_def)
  have inner: "yields (chain (onboard_linux env l) (\<lambda>ok.
        if \<not> ok then exit_with ''fail to onboard.'' 1 else rest_of)) t Q"
    if "trace t = trace s" "?begun t" "\<not> (lv_vendorThingID l \<noteq> None \<and> lv_thingID l \<noteq> None)" "\<not> nothing"
    for t
    by (rule yields_through [OF onboard [OF that(2)]], intro yields_cases yields_printing failed)
      (use that onward in auto)
  have "yields (chain (init_linux env) (\<lambda>ok.
      if \<not> ok then exit_with ''fail to initialize.'' 1
      else
        chain (onboard_linux env l) (\<lambda>ok.
        if \<not> ok then exit_with ''fail to onboard.'' 1 else rest_of))) s Q"
    if "\<not> (lv_vendorThingID l \<noteq> None \<and> lv_thingID l \<noteq> None)" and "\<not> nothing"
    by (rule yields_through [OF start], intro yields_cases(1) yields_printing failed)
      (use that inner in auto)
  then show ?thesis
    unfolding check_and_onboard_def
    by (intro yields_cases(1) yields_printing failed) auto
qed

text \<open>One of the two queries of get: both ways on which it can end the program end it with 0.\<close>

definition one_query ::
  "kii_thing_if_error_t option \<Rightarrow> string \<Rightarrow> string \<Rightarrow>
     (('p, 'x app_world) st, bool \<times> char list option) prog \<Rightarrow> bool \<Rightarrow>
     (('p, 'x app_world) st, int option) prog" where
  "one_query e name label op b =
     (if b then
        chain (with_error e op) (\<lambda>((ok, out), e).
        if \<not> ok then exit_failed name e 0
        else
          chain (deref out) (\<lambda>a.
          chain (cstr a) (\<lambda>t.
          chain (print_line (label @ t)) (\<lambda>_. ret None))))
      else ret None)"

lemma fetch_info_steps:
  "fetch_info env u l =
     chain (one_query (Some (junk_error u)) ''get_firmware_version'' ''firmware version=''
       (get_firmware_version env (Some (junk_array u)) 64) (lv_getFirmwareVersion l)) (\<lambda>x.
     case x of
       None \<Rightarrow>
         chain (one_query (Some (junk_error u)) ''get_thing_type'' ''thing type=''
           (get_thing_type env (Some (junk_array u)) 64) (lv_getThingType l)) (\<lambda>x.
         case x of None \<Rightarrow> ret (Some 0) | Some n \<Rightarrow> ret (Some n))
     | Some n \<Rightarrow> ret (Some n))"
  by (simp only: fetch_info_def one_query_def)

lemma yields_query_result:
  "yields ((\<lambda>((ok, out), e').
      if \<not> ok then exit_failed name e' 0
      else
        chain (deref out) (\<lambda>a.
        chain (cstr a) (\<lambda>t.
        chain (print_line (label @ t)) (\<lambda>_. ret None)))) x) s (\<lambda>x _. x = None \<or> x = Some 0)"
proof -
  obtain ok out e' where x: "x = ((ok, out), e')" by (metis prod.exhaust)
  show ?thesis
    unfolding x prod.case by (intro yields_intros yields_exit_failed) simp_all
qed

lemma yields_any: "yields m s (\<lambda>_ _. True)"
  by (simp add: yields_def)

lemma yields_one_query: "yields (one_query e name label op b) s (\<lambda>x _. x = None \<or> x = Some 0)"
  unfolding one_query_def
  by (rule yields_cases(1), rule yields_through [OF yields_any], rule yields_query_result)
    (simp add: yields_simple)

lemma fetch_info_exit: "yields (fetch_info env u l) s (\<lambda>x _. x = Some 0)"
  unfolding fetch_info_steps
  by (rule yields_through [OF yields_one_query])
    (auto intro!: yields_through [OF yields_one_query] yields_simple)

lemma linux_configures: "init_configures base \<Longrightarrow> init_configures (linux_env sys base)"
  by (simp add: init_configures_def linux_env_def)

lemma printed_only_world: "printed_only s (s\<lparr>world := w\<rparr>)"
  by (auto simp: printed_only_def)

lemma yields_print_option [yields_intros]:
  "(\<And>t'. printed_only s t' \<Longrightarrow> Q () t') \<Longrightarrow> yields (print_option sys n a) s Q"
  unfolding print_option_def by (rule yields_printing)

text \<open>The option loop of onboard only prints; it is left early only at the entry 3, "help".\<close>

lemma yields_opt_name [yields_intros]:
  "(i < length tbl \<Longrightarrow> Q (fst (tbl ! i)) s) \<Longrightarrow> yields (opt_name tbl i) s Q"
  by (auto simp: opt_name_def yields_def)

text \<open>The variables that the options set.\<close>

primrec onboard_variables :: "getopt_result list \<Rightarrow> locals \<Rightarrow> locals" where
  "onboard_variables [] l = l"
| "onboard_variables (g # gs) l = onboard_variables gs
     (if opt_c g = 0 then l\<lparr>lv_vendorThingID := opt_arg g\<rparr>
      else if opt_c g = 1 then l\<lparr>lv_thingID := opt_arg g\<rparr>
      else if opt_c g = 2 then l\<lparr>lv_password := opt_arg g\<rparr>
      else l)"

lemma onboard_loop_prints:
  "yields (onboard_loop sys gs l) s (\<lambda>x s'. printed_only s s' \<and>
     (case x of None \<Rightarrow> \<exists>g \<in> set gs. opt_index g = 3 | Some l' \<Rightarrow> l' = onboard_variables gs l))"
proof (induction gs arbitrary: l s)
  case Nil
  show ?case by (simp add: yields_def)
next
  case (Cons g gs)
  have later: "yields (onboard_loop sys gs l') t (\<lambda>x s'. printed_only s s' \<and> (case x of
      None \<Rightarrow> \<exists>h \<in> set (g # gs). opt_index h = 3 | Some l'' \<Rightarrow> l'' = onboard_variables (g # gs) l))"
    if "printed_only s t" and "onboard_variables gs l' = onboard_variables (g # gs) l" for l' t
    by (rule yields_weaken [OF Cons.IH])
      (use that in \<open>auto intro: printed_only_trans split: option.splits\<close>)
  have asked: "opt_index g = 3"
    if "fst (onboard_options ! opt_index g) = ''help''" "opt_index g < length onboard_options"
    using that by (auto simp: onboard_options_def less_Suc_eq numeral_nat)
  show ?case
    unfolding onboard_loop.simps
    by (intro yields_intros later)
      (auto intro: printed_only_trans asked later)
qed

text \<open>\<open>main\<close> by what its subcommand does.\<close>

lemma linux_main_yields:
  assumes main: "\<And>t. printed_only s t \<Longrightarrow> yields (subcommand sys (linux_env sys base) u argv) t
      (\<lambda>x t'. case x of
         None \<Rightarrow> yields (start (linux_env sys base)) (t'\<lparr>err := None\<rparr>) (\<lambda>_. Q None)
       | Some n \<Rightarrow> Q (Some n) t')"
    and early: "\<And>t. printed_only s t \<Longrightarrow> Q (Some 1) t"
  shows "yields (linux_main sys base u argv) s Q"
proof -
  have proceed: "yields (chain (no_error (start (linux_env sys base))) (\<lambda>_. ret None)) t Q"
    if "yields (start (linux_env sys base)) (t\<lparr>err := None\<rparr>) (\<lambda>_. Q None)" for t
    using that by (auto simp: yields_def chain_eq_Inr no_error_eq_Inr)
  have go: "yields (chain (subcommand sys (linux_env sys base) u argv) (\<lambda>x.
      case x of
        Some n \<Rightarrow> ret (Some n)
      | None \<Rightarrow> chain (no_error (start (linux_env sys base))) (\<lambda>_. ret None))) t Q"
    if "printed_only s t" for t
    by (rule yields_through [OF main [OF that]], split option.split)
      (auto intro: proceed yields_simple)
  have few: "yields (chain (print_line ''too few arguments.'') (\<lambda>_. chain print_help (\<lambda>_. ret (Some 1)))) t Q"
    if "printed_only s t" for t
    unfolding print_help_def
    by (intro yields_intros early) (use that in \<open>blast intro: printed_only_trans\<close>)
  have locked: "yields (exit_with ''fail to get mutex.'' 1) t Q" if "printed_only s t" for t
    by (intro yields_intros early) (use that in \<open>blast intro: printed_only_trans\<close>)
  have mutex: "yields (on_world (mutex (pthread_mutex_init sys))) s (\<lambda>_. printed_only s)"
    by (intro yields_on_world yields_app) (rule printed_only_world)
  show ?thesis
    unfolding linux_main_def
    by (rule yields_cases(1), rule yields_simple(2), rule yields_through [OF mutex],
        rule yields_cases(1), erule locked, rule yields_cases(1), erule few, erule go)
qed

text \<open>What an update leaves behind that exits with 0.\<close>

definition updated :: "('p, 'w) st \<Rightarrow> locals \<Rightarrow> ('p, 'w) st \<Rightarrow> bool" where
  "updated s l s' \<longleftrightarrow> (\<exists>new1 new2. trace s' = trace s @ new1 @ new2 \<and>
    registered EX_APP_ID EX_APP_KEY l new1 \<and>
    \<not> (lv_vendorThingID l \<noteq> None \<and> lv_thingID l \<noteq> None) \<and>
    \<not> (lv_firmwareVersion l = None \<and> lv_thingType l = None) \<and>
    requests CommandHandler (new1 @ new2) = requests CommandHandler new1 @
      changes EX_APP_ID (c_str (author_id (author (kii_of CommandHandler s')))) l)"

lemma updated_by_changes:
  assumes "printed_only s t" and "trace t1 = trace t @ new1" and "registered EX_APP_ID EX_APP_KEY l new1"
    and "app_id (kii_of CommandHandler t1) = EX_APP_ID"
    and "\<not> (lv_vendorThingID l \<noteq> None \<and> lv_thingID l \<noteq> None)"
    and "\<not> (lv_firmwareVersion l = None \<and> lv_thingType l = None)"
    and "trace t' = trace t1 @ new2"
    and "runs CommandHandler new2 (changes (app_id (kii_of CommandHandler t1))
        (c_str (author_id (author (kii_of CommandHandler t1)))) l)"
    and "same_identity (kii_of CommandHandler t1) (kii_of CommandHandler t')"
  shows "updated s l t'"
  unfolding updated_def
proof (intro exI conjI)
  show "trace t' = trace s @ new1 @ new2" using assms(1,2,7) by (simp add: printed_only_parts)
  have "author (kii_of CommandHandler t') = author (kii_of CommandHandler t1)"
    using assms(9) by (simp add: same_identity_def)
  then show "requests CommandHandler (new1 @ new2) = requests CommandHandler new1 @
      changes EX_APP_ID (c_str (author_id (author (kii_of CommandHandler t')))) l"
    using requests_then_runs [OF assms(8)] assms(4) by simp
qed (fact assms)+

lemma update_yields:
  fixes s :: "('p, 'x app_world) st"
  assumes frame: "kii_api_frame env" and "init_configures env"
    and "update_loop (getopt_long sys argv update_options) no_locals = Some l" and "printed_only s t"
  shows "yields (run_update sys env u argv) t (\<lambda>x t'. x = Some 1 \<or> x = Some 0 \<and> updated s l t')"
proof -
  have "yields (check_and_onboard env l (lv_firmwareVersion l = None \<and> lv_thingType l = None)
      (change_info env u l)) t (\<lambda>x t'. x = Some 1 \<or> x = Some 0 \<and> updated s l t')"
  proof (rule checked_and_onboarded [OF assms(1,2)])
    fix t1 :: "('p, 'x app_world) st" and new1
    assume "trace t1 = trace t @ new1" "registered EX_APP_ID EX_APP_KEY l new1"
      "app_id (kii_of CommandHandler t1) = EX_APP_ID"
      "\<not> (lv_vendorThingID l \<noteq> None \<and> lv_thingID l \<noteq> None)"
      "\<not> (lv_firmwareVersion l = None \<and> lv_thingType l = None)"
    note updated = updated_by_changes [OF assms(4) this]
    show "yields (change_info env u l) t1 (\<lambda>x t'. x = Some 1 \<or> x = Some 0 \<and> updated s l t')"
      by (rule yields_weaken [OF change_info_ok [OF frame]]) (blast intro: updated)
  qed simp
  then show ?thesis by (simp add: run_update_def assms(3))
qed

section \<open>A concrete run\<close>

text \<open>
  A library without limits on its buffers, options for both subcommands, a server that answers
  everything, and arrays of the right sizes.
\<close>

definition main_call_start ::
  "nat kii_t \<Rightarrow> string \<Rightarrow> string \<Rightarrow> string option \<Rightarrow> bool \<Rightarrow> sample_world \<Rightarrow> int \<times> nat kii_t \<times> sample_world"
where
  "main_call_start k meth path ctype auth w = (if w = [] then - 1 else 0, k, w)"

definition main_call_append :: "nat kii_t \<Rightarrow> string \<Rightarrow> sample_world \<Rightarrow> int \<times> nat kii_t \<times> sample_world"
where
  "main_call_append k b w = (if w = [] then - 1 else 0, k, w)"

definition main_base :: "(nat, sample_world) env" where
  "main_base = sample_env
     \<lparr>kii_api_call_start := main_call_start, kii_api_call_append_body := main_call_append\<rparr>"

definition main_sys :: "sample_world app_sys" where
  "main_sys = sample_sys\<lparr>getopt_long := (\<lambda>argv opts.
     [\<lparr>opt_c = 0, opt_index = 0, opt_arg = Some ''v1''\<rparr>,
      \<lparr>opt_c = 2, opt_index = 2, opt_arg = Some ''pw''\<rparr>] @
     (if argv ! 1 = ''update'' then [\<lparr>opt_c = 3, opt_index = 3, opt_arg = Some ''2.0''\<rparr>] else []))\<rparr>"

definition main_junk :: indeterminate where
  "main_junk = \<lparr>junk_error = sample_error, junk_array = replicate 64 NUL\<rparr>"

definition main_world :: "sample_world app_world" where
  "main_world = \<lparr>m_air_conditioner = zero_air_conditioner, state_file = None, terminal = [],
     rest = sample_answers @ [(204, [])]\<rparr>"

definition main_start :: "(nat, sample_world app_world) st" where
  "main_start =
     \<lparr>thing = sample_thing KII_THING_IF_STATE_STARTED, err = None, msg = [],
      heap = (\<lambda>b. if b = 1 then Some (replicate EX_COMMAND_HANDLER_BUFF_SIZE NUL)
        else if b = 2 then Some (replicate EX_MQTT_BUFF_SIZE NUL)
        else Some (replicate EX_STATE_UPDATER_BUFF_SIZE NUL)),
      world = main_world, trace = []\<rparr>"

definition main_kii :: "nat kii_t" where
  "main_kii = zero_kii main_base sample_kii\<lparr>app_id := EX_APP_ID, app_key := EX_APP_KEY\<rparr>"

text \<open>The thing after the initialisation, by the sizes of the two buffers of its command handler.\<close>

definition main_thing :: "nat \<Rightarrow> nat \<Rightarrow> nat \<Rightarrow> nat kii_thing_if_t" where
  "main_thing n m k =
     \<lparr>command_handler = wire_handler
        \<lparr>ch_buffer = 1, ch_buffer_size = n, ch_mqtt_buffer = 2, ch_mqtt_buffer_size = m,
         ch_action_handler = Some 101, ch_state_handler = Some 102,
         ch_custom_push_handler = Some 103\<rparr> linux_sys_cb None main_kii,
      state_updater = wire_updater
        \<lparr>su_buffer = 3, su_buffer_size = k, su_period = 60, su_state_handler = Some 102\<rparr>
        linux_sys_cb None main_kii,
      action_handler = Some 101, state_handler_for_period = Some 102,
      state_handler_for_command_reaction = Some 102, custom_push_handler = Some 103,
      state_update_period = 60, state = KII_THING_IF_STATE_INITIALIZED\<rparr>"

definition main_ready ::
  "nat kii_thing_if_t \<Rightarrow> (buf_ptr \<Rightarrow> char list option) \<Rightarrow> sample_world app_world \<Rightarrow>
     (nat, sample_world app_world) st" where
  "main_ready t h w = \<lparr>thing = t, err = None, msg = [], heap = h, world = w, trace = []\<rparr>"

lemma main_frame: "kii_api_frame main_base"
  using sample_frame
  by (simp add: kii_api_frame_def main_base_def sample_env_def main_call_start_def main_call_append_def)

lemma main_configures: "init_configures main_base"
  by (simp add: init_configures_def main_base_def sample_env_def)

lemma init_buffers_msg: "init_buffers ch su s = Inr (u, s') \<Longrightarrow> msg s' = msg s"
  by (auto simp: init_buffers_def chain_eq_Inr memset_buffer_eq_Inr)

lemma main_init:
  "\<exists>h n m k. init_linux (linux_env main_sys main_base) (main_start\<lparr>world := w\<rparr>) =
     Inr (True, main_ready (main_thing n m k) h w)"
proof -
  let ?env = "linux_env main_sys main_base" and ?s = "main_start\<lparr>world := w, err := None\<rparr>"
  let ?ch = linux_command_handler_resource and ?su = linux_state_updater_resource
  have kii: "kii_init_with_info ?env (zero_kii ?env (kii_of p ?s)) EX_APP_SITE EX_APP_ID EX_APP_KEY
      THING_IF_INFO = (0, main_kii)" for p
    by (cases p) (simp_all add: linux_env_def main_base_def sample_env_def main_kii_def zero_kii_def
        main_start_def sample_thing_def kii_of_def)
  obtain s1 where s1: "init_buffers ?ch ?su (?s\<lparr>thing := zero_thing ?env (thing ?s)\<rparr>) = Inr ((), s1)"
    by (simp add: init_buffers_def memset_buffer_def memset0_def linux_command_handler_resource_def
        linux_state_updater_resource_def main_start_def)
  obtain s' where s': "prv_init_kii_thing_if ?env (Some EX_APP_ID) (Some EX_APP_KEY) (Some EX_APP_SITE)
      (Some ?ch) (Some ?su) (Some linux_sys_cb) None ?s = Inr (True, s')"
    using init_kii_thing_if_run [OF s1 kii kii] by blast
  obtain s2 where "init_buffers ?ch ?su (?s\<lparr>thing := zero_thing ?env (thing ?s)\<rparr>) = Inr ((), s2)"
    and thing': "s' = s2\<lparr>thing := main_thing EX_COMMAND_HANDLER_BUFF_SIZE EX_MQTT_BUFF_SIZE
      EX_STATE_UPDATER_BUFF_SIZE\<rparr>"
    using init_kii_thing_if_True [OF s'] kii
    by (auto simp: main_thing_def linux_command_handler_resource_def linux_state_updater_resource_def
        EX_STATE_UPDATE_PERIOD_def)
  then have "s' = main_ready (main_thing EX_COMMAND_HANDLER_BUFF_SIZE EX_MQTT_BUFF_SIZE
      EX_STATE_UPDATER_BUFF_SIZE) (heap s') w"
    using init_buffers_result(2,3,4) init_buffers_msg
    by (fastforce simp: main_ready_def main_start_def)
  with s' show ?thesis
    by (metis init_linux_def no_error_eq_Inr init_kii_thing_if_def st.update_convs)
qed

definition main_options :: "string option \<Rightarrow> locals" where
  "main_options v = no_locals\<lparr>lv_vendorThingID := Some ''v1'', lv_password := Some ''pw'',
     lv_firmwareVersion := v\<rparr>"

definition update_demo ::
  "nat kii_thing_if_t \<Rightarrow> (buf_ptr \<Rightarrow> char list option) \<Rightarrow> sample_world app_world \<Rightarrow>
     fault + int option \<times> (nat, sample_world app_world) st" where
  "update_demo t h w =
     (let env = linux_env main_sys main_base; l = main_options (Some ''2.0'')
      in chain (onboard_linux env l) (\<lambda>ok.
         if \<not> ok then exit_with ''fail to onboard.'' 1 else change_info env main_junk l)
         (main_ready t h w))"

definition onboard_demo ::
  "nat kii_thing_if_t \<Rightarrow> (buf_ptr \<Rightarrow> char list option) \<Rightarrow> sample_world app_world \<Rightarrow>
     fault + bool \<times> (nat, sample_world app_world) st" where
  "onboard_demo t h w =
     (let env = linux_env main_sys main_base
      in chain (onboard_linux env (main_options None)) (\<lambda>ok.
         if \<not> ok then ret False else no_error (start env)) (main_ready t h w))"

lemma update_demo_exits: "returns (Some 0) (update_demo (main_thing n m k) h main_world)"
  by code_simp

lemma onboard_demo_starts:
  "returns True (onboard_demo (main_thing n m k) h (main_world\<lparr>terminal := x\<rparr>))"
  by code_simp

lemma main_options_fields [simp]:
  "lv_vendorThingID (main_options v) = Some ''v1''" "lv_thingID (main_options v) = None"
  "lv_password (main_options v) = Some ''pw''" "lv_firmwareVersion (main_options v) = v"
  "lv_thingType (main_options v) = None"
  by (simp_all add: main_options_def no_locals_def)

lemma main_mutex: "on_world (mutex (pthread_mutex_init main_sys)) main_start = Inr (0, main_start)"
  by (simp add: on_world_def mutex_def main_sys_def sample_sys_def main_start_def main_world_def)

lemma main_getopt:
  "getopt_long main_sys argv opts =
     [\<lparr>opt_c = 0, opt_index = 0, opt_arg = Some ''v1''\<rparr>,
      \<lparr>opt_c = 2, opt_index = 2, opt_arg = Some ''pw''\<rparr>] @
     (if argv ! 1 = ''update'' then [\<lparr>opt_c = 3, opt_index = 3, opt_arg = Some ''2.0''\<rparr>] else [])"
  by (simp add: main_sys_def)

lemma main_update_options:
  "update_loop (getopt_long main_sys [''ex'', ''update''] update_options) no_locals =
     Some (main_options (Some ''2.0''))"
  by (simp add: main_getopt main_options_def no_locals_def)

lemma main_updates:
  "\<exists>s'. linux_main main_sys main_base main_junk [''ex'', ''update''] main_start = Inr (Some 0, s')"
proof -
  let ?env = "linux_env main_sys main_base" and ?l = "main_options (Some ''2.0'')"
  have same: "main_start\<lparr>world := main_world\<rparr> = main_start" by (simp add: main_start_def)
  obtain h n m k where init: "init_linux ?env main_start = Inr (True, main_ready (main_thing n m k) h main_world)"
    using main_init [of main_world] unfolding same by blast
  obtain s' where "update_demo (main_thing n m k) h main_world = Inr (Some 0, s')"
    using update_demo_exits by (rule returnsE)
  then have "chain (init_linux ?env) (\<lambda>ok.
        if \<not> ok then exit_with ''fail to initialize.'' 1
        else
          chain (onboard_linux ?env ?l) (\<lambda>ok.
          if \<not> ok then exit_with ''fail to onboard.'' 1 else change_info ?env main_junk ?l))
      main_start = Inr (Some 0, s')"
    by (simp add: init update_demo_def Let_def)
  moreover have "check_and_onboard ?env ?l False go = chain (init_linux ?env) (\<lambda>ok.
        if \<not> ok then exit_with ''fail to initialize.'' 1
        else chain (onboard_linux ?env ?l) (\<lambda>ok. if \<not> ok then exit_with ''fail to onboard.'' 1 else go))" for go
    by (simp add: check_and_onboard_def)
  ultimately have "run_update main_sys ?env main_junk [''ex'', ''update''] main_start = Inr (Some 0, s')"
    by (simp add: run_update_def main_update_options)
  then show ?thesis
    by (simp add: linux_main_def main_mutex subcommand_def)
qed

lemma main_prints:
  "print_line t (main_start\<lparr>world := main_world\<lparr>terminal := x\<rparr>\<rparr>) =
     Inr ((), main_start\<lparr>world := main_world\<lparr>terminal := x @ t @ [CHR 0x0A]\<rparr>\<rparr>)"
  by (simp add: print_line_def on_world_def printf_def)

lemma main_onboard_options:
  "\<exists>x. onboard_loop main_sys (getopt_long main_sys [''ex'', ''onboard''] onboard_options) no_locals main_start =
     Inr (Some (main_options None), main_start\<lparr>world := main_world\<lparr>terminal := x\<rparr>\<rparr>)"
proof -
  have "main_start = main_start\<lparr>world := main_world\<lparr>terminal := []\<rparr>\<rparr>"
    by (simp add: main_start_def main_world_def)
  then obtain x where x: "main_start = main_start\<lparr>world := main_world\<lparr>terminal := x\<rparr>\<rparr>" by blast
  show ?thesis
    by (subst x, simp add: main_getopt opt_name_def onboard_options_def print_option_def main_prints
        main_options_def no_locals_def) (rule exI, rule refl)
qed

lemma main_onboards:
  "\<exists>s'. linux_main main_sys main_base main_junk [''ex'', ''onboard''] main_start = Inr (None, s')"
proof -
  let ?env = "linux_env main_sys main_base" and ?l = "main_options None"
  obtain x where opts: "onboard_loop main_sys (getopt_long main_sys [''ex'', ''onboard''] onboard_options)
      no_locals main_start = Inr (Some ?l, main_start\<lparr>world := main_world\<lparr>terminal := x\<rparr>\<rparr>)"
    using main_onboard_options by blast
  obtain y where started: "print_line ''program successfully started!''
      (main_start\<lparr>world := main_world\<lparr>terminal := x\<rparr>\<rparr>) =
      Inr ((), main_start\<lparr>world := main_world\<lparr>terminal := y\<rparr>\<rparr>)"
    using main_prints by blast
  obtain h n m k where init: "init_linux ?env (main_start\<lparr>world := main_world\<lparr>terminal := y\<rparr>\<rparr>) =
      Inr (True, main_ready (main_thing n m k) h (main_world\<lparr>terminal := y\<rparr>))"
    using main_init by blast
  obtain s' where "onboard_demo (main_thing n m k) h (main_world\<lparr>terminal := y\<rparr>) = Inr (True, s')"
    using onboard_demo_starts by (rule returnsE)
  then obtain s1 where onboard: "onboard_linux ?env ?l
        (main_ready (main_thing n m k) h (main_world\<lparr>terminal := y\<rparr>)) = Inr (True, s1)"
      and start: "no_error (start ?env) s1 = Inr (True, s')"
    by (auto simp: onboard_demo_def Let_def chain_eq_Inr split: if_splits)
  have "run_onboard main_sys ?env [''ex'', ''onboard''] main_start = Inr (None, s1)"
    by (simp add: run_onboard_def opts started init onboard)
  with start show ?thesis
    by (simp add: linux_main_def main_mutex subcommand_def)
qed

section \<open>Properties\<close>

text \<open>
  C10. The update subcommand, end to end. When the program of the sample exits with 0 from update
  and its options were no request for help, then the requests it ran are those of the
  registration that the options name, under the application of example.h, and after them exactly
  the PUT of the new firmware version and the PUT of the new thing type that were asked for, to
  the paths of the thing that was registered. One exception: where the registration by a thing ID
  could not be started, the SDK goes on, so that the token request stands alone before the PUTs.
\<close>

theorem linux_update_requests:
  fixes s :: "('p, 'x app_world) st"
  assumes "kii_api_frame base" and "init_configures base"
    and "linux_main sys base u argv s = Inr (Some 0, s')" and "argv ! 1 = ''update''"
    and "update_loop (getopt_long sys argv update_options) no_locals = Some l"
  shows "\<exists>new1 new2. trace s' = trace s @ new1 @ new2 \<and> registered EX_APP_ID EX_APP_KEY l new1 \<and>
    \<not> (lv_vendorThingID l \<noteq> None \<and> lv_thingID l \<noteq> None) \<and>
    \<not> (lv_firmwareVersion l = None \<and> lv_thingType l = None) \<and>
    requests CommandHandler (new1 @ new2) = requests CommandHandler new1 @
      changes EX_APP_ID (c_str (author_id (author (kii_of CommandHandler s')))) l"
proof -
  have update: "subcommand sys (linux_env sys base) u argv = run_update sys (linux_env sys base) u argv"
    using assms(4) by (simp add: subcommand_def)
  have "yields (linux_main sys base u argv) s (\<lambda>x s'. x = Some 0 \<longrightarrow> updated s l s')"
  proof (rule linux_main_yields)
    fix t
    assume "printed_only s t"
    from update_yields [OF linux_frame [OF assms(1)] linux_configures [OF assms(2)] assms(5) this]
    show "yields (subcommand sys (linux_env sys base) u argv) t (\<lambda>x t'. case x of
        None \<Rightarrow> yields (start (linux_env sys base)) (t'\<lparr>err := None\<rparr>)
          (\<lambda>_ s'. None = Some 0 \<longrightarrow> updated s l s')
      | Some n \<Rightarrow> Some n = Some 0 \<longrightarrow> updated s l t')"
      unfolding update by (rule yields_weaken) (auto split: option.split)
  qed simp
  with assms(3) show ?thesis by (simp add: yields_def updated_def)
qed

theorem linux_update_requests_witness:
  "\<exists>s' new1 new2. linux_main main_sys main_base main_junk [''ex'', ''update''] main_start = Inr (Some 0, s') \<and>
     trace s' = new1 @ new2 \<and> length (requests CommandHandler new1) = 2 \<and>
     length (requests CommandHandler (new1 @ new2)) = 3"
proof -
  obtain s' where s': "linux_main main_sys main_base main_junk [''ex'', ''update''] main_start = Inr (Some 0, s')"
    using main_updates by blast
  have "[''ex'', ''update''] ! 1 = ''update''" and "trace main_start = []"
    by (simp_all add: main_start_def)
  with linux_update_requests [OF main_frame main_configures s' _ main_update_options] s'
  show ?thesis by (fastforce simp: registered_def changes_def)
qed

text \<open>How onboard reaches the call of \<open>start\<close>.\<close>

definition onboarded_from :: "locals \<Rightarrow> ('p, 'w) st \<Rightarrow> ('p, 'w) st \<Rightarrow> bool" where
  "onboarded_from l s s' \<longleftrightarrow>
     (\<exists>new. trace s' = trace s @ new \<and> registered EX_APP_ID EX_APP_KEY l new) \<and>
     state (thing s') = KII_THING_IF_STATE_ONBOARDED"

lemma onboard_yields:
  assumes frame: "kii_api_frame env" and init: "init_configures env" and t: "printed_only s t"
  shows "yields (run_onboard sys env argv) t (\<lambda>x t'. x = Some 1 \<or> x = None \<and>
    (onboarded_from (onboard_variables (getopt_long sys argv onboard_options) no_locals) s t' \<or>
     (\<exists>g \<in> set (getopt_long sys argv onboard_options). opt_index g = 3) \<and> printed_only s t'))"
    (is "yields _ _ ?Q")
proof -
  let ?asked = "\<exists>g \<in> set (getopt_long sys argv onboard_options). opt_index g = 3"
  let ?l = "onboard_variables (getopt_long sys argv onboard_options) no_locals"
  have onboard: "yields (chain (onboard_linux env ?l) (\<lambda>ok.
      if \<not> ok then exit_with ''failed to onboard.'' 1 else ret None)) t3 ?Q"
    if "trace t3 = trace s" "app_id (kii_of CommandHandler t3) = EX_APP_ID"
      "app_key (kii_of CommandHandler t3) = EX_APP_KEY" for t3
  proof (rule yields_through)
    show "yields (onboard_linux env ?l) t3 (\<lambda>ok t'. ok \<longrightarrow> onboarded_from ?l s t')"
      using onboard_linux_ok [OF frame, of ?l t3] that by (auto simp: yields_def onboarded_from_def)
    show "yields (if \<not> ok then exit_with ''failed to onboard.'' 1 else ret None) t' ?Q"
      if "ok \<longrightarrow> onboarded_from ?l s t'" for ok t'
      by (intro yields_cases(1) yields_printing yields_simple) (use that in auto)
  qed
  have begin_run: "yields (chain (init_linux env) (\<lambda>ok.
      if \<not> ok then exit_with ''failed to onboard.'' 1
      else
        chain (onboard_linux env ?l) (\<lambda>ok.
        if \<not> ok then exit_with ''failed to onboard.'' 1 else ret None))) t2 ?Q"
    if "printed_only s t2" for t2
  proof (rule yields_through)
    show "yields (init_linux env) t2 (\<lambda>ok t3. ok \<longrightarrow> trace t3 = trace s \<and>
        app_id (kii_of CommandHandler t3) = EX_APP_ID \<and> app_key (kii_of CommandHandler t3) = EX_APP_KEY)"
      using init_linux_ok [OF init] that by (auto simp: yields_def printed_only_parts)
    show "yields (if \<not> ok then exit_with ''failed to onboard.'' 1
      else
        chain (onboard_linux env ?l) (\<lambda>ok.
        if \<not> ok then exit_with ''failed to onboard.'' 1 else ret None)) t3 ?Q"
      if "ok \<longrightarrow> trace t3 = trace s \<and> app_id (kii_of CommandHandler t3) = EX_APP_ID \<and>
        app_key (kii_of CommandHandler t3) = EX_APP_KEY" for ok t3
      by (rule yields_cases(1), intro yields_printing, simp, rule onboard) (use that in auto)
  qed
  show ?thesis
    unfolding run_onboard_def
  proof (rule yields_through [OF onboard_loop_prints])
    fix x :: "locals option" and t1
    assume x: "printed_only t t1 \<and> (case x of
        None \<Rightarrow> \<exists>g \<in> set (getopt_long sys argv onboard_options). opt_index g = 3
      | Some l \<Rightarrow> l = ?l)"
    then have t1: "printed_only s t1" using t by (blast intro: printed_only_trans)
    show "yields (case x of None \<Rightarrow> ret None
     | Some l \<Rightarrow>
         if lv_vendorThingID l = None \<and> lv_thingID l = None then
           exit_with ''neither vendor-thing-id and thing-id are specified.'' 1
         else if lv_password l = None then exit_with ''password is not specifeid.'' 1
         else if lv_vendorThingID l \<noteq> None \<and> lv_thingID l \<noteq> None then
           exit_with ''both vendor-thing-id and thing-id is specified.  either of one should be specified.'' 1
         else
           chain (print_line ''program successfully started!'') (\<lambda>_.
           chain (init_linux env) (\<lambda>ok.
           if \<not> ok then exit_with ''failed to onboard.'' 1
           else
             chain (onboard_linux env l) (\<lambda>ok.
             if \<not> ok then exit_with ''failed to onboard.'' 1 else ret None)))) t1 ?Q"
    proof (cases x)
      case None
      with x t1 show ?thesis by (simp add: yields_def)
    next
      case (Some l)
      then have l: "x = Some ?l" using x by simp
      show ?thesis
        unfolding l option.case
        by (intro yields_cases(1) yields_printing
            yields_chain [where m = "print_line ''program successfully started!''"] begin_run)
          (use t1 in \<open>auto intro: printed_only_trans\<close>)
    qed
  qed
qed

lemma start_onboarded:
  assumes "start env s = Inr (ok, s')" and "state (thing s) = KII_THING_IF_STATE_ONBOARDED"
  shows "\<exists>rest_events. trace s' = trace s @ rest_events \<and>
    ((\<exists>r. r \<noteq> 0 \<and> rest_events = [PushStart CommandHandler r]) \<or>
     (\<exists>created. rest_events = [PushStart CommandHandler 0,
        TaskCreate KII_THING_IF_TASK_NAME_STATUS_UPDATE StateUpdater created]))"
  using assms
  by (auto simp: start_def chain_eq_Inr push_start_def call_kii_eq_Inr run_iffs task_create_eq_Inr
      split: if_splits)

text \<open>
  C27. The onboard subcommand. The program of the sample reaches its endless loop from onboard in
  two ways. After the registration that its options name (by a thing ID the program goes on even
  where that request could not be started, with the token request as the only one run), the thing
  is onboarded and the push routine was asked to start; the loop is entered whether it did or not,
  and with or without a status task. With the option "help", nothing was initialised: \<open>start\<close> was
  called on whatever the memory of the structure held, and unless that looked like an onboarded
  thing no call was made at all.
\<close>

theorem linux_onboard_forever:
  fixes s :: "('p, 'x app_world) st"
  assumes "kii_api_frame base" and "init_configures base"
    and "linux_main sys base u argv s = Inr (None, s')" and "argv ! 1 = ''onboard''"
  shows "(\<exists>new rest_events. trace s' = trace s @ new @ rest_events \<and>
      registered EX_APP_ID EX_APP_KEY
        (onboard_variables (getopt_long sys argv onboard_options) no_locals) new \<and>
      state (thing s') = KII_THING_IF_STATE_ONBOARDED \<and>
      ((\<exists>r. r \<noteq> 0 \<and> rest_events = [PushStart CommandHandler r]) \<or>
       (\<exists>created. rest_events = [PushStart CommandHandler 0,
          TaskCreate KII_THING_IF_TASK_NAME_STATUS_UPDATE StateUpdater created]))) \<or>
    (\<exists>g \<in> set (getopt_long sys argv onboard_options). opt_index g = 3) \<and>
      state (thing s') = state (thing s) \<and>
      (state (thing s) \<noteq> KII_THING_IF_STATE_ONBOARDED \<longrightarrow> thing s' = thing s \<and> trace s' = trace s)"
    (is "?result s'")
proof -
  let ?env = "linux_env sys base"
  let ?l = "onboard_variables (getopt_long sys argv onboard_options) no_locals"
  define Q where "Q x s' \<longleftrightarrow> (x = None \<longrightarrow> ?result s')"
    for x :: "int option" and s' :: "('p, 'x app_world) st"
  have Q1: "Q None t'" if "onboarded_from ?l s t" "start ?env (t\<lparr>err := None\<rparr>) = Inr (ok, t')" for t t' ok
  proof -
    have "state (thing (t\<lparr>err := None\<rparr>)) = KII_THING_IF_STATE_ONBOARDED"
      using that(1) by (simp add: onboarded_from_def)
    from start_onboarded [OF that(2) this] start_eq_Inr(1) [OF that(2)] that(1)
    show ?thesis unfolding Q_def onboarded_from_def by fastforce
  qed
  have Q2: "Q None t'" if "printed_only s t" "start ?env (t\<lparr>err := None\<rparr>) = Inr (ok, t')"
    "\<exists>g \<in> set (getopt_long sys argv onboard_options). opt_index g = 3" for t t' ok
    using that start_eq_Inr(1,4) [OF that(2)] unfolding Q_def
    by (auto simp: printed_only_parts)
  have same: "subcommand sys ?env u argv = run_onboard sys ?env argv"
    using assms(4) by (simp add: subcommand_def)
  have "yields (linux_main sys base u argv) s Q"
  proof (rule linux_main_yields)
    fix t
    assume "printed_only s t"
    from onboard_yields [OF linux_frame [OF assms(1)] linux_configures [OF assms(2)] this]
    show "yields (subcommand sys ?env u argv) t (\<lambda>x t'. case x of
        None \<Rightarrow> yields (start ?env) (t'\<lparr>err := None\<rparr>) (\<lambda>_. Q None) | Some n \<Rightarrow> Q (Some n) t')"
      unfolding same
      by (rule yields_weaken) (auto split: option.split intro!: yieldsI intro: Q1 Q2 simp: Q_def)
  qed (simp add: Q_def)
  with assms(3) show ?thesis by (simp add: yields_def Q_def)
qed

theorem linux_onboard_forever_witness:
  "\<exists>s'. linux_main main_sys main_base main_junk [''ex'', ''onboard''] main_start = Inr (None, s') \<and>
     state (thing s') = KII_THING_IF_STATE_ONBOARDED"
proof -
  obtain s' where s': "linux_main main_sys main_base main_junk [''ex'', ''onboard''] main_start = Inr (None, s')"
    using main_onboards by blast
  have "[''ex'', ''onboard''] ! 1 = ''onboard''" by simp
  with linux_onboard_forever [OF main_frame main_configures s'] s'
  show ?thesis by (auto simp: main_getopt)
qed

end
