(* ===== verification/Linux_Commands.thy ===== *)
theory Linux_Commands
  imports Linux_Handlers Command_Properties
begin

text \<open>
  The SDK and the Linux sample together: what a pushed command makes of the air conditioner, and
  what the state update that follows it uploads.
\<close>

section \<open>What a command performs\<close>

text \<open>The effect of one call of the action handler, unknown aliases included, and of several.\<close>

definition perform_action ::
  "'x app_sys \<Rightarrow> string \<times> string \<times> string \<Rightarrow> prv_air_conditioner_t \<Rightarrow> prv_air_conditioner_t" where
  "perform_action sys call ac =
     (case call of (al, name, val) \<Rightarrow>
        if al = ''AirConditionerAlias'' \<or> al = ''HumidityAlias'' then apply_action sys name val ac else ac)"

definition perform ::
  "'x app_sys \<Rightarrow> (string \<times> string \<times> string) list \<Rightarrow> prv_air_conditioner_t \<Rightarrow> prv_air_conditioner_t" where
  "perform sys calls ac = fold (perform_action sys) calls ac"

lemma perform_bounded:
  "\<bar>temperature ac\<bar> \<le> 2 ^ 31 \<Longrightarrow> \<bar>temperature (perform sys calls ac)\<bar> \<le> 2 ^ 31"
  unfolding perform_def
  by (induction calls arbitrary: ac) (auto simp: perform_action_def apply_action_def split: prod.split)

lemma action_effect:
  assumes "mutex_works sys"
  obtains r w' where "action_handler_linux sys al name val w = Inr (r, w')"
    and "m_air_conditioner w' = perform_action sys (al, name, val) (m_air_conditioner w)"
    and "state_file w' = state_file w"
proof (cases "al = ''AirConditionerAlias'' \<or> al = ''HumidityAlias''")
  case True
  from action_works [OF assms this, of name val w] True that show thesis
    by (auto simp: perform_action_def)
next
  case False
  with that show thesis
    by (simp add: action_handler_linux_def printf_def perform_action_def)
qed

text \<open>
  The air conditioner is what the calls of the handler since \<open>x\<close> have made of \<open>ac\<close>, and the state
  file is still \<open>c\<close>.
\<close>

definition tracks ::
  "'x app_sys \<Rightarrow> event list \<Rightarrow> prv_air_conditioner_t \<Rightarrow> string option \<Rightarrow> ('p, 'x app_world) st \<Rightarrow> bool" where
  "tracks sys x ac c s \<longleftrightarrow>
     (\<exists>es. trace s = x @ es \<and> m_air_conditioner (world s) = perform sys (handler_calls_of es) ac) \<and>
     state_file (world s) = c"

lemma tracks_now: "tracks sys (trace s) (m_air_conditioner (world s)) (state_file (world s)) s"
  by (simp add: tracks_def perform_def)

lemma tracks_call:
  assumes "tracks sys x ac c s" and "same_ac (world s) (world t)" and "trace t = trace s @ [e]"
    and "handler_calls_of [e] = []"
  shows "tracks sys x ac c t"
proof -
  obtain es where es: "trace s = x @ es" "m_air_conditioner (world s) = perform sys (handler_calls_of es) ac"
    using assms(1) by (auto simp: tracks_def)
  then show ?thesis
    using assms by (auto simp: tracks_def same_ac_def intro!: exI [where x = "es @ [e]"])
qed

lemma linux_calls:
  "api_start (linux_env sys base) p meth path ctype auth s = Inr (r, t) \<Longrightarrow> same_ac (world s) (world t)"
  "api_append (linux_env sys base) p b s = Inr (r, t) \<Longrightarrow> same_ac (world s) (world t)"
  "api_run (linux_env sys base) p s = Inr (r, t) \<Longrightarrow> same_ac (world s) (world t)"
  by (auto simp: api_defs call_kii_eq_Inr linux_env_def on_rest_def same_ac_def split: prod.splits)

lemma tracks_api:
  assumes "tracks sys x ac c s"
  shows "api_start (linux_env sys base) p meth path ctype auth s = Inr (r, t) \<Longrightarrow> tracks sys x ac c t"
    and "api_append (linux_env sys base) p b s = Inr (r, t) \<Longrightarrow> tracks sys x ac c t"
    and "api_run (linux_env sys base) p s = Inr (r, t) \<Longrightarrow> tracks sys x ac c t"
proof -
  assume run: "api_start (linux_env sys base) p meth path ctype auth s = Inr (r, t)"
  show "tracks sys x ac c t"
    by (rule tracks_call [OF assms linux_calls(1) [OF run] call_kii_trace [OF run [unfolded api_start_def]]]) simp
next
  assume run: "api_append (linux_env sys base) p b s = Inr (r, t)"
  show "tracks sys x ac c t"
    by (rule tracks_call [OF assms linux_calls(2) [OF run] call_kii_trace [OF run [unfolded api_append_def]]]) simp
next
  assume run: "api_run (linux_env sys base) p s = Inr (r, t)"
  show "tracks sys x ac c t"
    by (rule tracks_call [OF assms linux_calls(3) [OF run] call_kii_trace [OF run [unfolded api_run_def]]]) simp
qed

interpretation linux_tracks: api_invariant "linux_env sys base" p "tracks sys x ac c"
  for sys :: "'x app_sys" and base :: "('p, 'x) env" and p x ac c
  by unfold_locales (auto intro!: preservesI intro: tracks_api simp: tracks_def update_err_def)

lemma tracks_actions:
  assumes "mutex_works sys"
  shows "keeps_actions (linux_env sys base) (tracks sys x ac c)"
  unfolding keeps_actions_def
proof (intro conjI allI preservesI)
  fix i b s u s'
  assume "tracks sys x ac c s" "set_char i b s = Inr (u, s')"
  then show "tracks sys x ac c s'" by (auto simp: tracks_def set_char_def split: if_splits)
next
  fix h al nm v s r s'
  assume s: "tracks sys x ac c s" and call: "call_action (linux_env sys base) h al nm v s = Inr (r, s')"
  obtain q w' where run: "action_handler_linux sys al nm v (world s) = Inr (q, w')"
    and w': "m_air_conditioner w' = perform_action sys (al, nm, v) (m_air_conditioner (world s))"
      "state_file w' = state_file (world s)"
    by (rule action_effect [OF assms])
  obtain ok e where r: "r = (ok, e)" by (cases r)
  have "world s' = w'"
    using call run by (cases h) (auto simp: call_action_def r split: prod.splits option.splits if_splits)
  moreover have "trace s' = trace s @ [ActionCall al nm v ok e]"
    using call_action_eq_Inr call unfolding r by blast
  moreover obtain es where "trace s = x @ es"
    "m_air_conditioner (world s) = perform sys (handler_calls_of es) ac" "state_file (world s) = c"
    using s by (auto simp: tracks_def)
  ultimately show "tracks sys x ac c s'"
    using w' unfolding tracks_def perform_def
    by (auto intro!: exI [where x = "es @ [ActionCall al nm v ok e]"])
qed

lemma same_ac_reads:
  "prv_get_air_conditioner_info sys z w = Inr (r, w') \<Longrightarrow> same_ac w w'"
  "printf t w = Inr (u, w') \<Longrightarrow> same_ac w w'"
  "gets f w = Inr (v, w') \<Longrightarrow> same_ac w w'"
  by (auto simp: prv_get_air_conditioner_info_def mutex_def printf_def same_ac_def chain_eq_Inr
      split: prod.splits if_splits)

text \<open>The sample's state handler keeps what does not mind the sample's locks and prints.\<close>

lemma on_world_keeps:
  assumes "\<And>s w. I s \<Longrightarrow> same_ac (world s) w \<Longrightarrow> I (s\<lparr>world := w\<rparr>)"
    and "\<And>w a w'. m w = Inr (a, w') \<Longrightarrow> same_ac w w'"
  shows "preserves I (on_world m)"
  by (rule preservesI) (auto simp: on_world_def split: sum.splits prod.splits intro: assms)

lemma state_handler_keeps:
  assumes "\<And>b. preserves I (prv_writer (linux_env sys base) p b)"
    and "\<And>s w. I s \<Longrightarrow> same_ac (world s) w \<Longrightarrow> I (s\<lparr>world := w\<rparr>)"
  shows "preserves I (call_state_handler (linux_env sys base) h p (prv_writer (linux_env sys base)))"
  unfolding linux_env_handlers(2) state_handler_linux_def
  by (intro preserves_intros preserves_write_all assms(1) on_world_keeps [where I = I, OF assms(2)];
    (assumption | elim same_ac_reads))

lemma tracks_state_handler:
  "preserves (tracks sys x ac c) (call_state_handler (linux_env sys base) h p (prv_writer (linux_env sys base)))"
  by (rule state_handler_keeps [OF linux_tracks.prv_writer_inv]) (auto simp: tracks_def same_ac_def)

lemma command_tracks:
  assumes "mutex_works sys" and "handle_command (linux_env sys base) fuel p n s = Inr (u, s')"
  shows "tracks sys (trace s) (m_air_conditioner (world s)) (state_file (world s)) s'"
  using preservesD [OF linux_tracks.handle_command_keeps [OF tracks_actions [OF assms(1)] tracks_state_handler] assms(2)
    tracks_now] .

section \<open>The state update that follows\<close>

text \<open>
  A state update runs no request or one, the PUT of exactly the pieces that the sample's state
  handler writes.
\<close>

lemma send_state_body:
  assumes "mutex_works sys" and "prv_send_state (linux_env sys base) p s = Inr (ok, s')"
  obtains new rqs where "trace s' = trace s @ new" and "\<And>d. snd (replay p new (None, d)) = d @ rqs"
    and "rqs = [] \<or> (\<exists>path. rqs = [state_request path (concat (uploaded_pieces sys (world s)))])"
  using assms(2)
proof (cases rule: prv_send_state_steps)
  case none
  then show thesis by (intro that [of "[]" "[]"]) simp_all
next
  case (start q r)
  then show thesis
    using call_kii_trace [OF start(2) [unfolded api_start_def]]
    by (intro that [of "[ApiStart p ''PUT'' q (Some CONTENT_UPDATE_STATE) True r]" "[]"]) simp_all
next
  case (more q s1 h b s2)
  let ?start = "ApiStart p ''PUT'' q (Some CONTENT_UPDATE_STATE) True 0"
  have tr1: "trace s1 = trace s @ [?start]"
    using call_kii_trace [OF more(1) [unfolded api_start_def]] .
  show thesis
  proof (cases b)
    case False
    obtain as where "trace s2 = trace s1 @ as" "appends_only p as"
      using handler_calls [OF linux_writes_only more(2)] by blast
    with False more(3) tr1 show thesis
      by (intro that [of "?start # as" "[]"]) (simp_all add: replay_appends_only)
  next
    case True
    let ?cs = "uploaded_pieces sys (world s)"
    have "trace s2 = trace s1 @ map (\<lambda>c. ApiAppend p c 0) ?cs"
      using yieldsD [OF state_handler_writes [OF assms(1)] more(2) [unfolded linux_env_handlers]] True
        same_ac_pieces [OF linux_calls(1) [OF more(1)]] by simp
    moreover obtain r where r: "api_run (linux_env sys base) p s2 = Inr (r, s')" using more(3) True by auto
    ultimately show thesis
      using call_kii_trace [OF r [unfolded api_run_def]] tr1
      by (intro that [of "?start # map (\<lambda>c. ApiAppend p c 0) ?cs @ [ApiRun p r]"
          "[state_request q (concat ?cs)]"]) (simp_all add: state_request_def)
  qed
qed

lemma same_ac_trans: "same_ac u v \<Longrightarrow> same_ac v w \<Longrightarrow> same_ac u w"
  by (simp add: same_ac_def)

interpretation linux_same: api_invariant "linux_env sys base" p "\<lambda>t. same_ac w (world t)"
  for sys :: "'x app_sys" and base :: "('p, 'x) env" and p w
  by unfold_locales
    (auto intro!: preservesI elim: same_ac_trans dest: linux_calls simp: update_err_def same_ac_trans)

lemma send_state_same_ac:
  assumes "prv_send_state (linux_env sys base) p s = Inr (ok, s')"
  shows "same_ac (world s) (world s')"
proof -
  have "preserves (\<lambda>t. same_ac (world s) (world t)) (prv_send_state (linux_env sys base) p)"
    by (intro linux_same.prv_send_state_keeps state_handler_keeps linux_same.prv_writer_inv)
      (auto intro: same_ac_trans)
  from preservesD [OF this assms] show ?thesis by (simp add: same_ac_def)
qed

lemma no_run_requests:
  "list_all (\<lambda>e. case e of ApiRun _ _ \<Rightarrow> False | _ \<Rightarrow> True) es \<Longrightarrow> snd (replay p es (cur, d)) = d"
proof (induction es arbitrary: cur)
  case (Cons e es)
  have "snd (step_request p e (cur, d)) = d"
    using Cons.prems by (cases e) auto
  then obtain cur' where "step_request p e (cur, d) = (cur', d)" by (metis prod.collapse)
  with Cons show ?case by simp
qed simp

text \<open>The events of sent results, split at the run of their request.\<close>

lemma results_events_split:
  assumes "length os = length xs"
  obtains before where "results_events p path xs os r = before @ [ApiRun p r]"
    and "\<And>q r'. ApiRun q r' \<notin> set before" and "handler_calls_of before = map snd xs"
proof -
  let ?before = "[ApiStart p ''PUT'' path (Some ''application/json'') True 0, ApiAppend p results_header 0] @
    steps_events p xs os @ [ApiAppend p '']}'' 0]"
  have "ApiRun q r' \<notin> set (steps_events p xs os)" for q r'
    using steps_events_no_run [of p xs os] by (auto simp: list_all_iff)
  with assms show thesis
    by (intro that [of ?before]) (auto simp: results_events_def handler_calls_steps)
qed

text \<open>The text that the sample reports of its state: that of the state file, if there is one.\<close>

definition reported :: "'x app_sys \<Rightarrow> 'x app_world \<Rightarrow> string" where
  "reported sys w = (case state_file w of
     Some t \<Rightarrow> t
   | None \<Rightarrow> air_conditioner_json (power (m_air_conditioner w) = KII_JSON_TRUE sys)
       (temperature (m_air_conditioner w)))"

lemma concat_uploaded_pieces:
  assumes "\<bar>temperature (m_air_conditioner w)\<bar> \<le> 2 ^ 31" and "\<And>t. state_file w = Some t \<Longrightarrow> NUL \<notin> set t"
  shows "concat (uploaded_pieces sys w) = reported sys w"
  using assms concat_report_pieces [of "m_air_conditioner w" sys]
  by (auto simp: uploaded_pieces_def reported_def concat_c_str_pieces split: option.split)

section \<open>Properties\<close>

text \<open>
  C8. A pushed command, end to end, on the Linux sample, with a mutex that works, a temperature
  that is an \<open>int\<close> and a state file, if there is one, without NUL characters. When
  \<open>handle_command\<close> runs on a described command, the air conditioner is afterwards what the actions
  performed so far make of it, in the order of the message, and the state file is what it was. A
  request is run only after the calls for all actions of the message, and no call follows it: the
  first one reports one outcome for every action, and a state update that may follow uploads the
  text of the state file or, without one, the JSON text of exactly that air conditioner.
\<close>

theorem linux_command_effect:
  assumes "mutex_works sys" and "\<bar>temperature (m_air_conditioner (world s))\<bar> \<le> 2 ^ 31"
    and "\<And>t. state_file (world s) = Some t \<Longrightarrow> NUL \<notin> set t"
    and "command_from (linux_env sys base) (take n (msg s)) cid T als"
    and "handle_command (linux_env sys base) fuel p n s = Inr ((), s')"
  shows "\<exists>es k. trace s' = trace s @ es \<and> state_file (world s') = state_file (world s) \<and>
    m_air_conditioner (world s') =
      perform sys (take k (map snd (command_steps 0 T als))) (m_air_conditioner (world s)) \<and>
    (requests p es = [] \<and> (\<forall>q r. ApiRun q r \<notin> set es) \<or>
     k = length (command_steps 0 T als) \<and> (\<exists>before r after rpath os more.
       es = before @ ApiRun p r # after \<and> (\<forall>q r. ApiRun q r \<notin> set before) \<and>
       handler_calls_of before = map snd (command_steps 0 T als) \<and> handler_calls_of after = [] \<and>
       length os = length (command_steps 0 T als) \<and>
       requests p es = results_request rpath (steps_text (command_steps 0 T als) os) # more \<and>
       (more = [] \<or> (\<exists>path. more = [state_request path (reported sys (world s'))]))))"
proof -
  let ?xs = "map snd (command_steps 0 T als)" and ?ac = "m_air_conditioner (world s)"
    and ?ac' = "m_air_conditioner (world s')"
  have track: "tracks sys (trace s) ?ac (state_file (world s)) s'"
    by (rule command_tracks [OF assms(1,5)])
  then have sf: "state_file (world s') = state_file (world s)" by (simp add: tracks_def)
  have ac: "?ac' = perform sys (handler_calls_of es) ?ac" if "trace s' = trace s @ es" for es
    using track that by (auto simp: tracks_def)
  show ?thesis
    using linux_writes_only assms(4,5)
  proof (cases rule: handle_command_outcome)
    case (stopped es k)
    have "requests p es = []"
      unfolding requests_def by (rule no_run_requests [OF stopped(3)])
    moreover have "ApiRun q r \<notin> set es" for q r
      using stopped(3) by (auto simp: list_all_iff)
    ultimately show ?thesis using stopped(1,2) ac [OF stopped(1)] sf by auto
  next
    case (sent os r rest path')
    let ?path = "results_path (app_id (kii_of p s)) (c_str (author_id (author (kii_of p s)))) cid"
    let ?res = "results_events p ?path (command_steps 0 T als) os r"
    obtain before where before: "?res = before @ [ApiRun p r]" "\<And>q r'. ApiRun q r' \<notin> set before"
      "handler_calls_of before = ?xs"
      by (rule results_events_split [OF sent(1), of p ?path r]) blast
    have after: "handler_calls_of rest = []"
      using sent(4) attempt_requests(2) by auto
    have k: "?ac' = perform sys (take (length ?xs) ?xs) ?ac"
      using ac [OF sent(3)] sent(1) after by (simp add: handler_calls_results)
    obtain rqs where rqs: "requests p (?res @ rest) = results_request ?path (steps_text (command_steps 0 T als) os) # rqs"
      "rqs = [] \<or> (\<exists>path. rqs = [state_request path (concat (uploaded_pieces sys (world s')))])"
    proof (cases "rest = []")
      case True
      then show thesis using that [of "[]"] by (simp add: requests_def requests_results)
    next
      case False
      then obtain t ok where t: "trace s' = trace t @ rest" "prv_send_state (linux_env sys base) p t = Inr (ok, s')"
        using sent(6) by auto
      obtain new rqs where new: "trace s' = trace t @ new" "\<And>d. snd (replay p new (None, d)) = d @ rqs"
        "rqs = [] \<or> (\<exists>path. rqs = [state_request path (concat (uploaded_pieces sys (world t)))])"
        by (rule send_state_body [OF assms(1) t(2)]) blast
      have "rest = new" using t(1) new(1) by simp
      with that [of rqs] new(2,3) same_ac_pieces [OF send_state_same_ac [OF t(2)]] show thesis
        by (simp add: requests_def requests_results)
    qed
    have "concat (uploaded_pieces sys (world s')) = reported sys (world s')"
      by (rule concat_uploaded_pieces) (use sf assms(3) perform_bounded [OF assms(2)] in \<open>simp_all add: k\<close>)
    with rqs(2) have more: "rqs = [] \<or> (\<exists>path. rqs = [state_request path (reported sys (world s'))])" by simp
    have split: "?res @ rest = before @ ApiRun p r # rest" by (simp add: before(1))
    have parts: "\<exists>before r after rpath os more. ?res @ rest = before @ ApiRun p r # after \<and>
        (\<forall>q r. ApiRun q r \<notin> set before) \<and> handler_calls_of before = ?xs \<and> handler_calls_of after = [] \<and>
        length os = length (command_steps 0 T als) \<and>
        requests p (?res @ rest) = results_request rpath (steps_text (command_steps 0 T als) os) # more \<and>
        (more = [] \<or> (\<exists>path. more = [state_request path (reported sys (world s'))]))"
      using split before(2,3) after sent(1) rqs(1) more by blast
    show ?thesis
      by (rule exI [where x = "?res @ rest"], rule exI [where x = "length ?xs"])
        (use sent(3) k sf parts in simp)
  qed
qed

definition linux_array :: string where
  "linux_array = ''[{'' @ dquote @ ''AirConditionerAlias'' @ dquote @ '':[{'' @ dquote @ ''turnPower'' @ dquote @
     '':true}]}]''"

definition linux_message :: string where
  "linux_message = ''{'' @ member_text ''commandID'' ''X'' @ '','' @ dquote @ ''actions'' @ dquote @
     '':'' @ linux_array @ ''}''"

definition linux_items :: "alias_items list" where
  "linux_items = [((3, 19, 24, 20), [(3, 9, 14, 4)])]"

definition linux_message_st :: "(nat, sample_world app_world) st" where
  "linux_message_st =
     linux_demo\<lparr>msg := linux_message @ [NUL],
       world := \<lparr>m_air_conditioner = \<lparr>power = 0, temperature = 23\<rparr>, state_file = None, terminal = [],
         rest = [(201, []), (201, [])]\<rparr>\<rparr>"

definition linux_command_run :: "fault + unit \<times> (nat, sample_world app_world) st" where
  "linux_command_run = handle_command (linux_env sample_sys sample_env) 10 CommandHandler
     (length linux_message) linux_message_st"

lemma linux_message_command:
  "command_from (linux_env sample_sys sample_env) (take (length linux_message) (msg linux_message_st)) ''X''
     linux_array linux_items"
  "map snd (command_steps 0 linux_array linux_items) = [(''AirConditionerAlias'', ''turnPower'', ''true'')]"
  by code_simp+

lemma linux_command_runs:
  "case linux_command_run of Inl _ \<Rightarrow> False | Inr (_, s') \<Rightarrow> length (requests CommandHandler (trace s')) = 2"
  by code_simp

theorem linux_command_effect_witness:
  "\<exists>s' results path. linux_command_run = Inr ((), s') \<and> m_air_conditioner (world s') = \<lparr>power = 1, temperature = 23\<rparr> \<and>
     requests CommandHandler (trace s') = [results, state_request path (air_conditioner_json True 23)]"
proof -
  obtain s' where s': "linux_command_run = Inr ((), s')" and two: "length (requests CommandHandler (trace s')) = 2"
    using linux_command_runs by (auto split: sum.splits)
  have st: "state_file (world linux_message_st) = None" "trace linux_message_st = []"
    "m_air_conditioner (world linux_message_st) = \<lparr>power = 0, temperature = 23\<rparr>"
    by (simp_all add: linux_message_st_def linux_demo_def)
  let ?sys = "sample_sys :: sample_world app_sys"
  have "mutex_works ?sys" and "\<bar>temperature (m_air_conditioner (world linux_message_st))\<bar> \<le> 2 ^ 31"
    and "\<And>t. state_file (world linux_message_st) = Some t \<Longrightarrow> NUL \<notin> set t"
    by (simp_all add: mutex_works_def sample_sys_def st)
  from linux_command_effect [OF this linux_message_command(1) s' [unfolded linux_command_run_def]]
  obtain es k where "trace s' = [] @ es" and sf: "state_file (world s') = None"
    and ac: "m_air_conditioner (world s') =
      perform ?sys (take k [(''AirConditionerAlias'', ''turnPower'', ''true'')]) \<lparr>power = 0, temperature = 23\<rparr>"
    and sent: "requests CommandHandler es = [] \<or> k = length (command_steps 0 linux_array linux_items) \<and>
      (\<exists>results more. requests CommandHandler es = results # more \<and>
       (more = [] \<or> (\<exists>path. more = [state_request path (reported ?sys (world s'))])))"
    unfolding st linux_message_command(2) by blast
  with two obtain results path where k: "k = length (command_steps 0 linux_array linux_items)"
    and more: "requests CommandHandler (trace s') = [results, state_request path (reported ?sys (world s'))]"
    by auto
  have "k = 1"
    using k arg_cong [OF linux_message_command(2), of length] by simp
  with ac have ac': "m_air_conditioner (world s') = \<lparr>power = 1, temperature = 23\<rparr>"
    by (simp add: perform_def perform_action_def apply_action_def sample_sys_def)
  then have "reported ?sys (world s') = air_conditioner_json True 23"
    by (simp add: reported_def sf sample_sys_def)
  with s' more ac' show ?thesis by auto
qed

end
