(* ===== verification/Linux_Platform.thy ===== *)
theory Linux_Platform
  imports Prelude "HOL-Library.Multiset"
begin

text \<open>
  The platform callbacks of the Linux sample (linux-sample/sys_cb_linux.c,
  linux-env/secure_socket_impl.c, linux-env/task_impl.c): TLS sockets, threads and delays.

  The operating system and OpenSSL are fields of \<open>os\<close>. What the code obtains from them and has
  to give back (memory blocks, descriptors, TLS contexts and connections) is counted in the
  multiset \<open>held\<close>; using an object that is not held is the fault \<open>Dangling\<close>.
\<close>

section \<open>System and state\<close>

datatype kii_socket_code_t = KII_SOCKETC_OK | KII_SOCKETC_FAIL

datatype kii_task_code_t = KII_TASKC_OK | KII_TASKC_FAIL

datatype resource = Block nat | Descriptor int | TlsContext nat | TlsConnection nat

text \<open>The address that \<open>connect\<close> gets: the port that \<open>sin_port\<close> names, the bytes of \<open>sin_addr\<close>.\<close>

record sockaddr_in =
  sin_port :: "16 word"
  sin_addr :: "8 word list"

record ssl_context_t =
  ctx_ssl :: "nat option"
  ctx_ssl_ctx :: "nat option"

record 'w os =
  os_malloc :: "'w \<Rightarrow> nat option \<times> 'w"
  os_gethostbyname :: "string \<Rightarrow> 'w \<Rightarrow> 8 word list option \<times> 'w"
  os_socket :: "'w \<Rightarrow> int \<times> 'w"
  os_connect :: "int \<Rightarrow> sockaddr_in \<Rightarrow> 'w \<Rightarrow> int \<times> 'w"
  os_close :: "int \<Rightarrow> 'w \<Rightarrow> 'w"
  SSL_CTX_new :: "'w \<Rightarrow> nat option \<times> 'w"
  SSL_new :: "nat \<Rightarrow> 'w \<Rightarrow> nat option \<times> 'w"
  SSL_set_fd :: "nat \<Rightarrow> int \<Rightarrow> 'w \<Rightarrow> int \<times> 'w"
  SSL_connect :: "nat \<Rightarrow> 'w \<Rightarrow> int \<times> 'w"
  SSL_get_error :: "nat \<Rightarrow> int \<Rightarrow> 'w \<Rightarrow> int"
  SSL_write :: "nat \<Rightarrow> string \<Rightarrow> int \<Rightarrow> 'w \<Rightarrow> int \<times> 'w"
  SSL_read :: "nat \<Rightarrow> int \<Rightarrow> 'w \<Rightarrow> (int \<times> string) \<times> 'w"
  SSL_shutdown :: "nat \<Rightarrow> 'w \<Rightarrow> int \<times> 'w"
  SSL_ERROR_SYSCALL :: int
  ERR_error_string :: "int \<Rightarrow> string"
  os_pthread_create :: "string \<Rightarrow> nat \<Rightarrow> 'w \<Rightarrow> int \<times> 'w"
  os_usleep :: "32 word \<Rightarrow> 'w \<Rightarrow> 'w"

text \<open>
  \<open>sc_socket\<close> and \<open>sc_app_context\<close> are the members of the \<open>kii_socket_context_t\<close> that the
  functions get, \<open>blocks\<close> the contents of the memory blocks.
\<close>

record 'w ls =
  sc_socket :: int
  sc_app_context :: "nat option"
  blocks :: "nat \<Rightarrow> ssl_context_t option"
  held :: "resource multiset"
  net :: 'w
  printed :: "string list"

section \<open>Calls of the system\<close>

definition sys :: "('w \<Rightarrow> 'a \<times> 'w) \<Rightarrow> ('w ls, 'a) prog" where
  "sys f = (\<lambda>s. case f (net s) of (a, w) \<Rightarrow> Inr (a, s\<lparr>net := w\<rparr>))"

definition acquire :: "resource \<Rightarrow> ('w ls, unit) prog" where
  "acquire r = modify (\<lambda>s. s\<lparr>held := add_mset r (held s)\<rparr>)"

definition release :: "resource \<Rightarrow> ('w ls, unit) prog" where
  "release r = (\<lambda>s. if r \<in># held s then Inr ((), s\<lparr>held := held s - {#r#}\<rparr>) else Inl Dangling)"

definition in_use :: "resource \<Rightarrow> ('w ls, unit) prog" where
  "in_use r = (\<lambda>s. if r \<in># held s then Inr ((), s) else Inl Dangling)"

definition say :: "string \<Rightarrow> ('w ls, unit) prog" where
  "say t = modify (\<lambda>s. s\<lparr>printed := printed s @ [t]\<rparr>)"

text \<open>\<open>malloc\<close> and \<open>memset\<close> of one \<open>ssl_context_t\<close>; the result of \<open>malloc\<close> is not tested.\<close>

definition malloc_zeroed :: "'w os \<Rightarrow> ('w ls, nat) prog" where
  "malloc_zeroed os =
     chain (sys (os_malloc os)) (\<lambda>p.
     chain (deref p) (\<lambda>a.
     chain (acquire (Block a)) (\<lambda>_.
     chain (modify (\<lambda>s. s\<lparr>blocks := (blocks s)(a \<mapsto> \<lparr>ctx_ssl = None, ctx_ssl_ctx = None\<rparr>)\<rparr>)) (\<lambda>_.
     ret a))))"

definition free_block :: "nat \<Rightarrow> ('w ls, unit) prog" where
  "free_block a =
     chain (release (Block a)) (\<lambda>_. modify (\<lambda>s. s\<lparr>blocks := (blocks s)(a := None)\<rparr>))"

text \<open>\<open>(ssl_context_t*)socket_context->app_context\<close>, dereferenced, and its \<open>ssl\<close> as an argument.\<close>

definition context_block :: "('w ls, nat \<times> ssl_context_t) prog" where
  "context_block =
     chain (gets sc_app_context) (\<lambda>p.
     chain (deref p) (\<lambda>a.
     chain (in_use (Block a)) (\<lambda>_.
     chain (gets (\<lambda>s. blocks s a)) (\<lambda>b.
     chain (deref b) (\<lambda>c. ret (a, c))))))"

definition connection :: "ssl_context_t \<Rightarrow> ('w ls, nat) prog" where
  "connection c =
     chain (deref (ctx_ssl c)) (\<lambda>n. chain (in_use (TlsConnection n)) (\<lambda>_. ret n))"

text \<open>A \<open>size_t\<close> handed on as an \<open>int\<close>.\<close>

definition as_int :: "nat \<Rightarrow> int" where
  "as_int n = sint (word_of_nat n :: 32 word)"

section \<open>The code\<close>

definition s_connect_cb :: "'w os \<Rightarrow> string \<Rightarrow> 32 word \<Rightarrow> ('w ls, kii_socket_code_t) prog" where
  "s_connect_cb os host port =
     chain (malloc_zeroed os) (\<lambda>ctx.
     chain (sys (os_gethostbyname os host)) (\<lambda>servhost.
     case servhost of
       None \<Rightarrow>
         chain (say ''failed to get host.'') (\<lambda>_.
         chain (free_block ctx) (\<lambda>_. ret KII_SOCKETC_FAIL))
     | Some h_addr \<Rightarrow>
         if 4 < length h_addr then fail OutOfBounds
         else
           chain (sys (os_socket os)) (\<lambda>sock.
           if sock < 0 then
             chain (say ''failed to init socket.'') (\<lambda>_.
             chain (free_block ctx) (\<lambda>_. ret KII_SOCKETC_FAIL))
           else
             chain (acquire (Descriptor sock)) (\<lambda>_.
             chain (sys (os_connect os sock \<lparr>sin_port = ucast port, sin_addr = h_addr\<rparr>)) (\<lambda>r.
             if r = - 1 then
               chain (say ''failed to connect socket.'') (\<lambda>_.
               chain (free_block ctx) (\<lambda>_. ret KII_SOCKETC_FAIL))
             else
               chain (sys (SSL_CTX_new os)) (\<lambda>ssl_ctx.
               case ssl_ctx of
                 None \<Rightarrow>
                   chain (say ''failed to init ssl context.'') (\<lambda>_.
                   chain (free_block ctx) (\<lambda>_. ret KII_SOCKETC_FAIL))
               | Some ssl_ctx \<Rightarrow>
                   chain (acquire (TlsContext ssl_ctx)) (\<lambda>_.
                   chain (sys (SSL_new os ssl_ctx)) (\<lambda>ssl.
                   case ssl of
                     None \<Rightarrow>
                       chain (say ''failed to init ssl.'') (\<lambda>_.
                       chain (free_block ctx) (\<lambda>_. ret KII_SOCKETC_FAIL))
                   | Some ssl \<Rightarrow>
                       chain (acquire (TlsConnection ssl)) (\<lambda>_.
                       chain (sys (SSL_set_fd os ssl sock)) (\<lambda>r.
                       if r = 0 then
                         chain (say ''failed to set fd.'') (\<lambda>_.
                         chain (free_block ctx) (\<lambda>_. ret KII_SOCKETC_FAIL))
                       else
                         chain (sys (SSL_connect os ssl)) (\<lambda>r.
                         if r \<noteq> 1 then
                           chain (gets (\<lambda>s. SSL_get_error os ssl r (net s))) (\<lambda>sslErr.
                           chain (say (''failed to connect: '' @ take 119 (ERR_error_string os sslErr))) (\<lambda>_.
                           chain (free_block ctx) (\<lambda>_. ret KII_SOCKETC_FAIL)))
                         else
                           chain (modify (\<lambda>s. s\<lparr>sc_socket := sock, sc_app_context := Some ctx\<rparr>)) (\<lambda>_.
                           chain (modify (\<lambda>s. s\<lparr>blocks := (blocks s)(ctx \<mapsto>
                             \<lparr>ctx_ssl = Some ssl, ctx_ssl_ctx = Some ssl_ctx\<rparr>)\<rparr>)) (\<lambda>_.
                           ret KII_SOCKETC_OK)))))))))))))"

definition s_send_cb :: "'w os \<Rightarrow> string \<Rightarrow> nat \<Rightarrow> ('w ls, kii_socket_code_t) prog" where
  "s_send_cb os buf len =
     chain context_block (\<lambda>(_, ctx).
     chain (connection ctx) (\<lambda>ssl.
     chain (sys (SSL_write os ssl buf (as_int len))) (\<lambda>r.
     if r > 0 then ret KII_SOCKETC_OK
     else chain (say ''failed to send'') (\<lambda>_. ret KII_SOCKETC_FAIL))))"

text \<open>
  The result, the buffer and \<open>*out_actual_length\<close>. What \<open>SSL_read\<close> stores goes to the front of
  the buffer.
\<close>

definition s_recv_cb ::
  "'w os \<Rightarrow> char list \<Rightarrow> nat \<Rightarrow> ('w ls, kii_socket_code_t \<times> char list \<times> nat) prog" where
  "s_recv_cb os buf length_to_read =
     chain context_block (\<lambda>(_, ctx).
     chain (connection ctx) (\<lambda>ssl.
     chain (sys (SSL_read os ssl (as_int length_to_read))) (\<lambda>(r, stored).
     if length buf < length stored then fail OutOfBounds
     else if r > 0 then ret (KII_SOCKETC_OK, stored @ drop (length stored) buf, nat r)
     else
       chain (say ''failed to receive:'') (\<lambda>_.
       ret (KII_SOCKETC_FAIL, stored @ drop (length stored) buf, 0)))))"

definition s_close_cb :: "'w os \<Rightarrow> ('w ls, kii_socket_code_t) prog" where
  "s_close_cb os =
     chain context_block (\<lambda>(a, ctx).
     chain (connection ctx) (\<lambda>ssl.
     chain (sys (SSL_shutdown os ssl)) (\<lambda>r.
     chain (if r \<noteq> 1 then
              chain (gets (\<lambda>s. SSL_get_error os ssl r (net s))) (\<lambda>sslErr.
              if sslErr = SSL_ERROR_SYSCALL os then ret 1
              else
                chain (say (''failed to shutdown: '' @ take 119 (ERR_error_string os sslErr))) (\<lambda>_.
                ret r))
            else ret r) (\<lambda>r.
     chain (gets sc_socket) (\<lambda>sock.
     chain (sys (\<lambda>w. ((), os_close os sock w))) (\<lambda>_.
     chain (modify (\<lambda>s. s\<lparr>held := held s - {#Descriptor sock#}\<rparr>)) (\<lambda>_.
     chain (release (TlsConnection ssl)) (\<lambda>_.
     chain (deref (ctx_ssl_ctx ctx)) (\<lambda>ssl_ctx.
     chain (release (TlsContext ssl_ctx)) (\<lambda>_.
     if r \<noteq> 1 then chain (say ''failed to close:'') (\<lambda>_. ret KII_SOCKETC_FAIL)
     else
       chain (free_block a) (\<lambda>_.
       chain (modify (\<lambda>s. s\<lparr>sc_app_context := None\<rparr>)) (\<lambda>_.
       ret KII_SOCKETC_OK))))))))))))"

text \<open>
  The callbacks that the sample hands to the SDK. With \<open>KII_MQTT_USE_PORT_TCP\<close> the MQTT ones
  call functions that the repository does not have; \<open>tcp_*\<close> stand for them.
\<close>

definition socket_connect_cb_impl :: "'w os \<Rightarrow> string \<Rightarrow> 32 word \<Rightarrow> ('w ls, kii_socket_code_t) prog" where
  "socket_connect_cb_impl os host port = s_connect_cb os host port"

definition socket_send_cb_impl :: "'w os \<Rightarrow> string \<Rightarrow> nat \<Rightarrow> ('w ls, kii_socket_code_t) prog" where
  "socket_send_cb_impl os buf len = s_send_cb os buf len"

definition socket_recv_cb_impl ::
  "'w os \<Rightarrow> char list \<Rightarrow> nat \<Rightarrow> ('w ls, kii_socket_code_t \<times> char list \<times> nat) prog" where
  "socket_recv_cb_impl os buf length_to_read = s_recv_cb os buf length_to_read"

definition socket_close_cb_impl :: "'w os \<Rightarrow> ('w ls, kii_socket_code_t) prog" where
  "socket_close_cb_impl os = s_close_cb os"

definition mqtt_connect_cb_impl ::
  "(string \<Rightarrow> 32 word \<Rightarrow> ('w ls, kii_socket_code_t) prog) option \<Rightarrow> 'w os \<Rightarrow> string \<Rightarrow> 32 word \<Rightarrow>
     ('w ls, kii_socket_code_t) prog" where
  "mqtt_connect_cb_impl tcp_connect os host port =
     (case tcp_connect of Some f \<Rightarrow> f host port | None \<Rightarrow> s_connect_cb os host port)"

definition mqtt_send_cb_impl ::
  "(string \<Rightarrow> nat \<Rightarrow> ('w ls, kii_socket_code_t) prog) option \<Rightarrow> 'w os \<Rightarrow> string \<Rightarrow> nat \<Rightarrow>
     ('w ls, kii_socket_code_t) prog" where
  "mqtt_send_cb_impl tcp_send os buf len =
     (case tcp_send of Some f \<Rightarrow> f buf len | None \<Rightarrow> s_send_cb os buf len)"

definition mqtt_recv_cb_impl ::
  "(char list \<Rightarrow> nat \<Rightarrow> ('w ls, kii_socket_code_t \<times> char list \<times> nat) prog) option \<Rightarrow> 'w os \<Rightarrow>
     char list \<Rightarrow> nat \<Rightarrow> ('w ls, kii_socket_code_t \<times> char list \<times> nat) prog" where
  "mqtt_recv_cb_impl tcp_recv os buf length_to_read =
     (case tcp_recv of Some f \<Rightarrow> f buf length_to_read | None \<Rightarrow> s_recv_cb os buf length_to_read)"

definition mqtt_close_cb_impl ::
  "(('w ls, kii_socket_code_t) prog) option \<Rightarrow> 'w os \<Rightarrow> ('w ls, kii_socket_code_t) prog" where
  "mqtt_close_cb_impl tcp_close os = (case tcp_close of Some f \<Rightarrow> f | None \<Rightarrow> s_close_cb os)"

text \<open>Threads and delays; \<open>entry\<close> names the function that the thread runs on \<open>param\<close>.\<close>

definition task_create_cb_linux :: "'w os \<Rightarrow> string \<Rightarrow> string \<Rightarrow> nat \<Rightarrow> ('w ls, kii_task_code_t) prog" where
  "task_create_cb_linux os name entry param =
     chain (sys (os_pthread_create os entry param)) (\<lambda>r.
     if r = 0 then ret KII_TASKC_OK else ret KII_TASKC_FAIL)"

definition delay_ms_cb_linux :: "'w os \<Rightarrow> 32 word \<Rightarrow> ('w ls, unit) prog" where
  "delay_ms_cb_linux os msec = sys (\<lambda>w. ((), os_usleep os (msec * 1000) w))"

definition task_create_cb_impl ::
  "'w os \<Rightarrow> string \<Rightarrow> string \<Rightarrow> nat \<Rightarrow> ('w ls, kii_task_code_t) prog" where
  "task_create_cb_impl os name entry param = task_create_cb_linux os name entry param"

definition delay_ms_cb_impl :: "'w os \<Rightarrow> 32 word \<Rightarrow> ('w ls, unit) prog" where
  "delay_ms_cb_impl os msec = delay_ms_cb_linux os msec"

section \<open>What the calls do to the resources\<close>

lemma yields_sys [yields_intros]:
  "(\<And>a w. f (net s) = (a, w) \<Longrightarrow> Q a (s\<lparr>net := w\<rparr>)) \<Longrightarrow> yields (sys f) s Q"
  by (auto simp: yields_def sys_def split: prod.splits)

lemma yields_resources [yields_intros]:
  "Q () (s\<lparr>held := add_mset r (held s)\<rparr>) \<Longrightarrow> yields (acquire r) s Q"
  "(r \<in># held s \<Longrightarrow> Q () (s\<lparr>held := held s - {#r#}\<rparr>)) \<Longrightarrow> yields (release r) s Q"
  "(r \<in># held s \<Longrightarrow> Q () s) \<Longrightarrow> yields (in_use r) s Q"
  "Q () (s\<lparr>printed := printed s @ [t]\<rparr>) \<Longrightarrow> yields (say t) s Q"
  by (auto simp: yields_def acquire_def release_def in_use_def say_def)

lemma yields_blocks [yields_intros]:
  "(\<And>a w. os_malloc os (net s) = (Some a, w) \<Longrightarrow> Q a (s\<lparr>net := w,
      held := add_mset (Block a) (held s),
      blocks := (blocks s)(a \<mapsto> \<lparr>ctx_ssl = None, ctx_ssl_ctx = None\<rparr>)\<rparr>)) \<Longrightarrow>
    yields (malloc_zeroed os) s Q"
  "(Block b \<in># held s \<Longrightarrow>
      S () (s\<lparr>held := held s - {#Block b#}, blocks := (blocks s)(b := None)\<rparr>)) \<Longrightarrow>
    yields (free_block b) s S"
  "(\<And>a c. sc_app_context s = Some a \<Longrightarrow> Block a \<in># held s \<Longrightarrow> blocks s a = Some c \<Longrightarrow> P (a, c) s) \<Longrightarrow>
    yields context_block s P"
  "(\<And>n. ctx_ssl d = Some n \<Longrightarrow> TlsConnection n \<in># held s \<Longrightarrow> R n s) \<Longrightarrow>
    yields (connection d) s R"
  unfolding malloc_zeroed_def free_block_def context_block_def connection_def
  by (auto intro!: yields_intros)

text \<open>A connection that is set up: the context leads to a live block with live TLS objects.\<close>

definition connected :: "nat \<Rightarrow> nat \<Rightarrow> nat \<Rightarrow> 'w ls \<Rightarrow> bool" where
  "connected a n x s \<longleftrightarrow>
     sc_app_context s = Some a \<and> blocks s a = Some \<lparr>ctx_ssl = Some n, ctx_ssl_ctx = Some x\<rparr>"

text \<open>
  What a connect obtains of the system besides its memory block, in the order of the calls: the
  descriptor once \<open>socket\<close> gave one, then the TLS context and the TLS connection, each if the
  call before it was successful.
\<close>

definition obtained :: "'w os \<Rightarrow> string \<Rightarrow> 32 word \<Rightarrow> 'w \<Rightarrow> resource multiset" where
  "obtained os host port w =
     (case os_gethostbyname os host (snd (os_malloc os w)) of
        (None, _) \<Rightarrow> {#}
      | (Some h_addr, w) \<Rightarrow>
          case os_socket os w of (sock, w) \<Rightarrow>
          if sock < 0 then {#}
          else case os_connect os sock \<lparr>sin_port = ucast port, sin_addr = h_addr\<rparr> w of (r, w) \<Rightarrow>
          if r = - 1 then {#Descriptor sock#}
          else case SSL_CTX_new os w of
            (None, _) \<Rightarrow> {#Descriptor sock#}
          | (Some x, w) \<Rightarrow>
              case SSL_new os x w of
                (None, _) \<Rightarrow> {#Descriptor sock, TlsContext x#}
              | (Some n, _) \<Rightarrow> {#Descriptor sock, TlsContext x, TlsConnection n#})"

text \<open>What a connect leaves behind, by its result.\<close>

definition after_connect :: "'w os \<Rightarrow> string \<Rightarrow> 32 word \<Rightarrow> 'w ls \<Rightarrow> kii_socket_code_t \<Rightarrow> 'w ls \<Rightarrow> bool" where
  "after_connect os host port s c s' \<longleftrightarrow>
     (case c of
        KII_SOCKETC_OK \<Rightarrow>
          \<exists>a n x. connected a n x s' \<and>
            obtained os host port (net s) = {#Descriptor (sc_socket s'), TlsContext x, TlsConnection n#} \<and>
            held s' = held s + {#Block a#} + obtained os host port (net s)
      | KII_SOCKETC_FAIL \<Rightarrow>
          sc_socket s' = sc_socket s \<and> sc_app_context s' = sc_app_context s \<and>
          held s' = held s + obtained os host port (net s))"

lemma s_connect_cb_yields: "yields (s_connect_cb os host port) s (after_connect os host port s)"
  unfolding s_connect_cb_def
  by (intro yields_intros)
    (auto simp: after_connect_def connected_def obtained_def add_mset_commute)

lemma s_connect_cb_outcome_OK:
  assumes "s_connect_cb os host port s = Inr (KII_SOCKETC_OK, s')"
  shows "\<exists>a n x. connected a n x s' \<and> held s' = held s +
    {#Block a, Descriptor (sc_socket s'), TlsContext x, TlsConnection n#}"
proof -
  from yieldsD [OF s_connect_cb_yields assms] obtain a n x where "connected a n x s'"
    "obtained os host port (net s) = {#Descriptor (sc_socket s'), TlsContext x, TlsConnection n#}"
    "held s' = held s + {#Block a#} + obtained os host port (net s)"
    by (auto simp: after_connect_def)
  then show ?thesis by (intro exI [where x = a] exI [where x = n] exI [where x = x]) simp
qed

section \<open>A connection's life\<close>

text \<open>Sending and receiving, any number of times.\<close>

inductive traffic :: "'w os \<Rightarrow> 'w ls \<Rightarrow> 'w ls \<Rightarrow> bool" for os s where
  silent: "traffic os s s"
| send: "traffic os s t \<Longrightarrow> s_send_cb os buf len t = Inr (c, u) \<Longrightarrow> traffic os s u"
| recv: "traffic os s t \<Longrightarrow> s_recv_cb os buf len t = Inr (r, u) \<Longrightarrow> traffic os s u"

text \<open>The two states differ in what the world outside and the terminal hold only.\<close>

definition same_resources :: "'w ls \<Rightarrow> 'w ls \<Rightarrow> bool" where
  "same_resources s t \<longleftrightarrow> sc_socket t = sc_socket s \<and> sc_app_context t = sc_app_context s \<and>
     blocks t = blocks s \<and> held t = held s"

lemma s_send_cb_yields: "yields (s_send_cb os buf len) s (\<lambda>c. same_resources s)"
  unfolding s_send_cb_def by (intro yields_intros) (simp_all add: same_resources_def)

lemma s_recv_cb_yields: "yields (s_recv_cb os buf len) s (\<lambda>r. same_resources s)"
  unfolding s_recv_cb_def by (intro yields_intros) (simp_all add: same_resources_def)

lemma traffic_resources:
  assumes "traffic os s t"
  shows "same_resources s t"
  using assms
proof induction
  case silent
  show ?case by (simp add: same_resources_def)
next
  case (send t buf len c u)
  then have "same_resources t u" using yieldsD [OF s_send_cb_yields] by blast
  with send.IH show ?case by (simp add: same_resources_def)
next
  case (recv t buf len r u)
  then have "same_resources t u" using yieldsD [OF s_recv_cb_yields] by blast
  with recv.IH show ?case by (simp add: same_resources_def)
qed

text \<open>A close of a live connection runs to its end and gives everything back, but for the block
  when the shutdown failed.\<close>

lemma s_close_cb_connected:
  assumes "connected a n x s" and "held s = M +
      {#Block a, Descriptor (sc_socket s), TlsContext x, TlsConnection n#}"
  shows "\<exists>c s'. s_close_cb os s = Inr (c, s') \<and>
    (case c of
       KII_SOCKETC_OK \<Rightarrow> held s' = M \<and> sc_app_context s' = None
     | KII_SOCKETC_FAIL \<Rightarrow> held s' = M + {#Block a#} \<and> connected a n x s')"
proof -
  obtain r w where r: "SSL_shutdown os n (net s) = (r, w)"
    by (cases "SSL_shutdown os n (net s)")
  show ?thesis
    using assms
    by (cases "r = 1"; cases "SSL_get_error os n r w = SSL_ERROR_SYSCALL os")
      (simp_all add: s_close_cb_def context_block_def connection_def connected_def in_use_def
        release_def sys_def free_block_def say_def r)
qed

section \<open>Properties\<close>

text \<open>
  C31. Opening a TLS connection. \<open>s_connect_cb\<close> succeeds with a live memory block, descriptor and
  TLS objects more than before, to which the socket context leads. When it fails it leaves the
  context alone and frees its block, but it gives nothing else back: what is in use has grown by
  exactly the descriptor and the TLS objects that it had obtained by then, and nothing refers to
  them any more.
\<close>

theorem s_connect_cb_outcome:
  assumes "s_connect_cb os host port s = Inr (c, s')"
  shows "case c of
       KII_SOCKETC_OK \<Rightarrow>
         \<exists>a n x. connected a n x s' \<and>
           obtained os host port (net s) = {#Descriptor (sc_socket s'), TlsContext x, TlsConnection n#} \<and>
           held s' = held s + {#Block a#} + obtained os host port (net s)
     | KII_SOCKETC_FAIL \<Rightarrow>
         sc_socket s' = sc_socket s \<and> sc_app_context s' = sc_app_context s \<and>
         held s' = held s + obtained os host port (net s)"
  using yieldsD [OF s_connect_cb_yields assms] by (simp add: after_connect_def)

text \<open>
  C12. A connection's life. After a successful connect and any traffic, \<open>s_close_cb\<close> runs to its
  end. When it succeeds, exactly what was in use before the connect is in use again and the
  context is cleared; when it fails, the memory block stays allocated and the context still leads
  to it, with TLS objects that are freed, so that using the connection again, or closing it
  again, is an access to a freed object unless another owner holds one of the same name.
\<close>

theorem tls_connection_life:
  assumes "s_connect_cb os host port s = Inr (KII_SOCKETC_OK, s1)" and "traffic os s1 s2"
  shows "\<exists>c s3. s_close_cb os s2 = Inr (c, s3) \<and>
    (case c of
       KII_SOCKETC_OK \<Rightarrow> held s3 = held s \<and> sc_app_context s3 = None
     | KII_SOCKETC_FAIL \<Rightarrow> \<exists>a n x. held s3 = held s + {#Block a#} \<and> connected a n x s3 \<and>
         (TlsConnection n \<notin># held s \<longrightarrow>
            s_close_cb os s3 = Inl Dangling \<and> s_send_cb os buf len s3 = Inl Dangling))"
proof -
  obtain a n x where c1: "connected a n x s1" and h1: "held s1 = held s +
      {#Block a, Descriptor (sc_socket s1), TlsContext x, TlsConnection n#}"
    using s_connect_cb_outcome_OK [OF assms(1)] by blast
  then have c2: "connected a n x s2" and h2: "held s2 = held s +
      {#Block a, Descriptor (sc_socket s2), TlsContext x, TlsConnection n#}"
    using traffic_resources [OF assms(2)] by (auto simp: same_resources_def connected_def)
  obtain c s3 where close: "s_close_cb os s2 = Inr (c, s3)"
    and res: "case c of KII_SOCKETC_OK \<Rightarrow> held s3 = held s \<and> sc_app_context s3 = None
      | KII_SOCKETC_FAIL \<Rightarrow> held s3 = held s + {#Block a#} \<and> connected a n x s3"
    using s_close_cb_connected [OF c2 h2] by blast
  have "s_close_cb os s3 = Inl Dangling \<and> s_send_cb os buf len s3 = Inl Dangling"
    if "held s3 = held s + {#Block a#}" and "connected a n x s3" and "TlsConnection n \<notin># held s"
    using that by (simp add: s_close_cb_def s_send_cb_def context_block_def connection_def
        connected_def in_use_def)
  with close res show ?thesis by (cases c) auto
qed

text \<open>A system for the witnesses: its world is the result that the next shutdown has.\<close>

definition sample_os :: "int os" where
  "sample_os =
     \<lparr>os_malloc = (\<lambda>w. (Some 7, w)), os_gethostbyname = (\<lambda>h w. (Some [10, 0, 0, 1], w)),
      os_socket = (\<lambda>w. (3, w)), os_connect = (\<lambda>fd a w. (if w < 0 then - 1 else 0, w)),
      os_close = (\<lambda>fd w. w), SSL_CTX_new = (\<lambda>w. (Some 1, w)), SSL_new = (\<lambda>x w. (Some 2, w)),
      SSL_set_fd = (\<lambda>n fd w. (1, w)), SSL_connect = (\<lambda>n w. (1, w)),
      SSL_get_error = (\<lambda>n r w. 1), SSL_write = (\<lambda>n b l w. (l, w)),
      SSL_read = (\<lambda>n l w. ((0, []), w)), SSL_shutdown = (\<lambda>n w. (w, w)),
      SSL_ERROR_SYSCALL = 5, ERR_error_string = (\<lambda>e. ''e''), os_pthread_create = (\<lambda>e p w. (0, w)),
      os_usleep = (\<lambda>u w. w)\<rparr>"

definition sample_ls :: "int \<Rightarrow> int ls" where
  "sample_ls w = \<lparr>sc_socket = - 1, sc_app_context = None, blocks = Map.empty, held = {#},
     net = w, printed = []\<rparr>"

theorem s_connect_cb_outcome_witness:
  "\<exists>s'. s_connect_cb sample_os ''host'' 443 (sample_ls (- 1)) = Inr (KII_SOCKETC_FAIL, s') \<and>
     held s' = {#Descriptor 3#} \<and> sc_socket s' = - 1 \<and> sc_app_context s' = None"
proof -
  obtain s' where s': "s_connect_cb sample_os ''host'' 443 (sample_ls (- 1)) = Inr (KII_SOCKETC_FAIL, s')"
    by (simp add: s_connect_cb_def sample_os_def sample_ls_def malloc_zeroed_def sys_def
        acquire_def say_def free_block_def release_def)
  moreover have "obtained sample_os ''host'' 443 (net (sample_ls (- 1))) = {#Descriptor 3#}"
    by (simp add: obtained_def sample_os_def sample_ls_def)
  ultimately show ?thesis using s_connect_cb_outcome [OF s'] by (simp add: sample_ls_def)
qed

theorem tls_connection_life_witness:
  "\<exists>s1 s3. s_connect_cb sample_os ''host'' 443 (sample_ls 0) = Inr (KII_SOCKETC_OK, s1) \<and>
     s_close_cb sample_os s1 = Inr (KII_SOCKETC_FAIL, s3) \<and> held s3 = {#Block 7#}"
proof -
  obtain s1 where s1: "s_connect_cb sample_os ''host'' 443 (sample_ls 0) = Inr (KII_SOCKETC_OK, s1)"
    and net: "net s1 = 0" and ctx: "connected 7 2 1 s1"
    by (simp add: s_connect_cb_def sample_os_def sample_ls_def malloc_zeroed_def sys_def
        acquire_def say_def free_block_def release_def connected_def)
  obtain c s3 where s3: "s_close_cb sample_os s1 = Inr (c, s3)"
    and res: "case c of
       KII_SOCKETC_OK \<Rightarrow> held s3 = held (sample_ls 0) \<and> sc_app_context s3 = None
     | KII_SOCKETC_FAIL \<Rightarrow> \<exists>a n x. held s3 = held (sample_ls 0) + {#Block a#} \<and> connected a n x s3 \<and>
         (TlsConnection n \<notin># held (sample_ls 0) \<longrightarrow> s_close_cb sample_os s3 = Inl Dangling \<and>
            s_send_cb sample_os [] 0 s3 = Inl Dangling)"
    using tls_connection_life [OF s1 silent] by blast
  have "yields (s_close_cb sample_os) s1 (\<lambda>c s3. c = KII_SOCKETC_FAIL \<and> sc_app_context s3 = Some 7)"
    using ctx unfolding s_close_cb_def
    by (intro yields_intros)
      (auto simp: sample_os_def net connected_def)
  from yieldsD [OF this s3] have "c = KII_SOCKETC_FAIL" "sc_app_context s3 = Some 7" by auto
  with res have "held s3 = {#Block 7#}" by (auto simp: sample_ls_def connected_def)
  with s1 s3 \<open>c = KII_SOCKETC_FAIL\<close> show ?thesis by blast
qed

text \<open>
  Delays. \<open>delay_ms_cb\<close> multiplies by 1000 as an unsigned int: it sleeps for the time it is
  asked for up to 4294967 milliseconds (71 minutes), and for a shorter time beyond.
\<close>

theorem delay_ms_bounds:
  "\<exists>usec. delay_ms_cb_impl os msec s = Inr ((), s\<lparr>net := os_usleep os usec (net s)\<rparr>) \<and>
     (if unat msec \<le> 4294967 then unat usec = unat msec * 1000
      else unat usec < unat msec * 1000)"
proof -
  have "unat (msec * 1000 :: 32 word) = unat msec * 1000 mod 2 ^ 32"
    by (simp add: unat_word_ariths)
  moreover have "unat msec * 1000 < 2 ^ 32 \<longleftrightarrow> unat msec \<le> 4294967"
    by auto
  moreover have "x mod 2 ^ 32 < x" if "\<not> x < 2 ^ 32" for x :: nat
  proof -
    have "x mod 2 ^ 32 < 2 ^ 32" by simp
    with that show ?thesis by linarith
  qed
  ultimately show ?thesis
    by (intro exI [where x = "msec * 1000"])
      (auto simp: delay_ms_cb_impl_def delay_ms_cb_linux_def sys_def)
qed

end
