(* ===== verification/CC3200_Platform.thy ===== *)
theory CC3200_Platform
  imports Linux_Platform
begin

text \<open>
  The platform callbacks of the CC3200 sample
  (cc3200-sample/freertos_thingsdk_demo/kii_thing_if_environment_cc3200.c): plain sockets of TI's
  SimpleLink driver, tasks and delays of its OS layer.

  The driver and the OS layer are fields of \<open>simplelink\<close>, as are the macros that their headers and
  the Kii library define. The sockets that are open are counted in the multiset \<open>cs_open\<close>.
\<close>

section \<open>Driver and state\<close>

record sl_sock_addr_in =
  sl_sin_port :: "16 word"
  sl_s_addr :: "32 word"

record 'w simplelink =
  sl_NetAppDnsGetHostByName :: "string \<Rightarrow> 'w \<Rightarrow> (int \<times> 32 word) \<times> 'w"
  sl_Htons :: "16 word \<Rightarrow> 16 word"
  sl_Htonl :: "32 word \<Rightarrow> 32 word"
  sl_Socket :: "'w \<Rightarrow> int \<times> 'w"
  sl_SetSockOpt_RCVTIMEO :: "int \<Rightarrow> int \<Rightarrow> 'w \<Rightarrow> int \<times> 'w"
  sl_Connect :: "int \<Rightarrow> sl_sock_addr_in \<Rightarrow> 'w \<Rightarrow> int \<times> 'w"
  sl_Close :: "int \<Rightarrow> 'w \<Rightarrow> 'w"
  sl_Send :: "int \<Rightarrow> string \<Rightarrow> nat \<Rightarrow> 'w \<Rightarrow> int \<times> 'w"
  sl_Recv :: "int \<Rightarrow> nat \<Rightarrow> 'w \<Rightarrow> (int \<times> string) \<times> 'w"
  osi_TaskCreate :: "string \<Rightarrow> string \<Rightarrow> nat \<Rightarrow> nat \<Rightarrow> nat \<Rightarrow> 'w \<Rightarrow> int \<times> 'w"
  osi_Sleep :: "32 word \<Rightarrow> 'w \<Rightarrow> 'w"
  KII_PUSH_KEEP_ALIVE_INTERVAL_SECONDS :: "int option"
  KII_THING_IF_TASK_NAME_UPDATE_STATUS :: string
  KII_TASK_NAME_RECV_MSG :: string
  KII_TASK_NAME_PING_REQ :: string

record 'w cs =
  cs_sock :: int
  cs_open :: "int multiset"
  cs_net :: 'w
  cs_report :: string

definition sl :: "('w \<Rightarrow> 'a \<times> 'w) \<Rightarrow> ('w cs, 'a) prog" where
  "sl f = (\<lambda>s. case f (cs_net s) of (a, w) \<Rightarrow> Inr (a, s\<lparr>cs_net := w\<rparr>))"

definition Report :: "string \<Rightarrow> ('w cs, unit) prog" where
  "Report t = modify (\<lambda>s. s\<lparr>cs_report := cs_report s @ t\<rparr>)"

text \<open>A descriptor that \<open>sl_Socket\<close> returned is open until \<open>sl_Close\<close>, whose result is dropped.\<close>

definition opened :: "int \<Rightarrow> ('w cs, unit) prog" where
  "opened fd = modify (\<lambda>s. s\<lparr>cs_open := add_mset fd (cs_open s)\<rparr>)"

definition close_socket :: "'w simplelink \<Rightarrow> int \<Rightarrow> ('w cs, unit) prog" where
  "close_socket dev fd =
     chain (sl (\<lambda>w. ((), sl_Close dev fd w))) (\<lambda>_.
     modify (\<lambda>s. s\<lparr>cs_open := cs_open s - {#fd#}\<rparr>))"

text \<open>\<open>%.*s\<close>: at most the given number of characters, all of them when it is negative.\<close>

definition print_precision :: "nat \<Rightarrow> string \<Rightarrow> ('s, string) prog" where
  "print_precision n t =
     (if as_int n < 0 \<or> length t < nat (as_int n) then cstr t
      else ret (c_str (take (nat (as_int n)) t)))"

section \<open>The code\<close>

text \<open>What both connect callbacks begin and end with.\<close>

definition connect_socket ::
  "'w simplelink \<Rightarrow> int \<Rightarrow> 32 word \<Rightarrow> 32 word \<Rightarrow> ('w cs, kii_socket_code_t) prog" where
  "connect_socket dev fd ip port =
     chain (sl (sl_Connect dev fd
       \<lparr>sl_sin_port = sl_Htons dev (ucast port), sl_s_addr = sl_Htonl dev ip\<rparr>)) (\<lambda>r.
     if r < 0 then chain (close_socket dev fd) (\<lambda>_. ret KII_SOCKETC_FAIL)
     else chain (modify (\<lambda>s. s\<lparr>cs_sock := fd\<rparr>)) (\<lambda>_. ret KII_SOCKETC_OK))"

definition socket_connect_cb_cc3200 ::
  "'w simplelink \<Rightarrow> string \<Rightarrow> 32 word \<Rightarrow> ('w cs, kii_socket_code_t) prog" where
  "socket_connect_cb_cc3200 dev host port =
     chain (sl (sl_NetAppDnsGetHostByName dev host)) (\<lambda>(r, ip).
     if r < 0 then ret KII_SOCKETC_FAIL
     else
       chain (sl (sl_Socket dev)) (\<lambda>fd.
       if fd < 0 then ret KII_SOCKETC_FAIL
       else chain (opened fd) (\<lambda>_. connect_socket dev fd ip port)))"

definition socket_send_cb_cc3200 ::
  "'w simplelink \<Rightarrow> string \<Rightarrow> nat \<Rightarrow> ('w cs, kii_socket_code_t) prog" where
  "socket_send_cb_cc3200 dev buf len =
     chain (print_precision len buf) (\<lambda>t.
     chain (Report (t @ [CHR 0x0D, CHR 0x0A])) (\<lambda>_.
     chain (gets cs_sock) (\<lambda>fd.
     chain (sl (sl_Send dev fd buf len)) (\<lambda>r.
     if r > 0 then ret KII_SOCKETC_OK else ret KII_SOCKETC_FAIL))))"

text \<open>
  The result, the buffer and, if it was set, \<open>*out_actual_length\<close>. What \<open>sl_Recv\<close> stores goes to the
  front of the buffer; it is no C string unless it or the rest of the buffer has a NUL.
\<close>

definition socket_recv_cb_cc3200 ::
  "'w simplelink \<Rightarrow> char list \<Rightarrow> nat \<Rightarrow>
     ('w cs, kii_socket_code_t \<times> char list \<times> nat option) prog" where
  "socket_recv_cb_cc3200 dev buf length_to_read =
     chain (gets cs_sock) (\<lambda>fd.
     chain (sl (sl_Recv dev fd length_to_read)) (\<lambda>(r, stored).
     if length buf < length stored then fail OutOfBounds
     else if r > 0 then
       chain (cstr (stored @ drop (length stored) buf)) (\<lambda>t.
       chain (Report t) (\<lambda>_.
       ret (KII_SOCKETC_OK, stored @ drop (length stored) buf, Some (nat r))))
     else ret (KII_SOCKETC_FAIL, stored @ drop (length stored) buf, None)))"

definition socket_close_cb_cc3200 :: "'w simplelink \<Rightarrow> ('w cs, kii_socket_code_t) prog" where
  "socket_close_cb_cc3200 dev =
     chain (gets cs_sock) (\<lambda>fd.
     chain (close_socket dev fd) (\<lambda>_.
     chain (modify (\<lambda>s. s\<lparr>cs_sock := - 1\<rparr>)) (\<lambda>_. ret KII_SOCKETC_OK)))"

definition mqtt_connect_cb_cc3200 ::
  "'w simplelink \<Rightarrow> string \<Rightarrow> 32 word \<Rightarrow> ('w cs, kii_socket_code_t) prog" where
  "mqtt_connect_cb_cc3200 dev host port =
     chain (sl (sl_NetAppDnsGetHostByName dev host)) (\<lambda>(r, ip).
     if r < 0 then ret KII_SOCKETC_FAIL
     else
       chain (sl (sl_Socket dev)) (\<lambda>fd.
       if fd < 0 then ret KII_SOCKETC_FAIL
       else
         chain (opened fd) (\<lambda>_.
         chain (case KII_PUSH_KEEP_ALIVE_INTERVAL_SECONDS dev of
             None \<Rightarrow> ret 0
           | Some n \<Rightarrow> sl (sl_SetSockOpt_RCVTIMEO dev fd (n * 2))) (\<lambda>r.
         if r \<noteq> 0 then ret KII_SOCKETC_FAIL else connect_socket dev fd ip port))))"

definition mqtt_send_cb_cc3200 ::
  "'w simplelink \<Rightarrow> string \<Rightarrow> nat \<Rightarrow> ('w cs, kii_socket_code_t) prog" where
  "mqtt_send_cb_cc3200 dev buf len =
     chain (gets cs_sock) (\<lambda>fd.
     chain (sl (sl_Send dev fd buf len)) (\<lambda>r.
     if r > 0 then ret KII_SOCKETC_OK else ret KII_SOCKETC_FAIL))"

definition mqtt_recv_cb_cc3200 ::
  "'w simplelink \<Rightarrow> char list \<Rightarrow> nat \<Rightarrow>
     ('w cs, kii_socket_code_t \<times> char list \<times> nat option) prog" where
  "mqtt_recv_cb_cc3200 dev buf length_to_read =
     chain (gets cs_sock) (\<lambda>fd.
     chain (sl (sl_Recv dev fd length_to_read)) (\<lambda>(r, stored).
     if length buf < length stored then fail OutOfBounds
     else if r > 0 then
       ret (KII_SOCKETC_OK, stored @ drop (length stored) buf, Some (nat r))
     else ret (KII_SOCKETC_FAIL, stored @ drop (length stored) buf, None)))"

definition mqtt_close_cb_cc3200 :: "'w simplelink \<Rightarrow> ('w cs, kii_socket_code_t) prog" where
  "mqtt_close_cb_cc3200 dev =
     chain (gets cs_sock) (\<lambda>fd.
     chain (close_socket dev fd) (\<lambda>_.
     chain (modify (\<lambda>s. s\<lparr>cs_sock := - 1\<rparr>)) (\<lambda>_. ret KII_SOCKETC_OK)))"

text \<open>The stack size and the priority that a task gets by its name.\<close>

definition task_parameters :: "'w simplelink \<Rightarrow> string \<Rightarrow> nat \<times> nat" where
  "task_parameters dev name =
     (if name = KII_THING_IF_TASK_NAME_UPDATE_STATUS dev then (2048, 1)
      else if name = KII_TASK_NAME_RECV_MSG dev then (4096, 0)
      else if KII_PUSH_KEEP_ALIVE_INTERVAL_SECONDS dev \<noteq> None \<and> name = KII_TASK_NAME_PING_REQ dev
        then (1024, 0)
      else (0, 0))"

definition task_create_cb_cc3200 ::
  "'w simplelink \<Rightarrow> string \<Rightarrow> string \<Rightarrow> nat \<Rightarrow> ('w cs, kii_task_code_t) prog" where
  "task_create_cb_cc3200 dev name entry param =
     (case task_parameters dev name of (stk_size, priority) \<Rightarrow>
        chain (sl (osi_TaskCreate dev entry name stk_size param priority)) (\<lambda>r.
        if r < 0 then ret KII_TASKC_FAIL else ret KII_TASKC_OK))"

definition delay_ms_cb_cc3200 :: "'w simplelink \<Rightarrow> 32 word \<Rightarrow> ('w cs, unit) prog" where
  "delay_ms_cb_cc3200 dev msec = sl (\<lambda>w. ((), osi_Sleep dev msec w))"

section \<open>What the calls do to the sockets\<close>

lemma yields_sl [yields_intros]:
  "(\<And>a w. f (cs_net s) = (a, w) \<Longrightarrow> Q a (s\<lparr>cs_net := w\<rparr>)) \<Longrightarrow> yields (sl f) s Q"
  by (auto simp: yields_def sl_def split: prod.splits)

lemma yields_sockets [yields_intros]:
  "Q () (s\<lparr>cs_open := add_mset fd (cs_open s)\<rparr>) \<Longrightarrow> yields (opened fd) s Q"
  "Q () (s\<lparr>cs_report := cs_report s @ t\<rparr>) \<Longrightarrow> yields (Report t) s Q"
  "(\<And>w. Q () (s\<lparr>cs_net := w, cs_open := cs_open s - {#fd#}\<rparr>)) \<Longrightarrow> yields (close_socket dev fd) s Q"
  unfolding opened_def Report_def close_socket_def
  by (auto intro!: yields_intros)

text \<open>
  The socket that a failed MQTT connect leaves open: the one whose receive timeout could not be
  set, in a build with keep-alive. A failure before or after that leaves none.
\<close>

definition mqtt_leak :: "'w simplelink \<Rightarrow> string \<Rightarrow> 'w \<Rightarrow> int multiset" where
  "mqtt_leak dev host w =
     (case sl_NetAppDnsGetHostByName dev host w of ((r, _), w) \<Rightarrow>
      case sl_Socket dev w of (fd, w) \<Rightarrow>
      case KII_PUSH_KEEP_ALIVE_INTERVAL_SECONDS dev of
        None \<Rightarrow> {#}
      | Some n \<Rightarrow>
          if 0 \<le> r \<and> 0 \<le> fd \<and> fst (sl_SetSockOpt_RCVTIMEO dev fd (n * 2) w) \<noteq> 0 then {#fd#} else {#})"

text \<open>
  What a connect leaves behind: a success opens one socket, which is the context's; a failure
  leaves the context alone and the sockets \<open>leak\<close> open.
\<close>

definition connect_result :: "int multiset \<Rightarrow> 'w cs \<Rightarrow> kii_socket_code_t \<Rightarrow> 'w cs \<Rightarrow> bool" where
  "connect_result leak s c s' \<longleftrightarrow>
     (case c of
        KII_SOCKETC_OK \<Rightarrow> 0 \<le> cs_sock s' \<and> cs_open s' = add_mset (cs_sock s') (cs_open s)
      | KII_SOCKETC_FAIL \<Rightarrow> cs_sock s' = cs_sock s \<and> cs_open s' = cs_open s + leak)"

lemma connect_results:
  "yields (socket_connect_cb_cc3200 dev host port) s (connect_result {#} s)"
  "yields (mqtt_connect_cb_cc3200 dev host port) s (connect_result (mqtt_leak dev host (cs_net s)) s)"
  unfolding socket_connect_cb_cc3200_def mqtt_connect_cb_cc3200_def connect_socket_def
  by (intro yields_intros; auto simp: connect_result_def mqtt_leak_def split: prod.splits option.splits)+

text \<open>Traffic: sends and receives, by either pair of callbacks.\<close>

inductive cc3200_traffic :: "'w simplelink \<Rightarrow> 'w cs \<Rightarrow> 'w cs \<Rightarrow> bool" for dev s where
  quiet: "cc3200_traffic dev s s"
| sent: "cc3200_traffic dev s t \<Longrightarrow> socket_send_cb_cc3200 dev b n t = Inr (c, u) \<Longrightarrow> cc3200_traffic dev s u"
| received: "cc3200_traffic dev s t \<Longrightarrow> socket_recv_cb_cc3200 dev b n t = Inr (r, u) \<Longrightarrow> cc3200_traffic dev s u"
| mqtt_sent: "cc3200_traffic dev s t \<Longrightarrow> mqtt_send_cb_cc3200 dev b n t = Inr (c, u) \<Longrightarrow> cc3200_traffic dev s u"
| mqtt_received: "cc3200_traffic dev s t \<Longrightarrow> mqtt_recv_cb_cc3200 dev b n t = Inr (r, u) \<Longrightarrow> cc3200_traffic dev s u"

definition same_sockets :: "'w cs \<Rightarrow> 'w cs \<Rightarrow> bool" where
  "same_sockets s s' \<longleftrightarrow> cs_sock s' = cs_sock s \<and> cs_open s' = cs_open s"

lemma yields_precision [yields_intros]: "(\<And>t. Q t s) \<Longrightarrow> yields (print_precision n b) s Q"
  by (auto simp: print_precision_def yields_def cstr_def)

lemma traffic_steps:
  "yields (socket_send_cb_cc3200 dev b n) s (\<lambda>_. same_sockets s)"
  "yields (mqtt_send_cb_cc3200 dev b n) s (\<lambda>_. same_sockets s)"
  "yields (socket_recv_cb_cc3200 dev b n) s (\<lambda>_. same_sockets s)"
  "yields (mqtt_recv_cb_cc3200 dev b n) s (\<lambda>_. same_sockets s)"
  unfolding socket_send_cb_cc3200_def mqtt_send_cb_cc3200_def socket_recv_cb_cc3200_def
    mqtt_recv_cb_cc3200_def
  by (intro yields_intros; auto simp: same_sockets_def intro!: yields_intros)+

lemma traffic_sockets: "cc3200_traffic dev s s' \<Longrightarrow> same_sockets s s'"
proof (induction rule: cc3200_traffic.induct)
  case quiet
  show ?case by (simp add: same_sockets_def)
next
  case (sent t b n c u)
  from yieldsD [OF traffic_steps(1) sent(2)] sent(3) show ?case by (simp add: same_sockets_def)
next
  case (received t b n r u)
  from yieldsD [OF traffic_steps(3) received(2)] received(3) show ?case by (simp add: same_sockets_def)
next
  case (mqtt_sent t b n c u)
  from yieldsD [OF traffic_steps(2) mqtt_sent(2)] mqtt_sent(3) show ?case by (simp add: same_sockets_def)
next
  case (mqtt_received t b n r u)
  from yieldsD [OF traffic_steps(4) mqtt_received(2)] mqtt_received(3)
  show ?case by (simp add: same_sockets_def)
qed

lemma close_runs:
  "socket_close_cb_cc3200 dev s = Inr (KII_SOCKETC_OK,
     s\<lparr>cs_net := sl_Close dev (cs_sock s) (cs_net s), cs_open := cs_open s - {#cs_sock s#}, cs_sock := - 1\<rparr>)"
  "mqtt_close_cb_cc3200 dev = socket_close_cb_cc3200 dev"
  by (simp_all add: socket_close_cb_cc3200_def mqtt_close_cb_cc3200_def close_socket_def sl_def)

section \<open>Properties\<close>

text \<open>
  C32. The life of a socket on the CC3200. A connect that succeeds opens one socket and stores it;
  after any traffic the close callback succeeds, gives exactly that socket back and leaves the
  invalid descriptor behind. A plain connect that fails leaves no socket open. An MQTT connect
  that fails leaves none open either, with one exception: in a build with keep-alive the socket
  whose receive timeout cannot be set stays open.
\<close>

theorem cc3200_socket_life:
  assumes "socket_connect_cb_cc3200 dev host port s = Inr (c, s1) \<and> leak = {#} \<or>
    mqtt_connect_cb_cc3200 dev host port s = Inr (c, s1) \<and> leak = mqtt_leak dev host (cs_net s)"
    and "cc3200_traffic dev s1 s2"
  shows "(c = KII_SOCKETC_OK \<longrightarrow> (\<exists>s3. socket_close_cb_cc3200 dev s2 = Inr (KII_SOCKETC_OK, s3) \<and>
      mqtt_close_cb_cc3200 dev s2 = Inr (KII_SOCKETC_OK, s3) \<and>
      cs_open s2 = add_mset (cs_sock s2) (cs_open s) \<and> cs_open s3 = cs_open s \<and> cs_sock s3 = - 1)) \<and>
    (c = KII_SOCKETC_FAIL \<longrightarrow> cs_sock s1 = cs_sock s \<and> cs_open s1 = cs_open s + leak)"
proof -
  from assms(1) have result: "connect_result leak s c s1"
  proof
    assume a: "socket_connect_cb_cc3200 dev host port s = Inr (c, s1) \<and> leak = {#}"
    from yieldsD [OF connect_results(1) conjunct1 [OF a]] a show ?thesis by simp
  next
    assume a: "mqtt_connect_cb_cc3200 dev host port s = Inr (c, s1) \<and> leak = mqtt_leak dev host (cs_net s)"
    from yieldsD [OF connect_results(2) conjunct1 [OF a]] a show ?thesis by simp
  qed
  show ?thesis
  proof (intro conjI impI)
    assume "c = KII_SOCKETC_OK"
    with result traffic_sockets [OF assms(2)]
    show "\<exists>s3. socket_close_cb_cc3200 dev s2 = Inr (KII_SOCKETC_OK, s3) \<and>
        mqtt_close_cb_cc3200 dev s2 = Inr (KII_SOCKETC_OK, s3) \<and>
        cs_open s2 = add_mset (cs_sock s2) (cs_open s) \<and> cs_open s3 = cs_open s \<and> cs_sock s3 = - 1"
      by (simp add: connect_result_def same_sockets_def close_runs)
  qed (use result in \<open>simp_all add: connect_result_def\<close>)
qed

text \<open>A driver for the witness: every call succeeds but the receive timeout.\<close>

definition sample_simplelink :: "unit simplelink" where
  "sample_simplelink =
     \<lparr>sl_NetAppDnsGetHostByName = (\<lambda>h w. ((0, 1), w)), sl_Htons = id, sl_Htonl = id,
      sl_Socket = (\<lambda>w. (3, w)), sl_SetSockOpt_RCVTIMEO = (\<lambda>fd n w. (- 1, w)),
      sl_Connect = (\<lambda>fd a w. (0, w)), sl_Close = (\<lambda>fd w. w), sl_Send = (\<lambda>fd b n w. (1, w)),
      sl_Recv = (\<lambda>fd n w. ((0, []), w)), osi_TaskCreate = (\<lambda>e n z p q w. (0, w)),
      osi_Sleep = (\<lambda>n w. w), KII_PUSH_KEEP_ALIVE_INTERVAL_SECONDS = Some 30,
      KII_THING_IF_TASK_NAME_UPDATE_STATUS = ''status'', KII_TASK_NAME_RECV_MSG = ''recv'',
      KII_TASK_NAME_PING_REQ = ''ping''\<rparr>"

definition sample_cs :: "unit cs" where
  "sample_cs = \<lparr>cs_sock = - 1, cs_open = {#}, cs_net = (), cs_report = []\<rparr>"

theorem cc3200_socket_life_witness:
  "\<exists>s1 s3 s4. socket_connect_cb_cc3200 sample_simplelink ''host'' 80 sample_cs = Inr (KII_SOCKETC_OK, s1) \<and>
     socket_close_cb_cc3200 sample_simplelink s1 = Inr (KII_SOCKETC_OK, s3) \<and> cs_open s3 = {#} \<and>
     cs_sock s3 = - 1 \<and>
     mqtt_connect_cb_cc3200 sample_simplelink ''host'' 80 sample_cs = Inr (KII_SOCKETC_FAIL, s4) \<and>
     cs_open s4 = {#3#} \<and> cs_sock s4 = - 1"
proof -
  obtain s1 where s1: "socket_connect_cb_cc3200 sample_simplelink ''host'' 80 sample_cs
      = Inr (KII_SOCKETC_OK, s1)"
    by (simp add: socket_connect_cb_cc3200_def connect_socket_def sample_simplelink_def sl_def opened_def)
  obtain s4 where s4: "mqtt_connect_cb_cc3200 sample_simplelink ''host'' 80 sample_cs
      = Inr (KII_SOCKETC_FAIL, s4)"
    by (simp add: mqtt_connect_cb_cc3200_def sample_simplelink_def sl_def opened_def chain_def)
  have leak: "mqtt_leak sample_simplelink ''host'' (cs_net sample_cs) = {#3#}"
    by (simp add: mqtt_leak_def sample_simplelink_def)
  from cc3200_socket_life [OF disjI1 [OF conjI [OF s1 refl]] quiet]
    cc3200_socket_life [OF disjI2 [OF conjI [OF s4 refl]] quiet] s1 s4 leak
  show ?thesis by (auto simp: sample_cs_def)
qed

end
