(* ===== verification/Socket_Contract.thy ===== *)
theory Socket_Contract
  imports CC3200_Platform
begin

text \<open>
  What the platforms' socket callbacks promise to the Kii library, which connects, sends and
  receives, and closes again for every request: the interface \<open>socket_provider\<close>, with the TLS
  sockets of the Linux sample and the sockets of the CC3200 sample as its providers.
\<close>

section \<open>Using sockets again and again\<close>

text \<open>Connections that succeed, are used and are closed successfully, one after the other.\<close>

inductive socket_rounds ::
  "(string \<Rightarrow> 32 word \<Rightarrow> ('s, kii_socket_code_t) prog) \<Rightarrow> ('s \<Rightarrow> 's \<Rightarrow> bool) \<Rightarrow> ('s, kii_socket_code_t) prog \<Rightarrow>
     's \<Rightarrow> 's \<Rightarrow> bool"
  for connect used disconnect s where
  idle: "socket_rounds connect used disconnect s s"
| served: "socket_rounds connect used disconnect s t \<Longrightarrow> connect host port t = Inr (KII_SOCKETC_OK, u) \<Longrightarrow>
    used u v \<Longrightarrow> disconnect v = Inr (KII_SOCKETC_OK, w) \<Longrightarrow> socket_rounds connect used disconnect s w"

lemma socket_round:
  "connect host port s = Inr (KII_SOCKETC_OK, t) \<Longrightarrow> used t u \<Longrightarrow>
    disconnect u = Inr (KII_SOCKETC_OK, v) \<Longrightarrow> socket_rounds connect used disconnect s v"
  by (rule socket_rounds.served [OF socket_rounds.idle])

text \<open>The same with failed connects in between.\<close>

inductive socket_attempts ::
  "(string \<Rightarrow> 32 word \<Rightarrow> ('s, kii_socket_code_t) prog) \<Rightarrow> ('s \<Rightarrow> 's \<Rightarrow> bool) \<Rightarrow> ('s, kii_socket_code_t) prog \<Rightarrow>
     's \<Rightarrow> 's \<Rightarrow> bool"
  for connect used disconnect s where
  served_rounds: "socket_rounds connect used disconnect s t \<Longrightarrow> socket_attempts connect used disconnect s t"
| refused: "socket_attempts connect used disconnect s t \<Longrightarrow> connect host port t = Inr (KII_SOCKETC_FAIL, u) \<Longrightarrow>
    socket_rounds connect used disconnect u v \<Longrightarrow> socket_attempts connect used disconnect s v"

section \<open>The contract\<close>

text \<open>\<open>resources\<close> is what is in use: after a successful close as much as before the connect.\<close>

locale socket_provider =
  fixes connect :: "string \<Rightarrow> 32 word \<Rightarrow> ('s, kii_socket_code_t) prog"
    and used :: "'s \<Rightarrow> 's \<Rightarrow> bool"
    and disconnect :: "('s, kii_socket_code_t) prog"
    and resources :: "'s \<Rightarrow> 'r multiset"
  assumes given_back: "connect host port s = Inr (KII_SOCKETC_OK, t) \<Longrightarrow> used t u \<Longrightarrow>
    disconnect u = Inr (KII_SOCKETC_OK, v) \<Longrightarrow> resources v = resources s"
begin

lemma rounds_balanced: "socket_rounds connect used disconnect s t \<Longrightarrow> resources t = resources s"
  by (induction rule: socket_rounds.induct) (simp_all add: given_back)

end

text \<open>A provider whose connect also gives everything back when it fails.\<close>

locale clean_socket_provider = socket_provider +
  assumes nothing_kept: "connect host port s = Inr (KII_SOCKETC_FAIL, t) \<Longrightarrow> resources t = resources s"
begin

lemma attempts_balanced: "socket_attempts connect used disconnect s t \<Longrightarrow> resources t = resources s"
  by (induction rule: socket_attempts.induct) (simp_all add: rounds_balanced nothing_kept)

end

section \<open>The providers\<close>

interpretation tls: socket_provider "s_connect_cb os" "traffic os" "s_close_cb os" held
  for os :: "'w os"
proof unfold_locales
  fix host port s t u v
  assume "s_connect_cb os host port s = Inr (KII_SOCKETC_OK, t)" and used: "traffic os t u"
    and close: "s_close_cb os u = Inr (KII_SOCKETC_OK, v)"
  from s_connect_cb_outcome_OK [OF this(1)] obtain a n x where "connected a n x t"
    "held t = held s + {#Block a, Descriptor (sc_socket t), TlsContext x, TlsConnection n#}"
    by blast
  with traffic_resources [OF used] have "connected a n x u"
    "held u = held s + {#Block a, Descriptor (sc_socket u), TlsContext x, TlsConnection n#}"
    by (simp_all add: same_resources_def connected_def)
  from s_close_cb_connected [OF this, of os] close show "held v = held s" by auto
qed

lemma cc_given_back:
  assumes "connect_result leak s KII_SOCKETC_OK t" and "cc3200_traffic dev t u"
    and "socket_close_cb_cc3200 dev u = Inr (c, v)"
  shows "cs_open v = cs_open s"
  using assms(1,3) traffic_sockets [OF assms(2)]
  by (auto simp: close_runs connect_result_def same_sockets_def)

interpretation cc_plain: clean_socket_provider "socket_connect_cb_cc3200 dev" "cc3200_traffic dev"
    "socket_close_cb_cc3200 dev" cs_open
  for dev :: "'w simplelink"
  by unfold_locales
    (auto intro: cc_given_back dest: yieldsD [OF connect_results(1)] simp: connect_result_def)

interpretation cc_mqtt: socket_provider "mqtt_connect_cb_cc3200 dev" "cc3200_traffic dev"
    "mqtt_close_cb_cc3200 dev" cs_open
  for dev :: "'w simplelink"
  by unfold_locales (auto intro: cc_given_back dest: yieldsD [OF connect_results(2)] simp: close_runs(2))

text \<open>Without keep-alive the MQTT sockets are clean, too.\<close>

lemma cc_mqtt_clean:
  assumes "KII_PUSH_KEEP_ALIVE_INTERVAL_SECONDS dev = None"
  shows "clean_socket_provider (mqtt_connect_cb_cc3200 dev) (cc3200_traffic dev) (mqtt_close_cb_cc3200 dev) cs_open"
proof unfold_locales
  fix host port s t
  assume "mqtt_connect_cb_cc3200 dev host port s = Inr (KII_SOCKETC_FAIL, t)"
  from yieldsD [OF connect_results(2) this] assms show "cs_open t = cs_open s"
    by (simp add: connect_result_def mqtt_leak_def split: prod.splits)
qed

section \<open>Properties\<close>

text \<open>
  C13. Reconnecting leaks nothing. However often the TLS sockets of the Linux sample are connected,
  used and closed successfully, the memory, descriptors and TLS objects in use are those of the
  beginning. In every build of the CC3200 sample the plain sockets stay balanced even when
  connects fail in between, and the MQTT ones as long as no connect fails; in a build without
  keep-alive the MQTT ones stay balanced with failed connects, too.
\<close>

theorem reconnecting_leaks_nothing:
  assumes "socket_rounds (s_connect_cb os) (traffic os) (s_close_cb os) s s'"
    and "socket_attempts (socket_connect_cb_cc3200 dev) (cc3200_traffic dev) (socket_close_cb_cc3200 dev) t t'"
    and "socket_rounds (mqtt_connect_cb_cc3200 dev) (cc3200_traffic dev) (mqtt_close_cb_cc3200 dev) u u'"
    and "KII_PUSH_KEEP_ALIVE_INTERVAL_SECONDS dev' = None"
    and "socket_attempts (mqtt_connect_cb_cc3200 dev') (cc3200_traffic dev') (mqtt_close_cb_cc3200 dev') v v'"
  shows "held s' = held s \<and> cs_open t' = cs_open t \<and> cs_open u' = cs_open u \<and> cs_open v' = cs_open v"
  using tls.rounds_balanced [OF assms(1)] cc_plain.attempts_balanced [OF assms(2)]
    cc_mqtt.rounds_balanced [OF assms(3)]
    clean_socket_provider.attempts_balanced [OF cc_mqtt_clean [OF assms(4)] assms(5)] by simp

text \<open>
  One served connection of each kind for the witness, the CC3200 ones with a keep-alive interval
  of 60 seconds as in the projects of the repository and the last one without; one connect of
  the plain sockets fails before.
\<close>

definition sample_keep_alive :: "bool simplelink" where
  "sample_keep_alive =
     \<lparr>sl_NetAppDnsGetHostByName = (\<lambda>h w. ((0, 1), w)), sl_Htons = id, sl_Htonl = id,
      sl_Socket = (\<lambda>w. (3, w)), sl_SetSockOpt_RCVTIMEO = (\<lambda>fd n w. (0, w)),
      sl_Connect = (\<lambda>fd a w. (if w then 0 else - 1, True)), sl_Close = (\<lambda>fd w. w), sl_Send = (\<lambda>fd b n w. (1, w)),
      sl_Recv = (\<lambda>fd n w. ((0, []), w)), osi_TaskCreate = (\<lambda>e n z p q w. (0, w)),
      osi_Sleep = (\<lambda>n w. w), KII_PUSH_KEEP_ALIVE_INTERVAL_SECONDS = Some 60,
      KII_THING_IF_TASK_NAME_UPDATE_STATUS = ''status'', KII_TASK_NAME_RECV_MSG = ''recv'',
      KII_TASK_NAME_PING_REQ = ''ping''\<rparr>"

definition sample_no_keep_alive :: "bool simplelink" where
  "sample_no_keep_alive = sample_keep_alive\<lparr>KII_PUSH_KEEP_ALIVE_INTERVAL_SECONDS := None\<rparr>"

definition sample_station_cs :: "bool \<Rightarrow> bool cs" where
  "sample_station_cs b = \<lparr>cs_sock = - 1, cs_open = {#}, cs_net = b, cs_report = []\<rparr>"

lemma sample_tls_round:
  "\<exists>s. socket_rounds (s_connect_cb sample_os) (traffic sample_os) (s_close_cb sample_os) (sample_ls 1) s \<and>
     net s = 1"
proof -
  obtain s1 where s1: "s_connect_cb sample_os ''host'' 443 (sample_ls 1) = Inr (KII_SOCKETC_OK, s1)"
    and close: "\<exists>s2. s_close_cb sample_os s1 = Inr (KII_SOCKETC_OK, s2) \<and> net s2 = 1"
    by (simp add: s_connect_cb_def s_close_cb_def sample_os_def sample_ls_def malloc_zeroed_def sys_def
        acquire_def say_def free_block_def release_def context_block_def connection_def in_use_def)
  from close obtain s2 where "s_close_cb sample_os s1 = Inr (KII_SOCKETC_OK, s2)" "net s2 = 1" by blast
  with socket_round [of "s_connect_cb sample_os", OF s1, of "traffic sample_os"] silent show ?thesis by blast
qed

lemmas sample_connects = socket_connect_cb_cc3200_def mqtt_connect_cb_cc3200_def connect_socket_def
  close_socket_def sample_no_keep_alive_def sample_keep_alive_def sample_station_cs_def sl_def opened_def

lemma sample_plain_attempts:
  "\<exists>t. socket_attempts (socket_connect_cb_cc3200 sample_keep_alive) (cc3200_traffic sample_keep_alive)
     (socket_close_cb_cc3200 sample_keep_alive) (sample_station_cs False) t \<and> cs_sock t = - 1"
proof -
  obtain r where r: "socket_connect_cb_cc3200 sample_keep_alive ''host'' 80 (sample_station_cs False) =
      Inr (KII_SOCKETC_FAIL, r)" and "r = sample_station_cs True"
    by (simp add: sample_connects)
  moreover obtain t where "socket_connect_cb_cc3200 sample_keep_alive ''host'' 80 (sample_station_cs True) =
      Inr (KII_SOCKETC_OK, t)"
    by (simp add: sample_connects)
  ultimately have t: "socket_connect_cb_cc3200 sample_keep_alive ''host'' 80 r = Inr (KII_SOCKETC_OK, t)"
    by simp
  from refused [OF served_rounds [OF idle] r socket_round [of "socket_connect_cb_cc3200 sample_keep_alive", OF t,
      of "cc3200_traffic sample_keep_alive", OF quiet, of "socket_close_cb_cc3200 sample_keep_alive",
      OF close_runs(1)]]
  show ?thesis by (intro exI conjI, assumption) simp
qed

lemma sample_mqtt_rounds:
  "\<exists>u. socket_rounds (mqtt_connect_cb_cc3200 sample_keep_alive) (cc3200_traffic sample_keep_alive)
     (mqtt_close_cb_cc3200 sample_keep_alive) (sample_station_cs True) u \<and> cs_sock u = - 1"
  "\<exists>v. socket_rounds (mqtt_connect_cb_cc3200 sample_no_keep_alive) (cc3200_traffic sample_no_keep_alive)
     (mqtt_close_cb_cc3200 sample_no_keep_alive) (sample_station_cs True) v \<and> cs_sock v = - 1"
proof -
  obtain u where u: "mqtt_connect_cb_cc3200 sample_keep_alive ''host'' 80 (sample_station_cs True) =
      Inr (KII_SOCKETC_OK, u)"
    by (simp add: sample_connects)
  from socket_round [of "mqtt_connect_cb_cc3200 sample_keep_alive", OF u,
      of "cc3200_traffic sample_keep_alive", OF quiet, of "socket_close_cb_cc3200 sample_keep_alive",
      OF close_runs(1)]
  show "\<exists>u. socket_rounds (mqtt_connect_cb_cc3200 sample_keep_alive) (cc3200_traffic sample_keep_alive)
     (mqtt_close_cb_cc3200 sample_keep_alive) (sample_station_cs True) u \<and> cs_sock u = - 1"
    unfolding close_runs(2) by (intro exI conjI, assumption) simp
  obtain v where v: "mqtt_connect_cb_cc3200 sample_no_keep_alive ''host'' 80 (sample_station_cs True) =
      Inr (KII_SOCKETC_OK, v)"
    by (simp add: sample_connects)
  from socket_round [of "mqtt_connect_cb_cc3200 sample_no_keep_alive", OF v,
      of "cc3200_traffic sample_no_keep_alive", OF quiet, of "socket_close_cb_cc3200 sample_no_keep_alive",
      OF close_runs(1)]
  show "\<exists>v. socket_rounds (mqtt_connect_cb_cc3200 sample_no_keep_alive) (cc3200_traffic sample_no_keep_alive)
     (mqtt_close_cb_cc3200 sample_no_keep_alive) (sample_station_cs True) v \<and> cs_sock v = - 1"
    unfolding close_runs(2) by (intro exI conjI, assumption) simp
qed

theorem reconnecting_leaks_nothing_witness:
  "\<exists>s t u v. socket_rounds (s_connect_cb sample_os) (traffic sample_os) (s_close_cb sample_os) (sample_ls 1) s \<and>
     held s = {#} \<and> cs_open (t :: bool cs) = {#} \<and> cs_sock t = - 1 \<and>
     cs_open (u :: bool cs) = {#} \<and> cs_sock u = - 1 \<and> cs_open (v :: bool cs) = {#} \<and> cs_sock v = - 1"
proof -
  obtain s t u v
    where s: "socket_rounds (s_connect_cb sample_os) (traffic sample_os) (s_close_cb sample_os) (sample_ls 1) s"
    and t: "socket_attempts (socket_connect_cb_cc3200 sample_keep_alive) (cc3200_traffic sample_keep_alive)
      (socket_close_cb_cc3200 sample_keep_alive) (sample_station_cs False) t" "cs_sock t = - 1"
    and u: "socket_rounds (mqtt_connect_cb_cc3200 sample_keep_alive) (cc3200_traffic sample_keep_alive)
      (mqtt_close_cb_cc3200 sample_keep_alive) (sample_station_cs True) u" "cs_sock u = - 1"
    and v: "socket_rounds (mqtt_connect_cb_cc3200 sample_no_keep_alive) (cc3200_traffic sample_no_keep_alive)
      (mqtt_close_cb_cc3200 sample_no_keep_alive) (sample_station_cs True) v" "cs_sock v = - 1"
    using sample_tls_round sample_plain_attempts sample_mqtt_rounds by blast
  have "KII_PUSH_KEEP_ALIVE_INTERVAL_SECONDS sample_no_keep_alive = None"
    by (simp add: sample_no_keep_alive_def)
  from reconnecting_leaks_nothing [OF s t(1) u(1) this served_rounds [OF v(1)]] s t(2) u(2) v(2)
  show ?thesis by (auto simp: sample_ls_def sample_station_cs_def)
qed

end
