(* ===== verification/CC3200_Wlan.thy ===== *)
theory CC3200_Wlan
  imports Prelude
begin

text \<open>
  The network part of the CC3200 sample application (cc3200-sample/freertos_thingsdk_demo/main.c):
  the handlers of the driver's asynchronous events, \<open>ConfigureSimpleLinkToDefaultState\<close>,
  \<open>WlanConnect\<close> and \<open>main\<close>; and pinmux.c beside it.

  TI's driver, OS layer and macros are fields of \<open>ti\<close>. Events arrive while the program is in a
  call of the driver (the call returns them) or while it waits for one (\<open>pending\<close>, in the order
  of arrival); the program reads the status word nowhere else. A wait that has not ended when
  \<open>pending\<close> is used up has the result \<open>None\<close>.
\<close>

section \<open>Events and calls of the driver\<close>

text \<open>The events with the part of \<open>EventData\<close> that their handlers read.\<close>

datatype SlWlanEvent_t =
    SL_WLAN_CONNECT_EVENT (ssid_name: "char list") (ssid_len: nat) (bssid: "8 word list")
  | SL_WLAN_DISCONNECT_EVENT (reason_code: nat)
  | SL_WLAN_unlisted nat

datatype SlNetAppEvent_t =
    SL_NETAPP_IPV4_IPACQUIRED_EVENT (ip: "32 word") (gateway: "32 word")
  | SL_NETAPP_unlisted nat

record SlDeviceEvent_t =
  dev_status :: int
  dev_sender :: int

datatype SlSockEvent_t =
    SL_SOCKET_TX_FAILED_EVENT (tx_status: int) (tx_sd: int)
  | SL_SOCKET_unlisted nat

text \<open>A call of one of the handlers; the pointer it gets may be NULL.\<close>

datatype async_event =
    WlanEvent "SlWlanEvent_t option"
  | NetAppEvent "SlNetAppEvent_t option"
  | GeneralEvent "SlDeviceEvent_t option"
  | SockEvent "SlSockEvent_t option"

datatype sl_policy =
    SL_CONNECTION_POLICY nat nat nat nat nat
  | SL_SCAN_POLICY nat
  | SL_NORMAL_POLICY

datatype ti_call =
    MAP_IntVTableBaseSet
  | MAP_IntMasterEnable
  | MAP_IntEnable_FAULT_SYSTICK
  | PRCMCC3200MCUInit
  | UDMAInit
  | MAP_PRCMPeripheralClkEnable nat nat
  | MAP_PinTypeUART nat nat
  | InitTerm
  | ClearTerm
  | sl_Start
  | sl_Stop nat
  | sl_WlanSetMode int
  | sl_DevGet_version
  | sl_WlanPolicySet sl_policy
  | sl_WlanProfileDel int
  | sl_WlanDisconnect
  | sl_NetCfgSet_DHCP "8 word"
  | sl_WlanSet_TX_POWER "8 word"
  | sl_NetAppMDNSUnRegisterService
  | sl_WlanRxFilterSet_REMOVE "8 word list"
  | sl_WlanConnect string string int
  | osi_MsgQCreate string nat nat
  | osi_LockObjCreate
  | osi_TaskCreate_call string string nat nat
  | osi_start

text \<open>
  \<open>ti_run\<close> is what a call does: its result and the events that arrive before it returns.
  \<open>ASSERT_ON_ERROR\<close> returns from the function that uses it or does nothing: for a value that makes
  it return, \<open>assert_text\<close> is what it prints. \<open>ti_vtable\<close> says whether the build sets the vector
  table.
\<close>

record 'w ti =
  ti_run :: "ti_call \<Rightarrow> 'w \<Rightarrow> int \<times> async_event list \<times> 'w"
  ti_version :: "'w \<Rightarrow> (nat list \<times> nat list \<times> nat list)"
  ti_vtable :: bool
  SET_STATUS_BIT :: "32 word \<Rightarrow> nat \<Rightarrow> 32 word"
  CLR_STATUS_BIT :: "32 word \<Rightarrow> nat \<Rightarrow> 32 word"
  IS_CONNECTED :: "32 word \<Rightarrow> bool"
  IS_IP_ACQUIRED :: "32 word \<Rightarrow> bool"
  STATUS_BIT_CONNECTION :: nat
  STATUS_BIT_IP_AQUIRED :: nat
  SL_IPV4_BYTE :: "32 word \<Rightarrow> nat \<Rightarrow> 32 word"
  ASSERT_ON_ERROR :: "int \<Rightarrow> bool"
  assert_text :: "int \<Rightarrow> string"
  SSID_LEN_MAX :: nat
  BSSID_LEN_MAX :: nat
  SL_BSSID_LENGTH :: nat
  FILTER_BUFFER_REST :: nat
  SL_WLAN_DISCONNECT_USER_INITIATED_DISCONNECTION :: nat
  SL_ECLOSE :: int
  SL_STOP_TIMEOUT :: nat
  ROLE_STA :: int
  ROLE_AP :: int
  OSI_OK :: int
  SUCCESS :: int
  SL_DRIVER_VERSION :: string
  SSID_NAME :: string
  SECURITY_KEY :: string
  SECURITY_TYPE :: int
  PRCM_UARTA0 :: nat
  PRCM_RUN_MODE_CLK :: nat
  PIN_55 :: nat
  PIN_57 :: nat
  PIN_MODE_3 :: nat

section \<open>The application's variables\<close>

definition IP_ADDR :: "32 word" where "IP_ADDR = 0xc0a80016"
definition PORT_NUM :: "32 word" where "PORT_NUM = 5201"
definition TCP_PACKET_COUNT :: "32 word" where "TCP_PACKET_COUNT = 1"
definition APP_NAME :: string where "APP_NAME = ''ThingSDK Demo''"
definition MAX_MSG_LENGTH :: nat where "MAX_MSG_LENGTH = 16"
definition OSI_STACK_SIZE :: nat where "OSI_STACK_SIZE = 2048"

definition DEVICE_NOT_IN_STATION_MODE :: int where
  "DEVICE_NOT_IN_STATION_MODE = - 0x7D0 - 9"

text \<open>
  \<open>ti_log\<close> is no variable of the program: it lists the calls of the driver with their results and
  the status word that they were made with.
\<close>

record 'w cc_app =
  g_ulStatus :: "32 word"
  g_ulGatewayIP :: "32 word"
  g_ucConnectionSSID :: "char list"
  g_ucConnectionBSSID :: "8 word list"
  g_ulDestinationIp :: "32 word"
  g_uiPortNum :: "32 word"
  g_ulPacketCount :: "32 word"
  g_ulIpAddr :: "32 word"
  uart :: string
  pending :: "async_event list"
  ti_log :: "(ti_call \<times> int \<times> 32 word) list"
  device :: 'w

definition UART_PRINT :: "string \<Rightarrow> ('w cc_app, unit) prog" where
  "UART_PRINT t = modify (\<lambda>s. s\<lparr>uart := uart s @ t\<rparr>)"

definition CR :: string where "CR = [CHR 0x0D]"
definition LF :: string where "LF = [CHR 0x0A]"
definition TAB :: string where "TAB = [CHR 0x09]"

text \<open>\<open>%x\<close>\<close>

fun show_hex :: "nat \<Rightarrow> string" where
  "show_hex n =
     (let d = n mod 16; c = [if d < 10 then char_of (48 + d) else char_of (87 + d)]
      in if n < 16 then c else show_hex (n div 16) @ c)"

declare show_hex.simps [simp del]

definition join :: "string \<Rightarrow> string list \<Rightarrow> string" where
  "join sep ts = concat (map (\<lambda>t. t @ sep) (butlast ts)) @ concat (take 1 (rev ts))"

text \<open>The first six entries of an array of \<open>unsigned char\<close>, printed with \<open>%x:%x:%x:%x:%x:%x\<close>.\<close>

definition bssid_text :: "8 word list \<Rightarrow> ('s, string) prog" where
  "bssid_text b =
     (if 6 \<le> length b then ret (join '':'' (map (\<lambda>w. show_hex (unat w)) (take 6 b)))
      else fail OutOfBounds)"

definition memcpy :: "'a list \<Rightarrow> 'a list \<Rightarrow> nat \<Rightarrow> ('s, 'a list) prog" where
  "memcpy dst src n =
     (if n \<le> length dst \<and> n \<le> length src then ret (take n src @ drop n dst) else fail OutOfBounds)"

definition ip_text :: "'w ti \<Rightarrow> 32 word \<Rightarrow> string" where
  "ip_text ti a = join ''.'' (map (\<lambda>i. show_int (sint (SL_IPV4_BYTE ti a i))) [3, 2, 1, 0])"

section \<open>Event handlers\<close>

definition SimpleLinkWlanEventHandler :: "'w ti \<Rightarrow> SlWlanEvent_t option \<Rightarrow> ('w cc_app, unit) prog"
where
  "SimpleLinkWlanEventHandler ti pWlanEvent =
     (case pWlanEvent of
        None \<Rightarrow> ret ()
      | Some (SL_WLAN_CONNECT_EVENT name len mac) \<Rightarrow>
          chain (modify (\<lambda>s. s\<lparr>g_ulStatus := SET_STATUS_BIT ti (g_ulStatus s) (STATUS_BIT_CONNECTION ti)\<rparr>)) (\<lambda>_.
          chain (gets g_ucConnectionSSID) (\<lambda>a.
          chain (memcpy a name len) (\<lambda>a.
          chain (modify (\<lambda>s. s\<lparr>g_ucConnectionSSID := a\<rparr>)) (\<lambda>_.
          chain (gets g_ucConnectionBSSID) (\<lambda>b.
          chain (memcpy b mac (SL_BSSID_LENGTH ti)) (\<lambda>b.
          chain (modify (\<lambda>s. s\<lparr>g_ucConnectionBSSID := b\<rparr>)) (\<lambda>_.
          chain (cstr a) (\<lambda>t.
          chain (bssid_text b) (\<lambda>x.
          UART_PRINT (''[WLAN EVENT] STA Connected to the AP: '' @ t @ '' , BSSID: '' @ x @ LF @ CR))))))))))
      | Some (SL_WLAN_DISCONNECT_EVENT reason) \<Rightarrow>
          chain (modify (\<lambda>s. s\<lparr>g_ulStatus := CLR_STATUS_BIT ti (g_ulStatus s) (STATUS_BIT_CONNECTION ti)\<rparr>)) (\<lambda>_.
          chain (modify (\<lambda>s. s\<lparr>g_ulStatus := CLR_STATUS_BIT ti (g_ulStatus s) (STATUS_BIT_IP_AQUIRED ti)\<rparr>)) (\<lambda>_.
          chain (gets g_ucConnectionSSID) (\<lambda>a.
          chain (gets g_ucConnectionBSSID) (\<lambda>b.
          chain (cstr a) (\<lambda>t.
          chain (bssid_text b) (\<lambda>x.
          chain (if SL_WLAN_DISCONNECT_USER_INITIATED_DISCONNECTION ti = reason
            then UART_PRINT (''[WLAN EVENT]Device disconnected from the AP: '' @ t @ '',BSSID: '' @ x @
              '' on application'' @ [CHR 0x27] @ ''s request '' @ LF @ CR)
            else UART_PRINT (''[WLAN ERROR]Device disconnected from the AP AP: '' @ t @ '',BSSID: '' @ x @
              '' on an ERROR..!! '' @ LF @ CR)) (\<lambda>_.
          modify (\<lambda>s. s\<lparr>g_ucConnectionSSID := replicate (length a) NUL,
            g_ucConnectionBSSID := replicate (length b) 0\<rparr>))))))))
      | Some (SL_WLAN_unlisted n) \<Rightarrow>
          UART_PRINT (''[WLAN EVENT] Unexpected event [0x'' @ show_hex n @ '']'' @ LF @ CR))"

definition SimpleLinkNetAppEventHandler :: "'w ti \<Rightarrow> SlNetAppEvent_t option \<Rightarrow> ('w cc_app, unit) prog"
where
  "SimpleLinkNetAppEventHandler ti pNetAppEvent =
     (case pNetAppEvent of
        None \<Rightarrow> ret ()
      | Some (SL_NETAPP_IPV4_IPACQUIRED_EVENT a g) \<Rightarrow>
          chain (modify (\<lambda>s. s\<lparr>g_ulStatus := SET_STATUS_BIT ti (g_ulStatus s) (STATUS_BIT_IP_AQUIRED ti)\<rparr>)) (\<lambda>_.
          chain (modify (\<lambda>s. s\<lparr>g_ulIpAddr := a\<rparr>)) (\<lambda>_.
          chain (modify (\<lambda>s. s\<lparr>g_ulGatewayIP := g\<rparr>)) (\<lambda>_.
          UART_PRINT (''[NETAPP EVENT] IP Acquired: IP='' @ ip_text ti a @ '' , Gateway='' @ ip_text ti g @ LF @ CR))))
      | Some (SL_NETAPP_unlisted n) \<Rightarrow>
          UART_PRINT (''[NETAPP EVENT] Unexpected event [0x'' @ show_hex n @ ''] '' @ LF @ CR))"

definition SimpleLinkGeneralEventHandler :: "SlDeviceEvent_t option \<Rightarrow> ('w cc_app, unit) prog" where
  "SimpleLinkGeneralEventHandler pDevEvent =
     (case pDevEvent of
        None \<Rightarrow> ret ()
      | Some e \<Rightarrow>
          UART_PRINT (''[GENERAL EVENT] - ID=['' @ show_int (dev_status e) @ ''] Sender=['' @
            show_int (dev_sender e) @ '']'' @ LF @ LF))"

definition SimpleLinkSockEventHandler :: "'w ti \<Rightarrow> SlSockEvent_t option \<Rightarrow> ('w cc_app, unit) prog" where
  "SimpleLinkSockEventHandler ti pSock =
     (case pSock of
        None \<Rightarrow> ret ()
      | Some (SL_SOCKET_TX_FAILED_EVENT status sd) \<Rightarrow>
          if status = SL_ECLOSE ti then
            UART_PRINT (''[SOCK ERROR] - close socket ('' @ show_int sd @
              '') operation failed to transmit all queued packets'' @ LF @ LF)
          else
            UART_PRINT (''[SOCK ERROR] - TX FAILED  :  socket '' @ show_int sd @ '' , reason ('' @
              show_int status @ '') '' @ LF @ LF)
      | Some (SL_SOCKET_unlisted n) \<Rightarrow>
          UART_PRINT (''[SOCK EVENT] - Unexpected Event ['' @ show_hex n @ ''0x]'' @ LF @ LF))"

primrec deliver :: "'w ti \<Rightarrow> async_event \<Rightarrow> ('w cc_app, unit) prog" where
  "deliver ti (WlanEvent e) = SimpleLinkWlanEventHandler ti e"
| "deliver ti (NetAppEvent e) = SimpleLinkNetAppEventHandler ti e"
| "deliver ti (GeneralEvent e) = SimpleLinkGeneralEventHandler e"
| "deliver ti (SockEvent e) = SimpleLinkSockEventHandler ti e"

primrec deliver_all :: "'w ti \<Rightarrow> async_event list \<Rightarrow> ('w cc_app, unit) prog" where
  "deliver_all ti [] = ret ()"
| "deliver_all ti (e # es) = chain (deliver ti e) (\<lambda>_. deliver_all ti es)"

definition call_ti :: "'w ti \<Rightarrow> ti_call \<Rightarrow> ('w cc_app, int) prog" where
  "call_ti ti c =
     chain (\<lambda>s. case ti_run ti c (device s) of (r, es, w) \<Rightarrow>
       Inr ((r, es), s\<lparr>device := w, ti_log := ti_log s @ [(c, r, g_ulStatus s)]\<rparr>)) (\<lambda>(r, es).
     chain (deliver_all ti es) (\<lambda>_. ret r))"

text \<open>
  \<open>while (!condition(g_ulStatus)) { ... }\<close>: the condition is tested before each event. The result
  is the events left when it held, \<open>None\<close> if it never did.
\<close>

primrec wait_on ::
  "'w ti \<Rightarrow> (32 word \<Rightarrow> bool) \<Rightarrow> async_event list \<Rightarrow> ('w cc_app, async_event list option) prog" where
  "wait_on ti c [] = chain (gets g_ulStatus) (\<lambda>v. ret (if c v then Some [] else None))"
| "wait_on ti c (e # es) =
     chain (gets g_ulStatus) (\<lambda>v.
     if c v then ret (Some (e # es)) else chain (deliver ti e) (\<lambda>_. wait_on ti c es))"

definition wait_until :: "'w ti \<Rightarrow> (32 word \<Rightarrow> bool) \<Rightarrow> ('w cc_app, bool) prog" where
  "wait_until ti c =
     chain (gets pending) (\<lambda>es.
     chain (wait_on ti c es) (\<lambda>r.
     case r of
       None \<Rightarrow> chain (modify (\<lambda>s. s\<lparr>pending := []\<rparr>)) (\<lambda>_. ret False)
     | Some es' \<Rightarrow> chain (modify (\<lambda>s. s\<lparr>pending := es'\<rparr>)) (\<lambda>_. ret True)))"

section \<open>Configuration and connection\<close>

definition InitializeAppVariables :: "('w cc_app, unit) prog" where
  "InitializeAppVariables =
     modify (\<lambda>s. s\<lparr>g_ulStatus := 0, g_ulGatewayIP := 0,
       g_ucConnectionSSID := replicate (length (g_ucConnectionSSID s)) NUL,
       g_ucConnectionBSSID := replicate (length (g_ucConnectionBSSID s)) 0,
       g_ulDestinationIp := IP_ADDR, g_uiPortNum := PORT_NUM, g_ulPacketCount := TCP_PACKET_COUNT\<rparr>)"

text \<open>\<open>ASSERT_ON_ERROR(r)\<close> and the statements \<open>k\<close> behind it, in a function that returns a \<open>long\<close>.\<close>

definition on_error :: "'w ti \<Rightarrow> int \<Rightarrow> ('w cc_app, int option) prog \<Rightarrow> ('w cc_app, int option) prog" where
  "on_error ti r k =
     (if ASSERT_ON_ERROR ti r then chain (UART_PRINT (assert_text ti r)) (\<lambda>_. ret (Some r)) else k)"

text \<open>\<open>lRetVal = call; ASSERT_ON_ERROR(lRetVal);\<close>\<close>

definition checked :: "'w ti \<Rightarrow> ti_call \<Rightarrow> (int \<Rightarrow> ('w cc_app, int option) prog) \<Rightarrow> ('w cc_app, int option) prog"
where
  "checked ti c k = chain (call_ti ti c) (\<lambda>r. on_error ti r (k r))"

text \<open>\<open>ver\<close> is \<open>NwpVersion\<close>, \<open>FwVersion\<close> and \<open>PhyVersion\<close>, four numbers each.\<close>

definition print_version :: "'w ti \<Rightarrow> ('w cc_app, unit) prog" where
  "print_version ti =
     chain (UART_PRINT (''Host Driver Version: '' @ SL_DRIVER_VERSION ti @ LF @ CR)) (\<lambda>_.
     chain (gets (\<lambda>s. ti_version ti (device s))) (\<lambda>(nwp, fw, phy).
     UART_PRINT (''Build Version '' @
       join ''.'' (map show_nat (take 4 nwp @ [31] @ take 4 fw @ take 4 phy)) @ LF @ CR)))"

definition configure_rest :: "'w ti \<Rightarrow> ('w cc_app, int option) prog" where
  "configure_rest ti =
     checked ti (sl_NetCfgSet_DHCP 1) (\<lambda>_.
     checked ti (sl_WlanPolicySet (SL_SCAN_POLICY 0)) (\<lambda>_.
     checked ti (sl_WlanSet_TX_POWER 0) (\<lambda>_.
     checked ti (sl_WlanPolicySet SL_NORMAL_POLICY) (\<lambda>_.
     checked ti sl_NetAppMDNSUnRegisterService (\<lambda>_.
     checked ti (sl_WlanRxFilterSet_REMOVE (replicate 8 0xFF @ replicate (FILTER_BUFFER_REST ti) 0)) (\<lambda>_.
     checked ti (sl_Stop (SL_STOP_TIMEOUT ti)) (\<lambda>lRetVal.
     chain InitializeAppVariables (\<lambda>_. ret (Some lRetVal)))))))))"

definition configure_station :: "'w ti \<Rightarrow> ('w cc_app, int option) prog" where
  "configure_station ti =
     checked ti sl_DevGet_version (\<lambda>_.
     chain (print_version ti) (\<lambda>_.
     checked ti (sl_WlanPolicySet (SL_CONNECTION_POLICY 1 0 0 0 1)) (\<lambda>_.
     checked ti (sl_WlanProfileDel 0xFF) (\<lambda>_.
     chain (call_ti ti sl_WlanDisconnect) (\<lambda>lRetVal.
     chain (if lRetVal = 0 then wait_until ti (\<lambda>v. \<not> IS_CONNECTED ti v) else ret True) (\<lambda>ok.
     if ok then configure_rest ti else ret None))))))"

definition ConfigureSimpleLinkToDefaultState :: "'w ti \<Rightarrow> ('w cc_app, int option) prog" where
  "ConfigureSimpleLinkToDefaultState ti =
     checked ti sl_Start (\<lambda>lMode.
     if ROLE_STA ti = lMode then configure_station ti
     else
       chain (if ROLE_AP ti = lMode then wait_until ti (IS_IP_ACQUIRED ti) else ret True) (\<lambda>ok.
       if \<not> ok then ret None
       else
         checked ti (sl_WlanSetMode (ROLE_STA ti)) (\<lambda>_.
         checked ti (sl_Stop 0xFF) (\<lambda>_.
         checked ti sl_Start (\<lambda>lRetVal.
         if ROLE_STA ti \<noteq> lRetVal then ret (Some DEVICE_NOT_IN_STATION_MODE)
         else configure_station ti)))))"

definition WlanConnect :: "'w ti \<Rightarrow> ('w cc_app, int option) prog" where
  "WlanConnect ti =
     checked ti (sl_WlanConnect (SSID_NAME ti) (SECURITY_KEY ti) (SECURITY_TYPE ti)) (\<lambda>_.
     chain (wait_until ti (\<lambda>v. IS_CONNECTED ti v \<and> IS_IP_ACQUIRED ti v)) (\<lambda>ok.
     ret (if ok then Some (SUCCESS ti) else None)))"

section \<open>Start of the program\<close>

definition DisplayBanner :: "string \<Rightarrow> ('w cc_app, unit) prog" where
  "DisplayBanner AppName =
     chain (UART_PRINT (LF @ LF @ LF @ CR)) (\<lambda>_.
     chain (UART_PRINT (TAB @ TAB @ '' *************************************************'' @ LF @ CR)) (\<lambda>_.
     chain (UART_PRINT (TAB @ TAB @ ''    CC3200 '' @ AppName @ '' Application       '' @ LF @ CR)) (\<lambda>_.
     chain (UART_PRINT (TAB @ TAB @ '' *************************************************'' @ LF @ CR)) (\<lambda>_.
     UART_PRINT (LF @ LF @ LF @ CR)))))"

primrec call_each :: "'w ti \<Rightarrow> ti_call list \<Rightarrow> ('w cc_app, unit) prog" where
  "call_each ti [] = ret ()"
| "call_each ti (c # cs) = chain (call_ti ti c) (\<lambda>_. call_each ti cs)"

definition BoardInit :: "'w ti \<Rightarrow> ('w cc_app, unit) prog" where
  "BoardInit ti =
     call_each ti ((if ti_vtable ti then [MAP_IntVTableBaseSet] else []) @
       [MAP_IntMasterEnable, MAP_IntEnable_FAULT_SYSTICK, PRCMCC3200MCUInit])"

text \<open>pinmux.c: the clock of the UART and the pins of its two signals.\<close>

definition PinMuxConfig :: "'w ti \<Rightarrow> ('w cc_app, unit) prog" where
  "PinMuxConfig ti =
     call_each ti
       [MAP_PRCMPeripheralClkEnable (PRCM_UARTA0 ti) (PRCM_RUN_MODE_CLK ti),
        MAP_PinTypeUART (PIN_55 ti) (PIN_MODE_3 ti),
        MAP_PinTypeUART (PIN_57 ti) (PIN_MODE_3 ti)]"

text \<open>How \<open>main\<close> ends: not yet, in an endless loop of its own, or with the scheduler.\<close>

datatype main_end = Waits | LoopsForever | Returns int

definition start_tasks :: "'w ti \<Rightarrow> ('w cc_app, main_end) prog" where
  "start_tasks ti =
     chain (call_ti ti (osi_MsgQCreate ''MSGQ'' MAX_MSG_LENGTH 10)) (\<lambda>r.
     if r \<noteq> OSI_OK ti then ret LoopsForever
     else
       chain (call_ti ti osi_LockObjCreate) (\<lambda>r.
       chain (if r \<noteq> OSI_OK ti then UART_PRINT (''create mutex failed.'' @ LF @ CR) else ret ()) (\<lambda>_.
       chain (call_ti ti (osi_TaskCreate_call ''vCmdTask'' ''CMDTASK'' (OSI_STACK_SIZE * 10) 1)) (\<lambda>_.
       chain (call_ti ti osi_start) (\<lambda>_. ret (Returns 0))))))"

definition connect_and_start :: "'w ti \<Rightarrow> ('w cc_app, main_end) prog" where
  "connect_and_start ti =
     chain (call_ti ti sl_Start) (\<lambda>r.
     if r < 0 then chain (UART_PRINT (''Failed to start the device '' @ LF @ CR)) (\<lambda>_. ret LoopsForever)
     else
       chain (UART_PRINT (''Device started as STATION '' @ LF @ CR)) (\<lambda>_.
       chain (UART_PRINT (''Connecting to AP: '' @ SSID_NAME ti @ '' ...'' @ CR @ LF)) (\<lambda>_.
       chain (WlanConnect ti) (\<lambda>r.
       case r of
         None \<Rightarrow> ret Waits
       | Some lRetVal \<Rightarrow>
           if lRetVal < 0 then
             chain (UART_PRINT (''Connection to AP failed '' @ LF @ CR)) (\<lambda>_. ret LoopsForever)
           else
             chain (UART_PRINT (''Connected to AP: '' @ SSID_NAME ti @ '' '' @ LF @ CR)) (\<lambda>_.
             chain (gets g_ulIpAddr) (\<lambda>a.
             chain (UART_PRINT (''Device IP: '' @ ip_text ti a @ LF @ CR @ LF @ CR)) (\<lambda>_.
             start_tasks ti)))))))"

definition cc_main :: "'w ti \<Rightarrow> ('w cc_app, main_end) prog" where
  "cc_main ti =
     chain (BoardInit ti) (\<lambda>_.
     chain (call_each ti [UDMAInit]) (\<lambda>_.
     chain (PinMuxConfig ti) (\<lambda>_.
     chain (call_each ti [InitTerm, ClearTerm]) (\<lambda>_.
     chain (DisplayBanner APP_NAME) (\<lambda>_.
     chain InitializeAppVariables (\<lambda>_.
     chain (ConfigureSimpleLinkToDefaultState ti) (\<lambda>r.
     case r of
       None \<Rightarrow> ret Waits
     | Some lRetVal \<Rightarrow>
         if lRetVal < 0 then
           chain (if DEVICE_NOT_IN_STATION_MODE = lRetVal
             then UART_PRINT (''Failed to configure the device in its default state '' @ LF @ CR)
             else ret ()) (\<lambda>_. ret LoopsForever)
         else
           chain (UART_PRINT (''Device is configured in default state '' @ LF @ CR)) (\<lambda>_.
           connect_and_start ti))))))))"

end
