(* ===== verification/CC3200_Wlan_Properties.thy ===== *)
theory CC3200_Wlan_Properties
  imports CC3200_Wlan
begin

text \<open>
  What the CC3200 sample knows of its network: the status word as a refinement of a two-flag link
  that the driver's events move, where \<open>WlanConnect\<close> stops waiting, and how \<open>main\<close> ends.
\<close>

section \<open>The link\<close>

text \<open>Whether the station is connected and whether it has an IP address.\<close>

type_synonym link = "bool \<times> bool"

fun link_step :: "async_event \<Rightarrow> link \<Rightarrow> link" where
  "link_step (WlanEvent (Some (SL_WLAN_CONNECT_EVENT name len mac))) (up, addr) = (True, addr)"
| "link_step (WlanEvent (Some (SL_WLAN_DISCONNECT_EVENT reason))) l = (False, False)"
| "link_step (NetAppEvent (Some (SL_NETAPP_IPV4_IPACQUIRED_EVENT a g))) (up, addr) = (up, True)"
| "link_step e l = l"

definition links :: "async_event list \<Rightarrow> link \<Rightarrow> link" where
  "links es l = fold link_step es l"

definition status_link :: "'w ti \<Rightarrow> 'w cc_app \<Rightarrow> link" where
  "status_link ti s = (IS_CONNECTED ti (g_ulStatus s), IS_IP_ACQUIRED ti (g_ulStatus s))"

text \<open>
  What TI documents of its macros: the two bits are set, cleared and tested independently, none is
  set in 0, \<open>ASSERT_ON_ERROR\<close> returns for negative values, which \<open>SUCCESS\<close> is not. The SSID array has room for the
  longest SSID, the BSSID array for the six bytes that are copied and printed.
\<close>

definition ti_macros :: "'w ti \<Rightarrow> bool" where
  "ti_macros ti \<longleftrightarrow>
     (\<forall>v. IS_CONNECTED ti (SET_STATUS_BIT ti v (STATUS_BIT_CONNECTION ti)) \<and>
        IS_IP_ACQUIRED ti (SET_STATUS_BIT ti v (STATUS_BIT_CONNECTION ti)) = IS_IP_ACQUIRED ti v \<and>
        IS_IP_ACQUIRED ti (SET_STATUS_BIT ti v (STATUS_BIT_IP_AQUIRED ti)) \<and>
        IS_CONNECTED ti (SET_STATUS_BIT ti v (STATUS_BIT_IP_AQUIRED ti)) = IS_CONNECTED ti v \<and>
        \<not> IS_CONNECTED ti (CLR_STATUS_BIT ti v (STATUS_BIT_CONNECTION ti)) \<and>
        \<not> IS_IP_ACQUIRED ti (CLR_STATUS_BIT ti v (STATUS_BIT_IP_AQUIRED ti)) \<and>
        IS_CONNECTED ti (CLR_STATUS_BIT ti v (STATUS_BIT_IP_AQUIRED ti)) = IS_CONNECTED ti v) \<and>
     \<not> IS_CONNECTED ti 0 \<and> \<not> IS_IP_ACQUIRED ti 0 \<and> (\<forall>r. ASSERT_ON_ERROR ti r \<longleftrightarrow> r < 0) \<and>
     0 \<le> SUCCESS ti \<and>
     6 \<le> BSSID_LEN_MAX ti \<and> SL_BSSID_LENGTH ti \<le> BSSID_LEN_MAX ti"

text \<open>An event whose data are as long as they say and as the driver's limits allow.\<close>

fun event_fits :: "'w ti \<Rightarrow> async_event \<Rightarrow> bool" where
  "event_fits ti (WlanEvent (Some (SL_WLAN_CONNECT_EVENT name len mac))) \<longleftrightarrow>
     len \<le> length name \<and> len \<le> SSID_LEN_MAX ti \<and> SL_BSSID_LENGTH ti \<le> length mac"
| "event_fits ti e \<longleftrightarrow> True"

definition driver_fits :: "'w ti \<Rightarrow> bool" where
  "driver_fits ti \<longleftrightarrow> (\<forall>c w. list_all (event_fits ti) (fst (snd (ti_run ti c w))))"

text \<open>The arrays of the application: a NUL is always behind the SSID.\<close>

definition app_ok :: "'w ti \<Rightarrow> 'w cc_app \<Rightarrow> bool" where
  "app_ok ti s \<longleftrightarrow>
     length (g_ucConnectionSSID s) = Suc (SSID_LEN_MAX ti) \<and>
     g_ucConnectionSSID s ! SSID_LEN_MAX ti = NUL \<and>
     length (g_ucConnectionBSSID s) = BSSID_LEN_MAX ti"

lemma app_ok_NUL: "app_ok ti s \<Longrightarrow> NUL \<in> set (g_ucConnectionSSID s)"
  unfolding app_ok_def by (metis lessI nth_mem)

lemma copied_NUL:
  assumes "length a = Suc n" and "a ! n = NUL" and "len \<le> n" and "len \<le> length b"
  shows "(take len b @ drop len a) ! n = NUL" and "NUL \<in> set (drop len a)"
proof -
  show "(take len b @ drop len a) ! n = NUL" using assms by (simp add: nth_append)
  have "drop len a ! (n - len) = NUL" and "n - len < length (drop len a)" using assms by simp_all
  then show "NUL \<in> set (drop len a)" by (metis nth_mem)
qed

lemma nth_NULs [simp]: "(NUL # replicate n NUL) ! n = NUL"
  by (metis lessI nth_replicate replicate_Suc)

text \<open>What a step leaves as it was.\<close>

definition same_run :: "'w cc_app \<Rightarrow> 'w cc_app \<Rightarrow> bool" where
  "same_run s s' \<longleftrightarrow> pending s' = pending s \<and> ti_log s' = ti_log s"

lemma ends_print [ends_intros]:
  "S () (s\<lparr>uart := uart s @ t\<rparr>) \<Longrightarrow> ends (UART_PRINT t) s S"
  "6 \<le> length b \<Longrightarrow> (\<And>t. Q t s) \<Longrightarrow> ends (bssid_text b) s Q"
  "n \<le> length d \<Longrightarrow> n \<le> length src \<Longrightarrow> P (take n src @ drop n d) s \<Longrightarrow> ends (memcpy d src n) s P"
  by (auto simp: ends_def UART_PRINT_def bssid_text_def memcpy_def)

lemma wlan_event_link:
  assumes ti: "ti_macros ti" and ok: "app_ok ti s" and fits: "event_fits ti (WlanEvent e)"
  shows "ends (SimpleLinkWlanEventHandler ti e) s (\<lambda>_ s'. app_ok ti s' \<and> same_run s s' \<and>
    status_link ti s' = link_step (WlanEvent e) (status_link ti s))"
proof (cases e)
  case None
  with ok show ?thesis
    by (simp add: SimpleLinkWlanEventHandler_def ends_def same_run_def status_link_def)
next
  case (Some x)
  show ?thesis
  proof (cases x)
    case (SL_WLAN_CONNECT_EVENT name len mac)
    have "NUL \<in> set (drop len (g_ucConnectionSSID s))"
      by (rule copied_NUL(2) [where n = "SSID_LEN_MAX ti" and b = name])
        (use ok fits Some SL_WLAN_CONNECT_EVENT in \<open>simp_all add: app_ok_def\<close>)
    with ok ti fits Some SL_WLAN_CONNECT_EVENT show ?thesis
      unfolding SimpleLinkWlanEventHandler_def
      by simp (intro ends_intros; simp add: copied_NUL app_ok_def ti_macros_def status_link_def same_run_def)
  next
    case (SL_WLAN_DISCONNECT_EVENT reason)
    with ok ti fits Some app_ok_NUL [OF ok] show ?thesis
      unfolding SimpleLinkWlanEventHandler_def
      by simp (intro ends_intros; simp add: app_ok_def ti_macros_def status_link_def same_run_def)
  next
    case (SL_WLAN_unlisted n)
    with ok Some show ?thesis
      unfolding SimpleLinkWlanEventHandler_def
      by simp (intro ends_intros; simp add: app_ok_def status_link_def same_run_def)
  qed
qed

lemma other_event_links:
  assumes "ti_macros ti" and "app_ok ti s"
  shows "ends (SimpleLinkNetAppEventHandler ti n) s (\<lambda>_ s'. app_ok ti s' \<and> same_run s s' \<and>
      status_link ti s' = link_step (NetAppEvent n) (status_link ti s))"
    and "ends (SimpleLinkGeneralEventHandler g) s (\<lambda>_ s'. app_ok ti s' \<and> same_run s s' \<and>
      status_link ti s' = status_link ti s)"
    and "ends (SimpleLinkSockEventHandler ti k) s (\<lambda>_ s'. app_ok ti s' \<and> same_run s s' \<and>
      status_link ti s' = status_link ti s)"
proof -
  note frame = app_ok_def status_link_def same_run_def
  show "ends (SimpleLinkNetAppEventHandler ti n) s (\<lambda>_ s'. app_ok ti s' \<and> same_run s s' \<and>
      status_link ti s' = link_step (NetAppEvent n) (status_link ti s))"
  proof (cases "\<exists>a g. n = Some (SL_NETAPP_IPV4_IPACQUIRED_EVENT a g)")
    case True
    then show ?thesis
      unfolding SimpleLinkNetAppEventHandler_def
      by (elim exE) (simp, intro ends_intros, use assms in \<open>simp add: frame ti_macros_def\<close>)
  next
    case False
    then have "n = None \<or> (\<exists>k. n = Some (SL_NETAPP_unlisted k))"
      by (metis SlNetAppEvent_t.exhaust not_Some_eq)
    then show ?thesis
      unfolding SimpleLinkNetAppEventHandler_def
      by (elim disjE exE) (simp, intro ends_intros, use assms in \<open>simp add: frame\<close>)+
  qed
  show "ends (SimpleLinkGeneralEventHandler g) s (\<lambda>_ s'. app_ok ti s' \<and> same_run s s' \<and>
      status_link ti s' = status_link ti s)"
    unfolding SimpleLinkGeneralEventHandler_def
    by (intro ends_intros) (use assms in \<open>simp_all add: frame\<close>)
  show "ends (SimpleLinkSockEventHandler ti k) s (\<lambda>_ s'. app_ok ti s' \<and> same_run s s' \<and>
      status_link ti s' = status_link ti s)"
  proof (cases k)
    case (Some x)
    then show ?thesis
      unfolding SimpleLinkSockEventHandler_def
      by (cases x; simp; intro ends_intros conjI impI; use assms in \<open>simp add: frame\<close>)
  qed (use assms in \<open>simp add: SimpleLinkSockEventHandler_def ends_def frame\<close>)
qed

text \<open>An event moves the status word as it moves the link.\<close>

lemma deliver_link:
  assumes "ti_macros ti" and "app_ok ti s" and "event_fits ti e"
  shows "ends (deliver ti e) s (\<lambda>_ s'. app_ok ti s' \<and> same_run s s' \<and>
    status_link ti s' = link_step e (status_link ti s))"
proof (cases e)
  case (WlanEvent x)
  with wlan_event_link [OF assms(1,2)] assms(3) show ?thesis by simp
qed (use other_event_links [OF assms(1,2)] in \<open>simp_all\<close>)

lemma deliver_all_link:
  assumes "ti_macros ti"
  shows "app_ok ti s \<Longrightarrow> list_all (event_fits ti) es \<Longrightarrow>
    ends (deliver_all ti es) s (\<lambda>_ s'. app_ok ti s' \<and> same_run s s' \<and>
      status_link ti s' = links es (status_link ti s))"
proof (induction es arbitrary: s)
  case Nil
  then show ?case by (simp add: ends_def links_def same_run_def)
next
  case (Cons e es)
  then have first: "ends (deliver ti e) s (\<lambda>_ s'. app_ok ti s' \<and> same_run s s' \<and>
      status_link ti s' = link_step e (status_link ti s))"
    by (intro deliver_link [OF assms]) simp_all
  show ?case
    unfolding deliver_all.simps
  proof (rule ends_through [OF first])
    fix a t
    assume t: "app_ok ti t \<and> same_run s t \<and> status_link ti t = link_step e (status_link ti s)"
    with Cons.prems have "ends (deliver_all ti es) t (\<lambda>_ s'. app_ok ti s' \<and> same_run t s' \<and>
        status_link ti s' = links es (status_link ti t))"
      by (intro Cons.IH) simp_all
    then show "ends (deliver_all ti es) t (\<lambda>_ s'. app_ok ti s' \<and> same_run s s' \<and>
        status_link ti s' = links (e # es) (status_link ti s))"
      by (rule ends_weaken) (use t in \<open>simp add: links_def same_run_def\<close>)
  qed
qed

section \<open>Calls and waits\<close>

lemma call_ti_ends:
  assumes "ti_macros ti" and "driver_fits ti" and "app_ok ti s"
    and run: "ti_run ti c (device s) = (r, es, w)"
    and post: "\<And>s'. app_ok ti s' \<Longrightarrow> pending s' = pending s \<Longrightarrow> ti_log s' = ti_log s @ [(c, r, g_ulStatus s)] \<Longrightarrow>
      status_link ti s' = links es (status_link ti s) \<Longrightarrow> Q r s'"
  shows "ends (call_ti ti c) s Q"
proof -
  let ?s = "s\<lparr>device := w, ti_log := ti_log s @ [(c, r, g_ulStatus s)]\<rparr>"
  have fits: "list_all (event_fits ti) es"
    using assms(2) run unfolding driver_fits_def by (metis fst_conv snd_conv)
  have "app_ok ti ?s" using assms(3) by (simp add: app_ok_def)
  from deliver_all_link [OF assms(1) this fits] obtain s'
    where d: "deliver_all ti es ?s = Inr ((), s')" "app_ok ti s'" "same_run ?s s'"
      "status_link ti s' = links es (status_link ti ?s)"
    by (auto simp: ends_def)
  have "Q r s'"
    by (rule post) (use d in \<open>simp_all add: same_run_def status_link_def\<close>)
  moreover have "call_ti ti c s = Inr (r, s')"
    using d(1) by (simp add: call_ti_def chain_def run)
  ultimately show ?thesis by (simp add: ends_def)
qed

text \<open>
  The first point in a list of events at which the link satisfies a condition: how many events
  come before it.
\<close>

definition first_after :: "(link \<Rightarrow> bool) \<Rightarrow> link \<Rightarrow> async_event list \<Rightarrow> nat \<Rightarrow> bool" where
  "first_after c l es n \<longleftrightarrow>
     n \<le> length es \<and> c (links (take n es) l) \<and> (\<forall>m < n. \<not> c (links (take m es) l))"

lemma first_after_0: "c l \<Longrightarrow> first_after c l es 0"
  by (simp add: first_after_def links_def)

lemma first_after_Suc:
  "\<not> c l \<Longrightarrow> first_after c (link_step e l) es n \<Longrightarrow> first_after c l (e # es) (Suc n)"
  unfolding first_after_def by (auto simp: links_def less_Suc_eq_0_disj)

lemma wait_on_ends:
  assumes ti: "ti_macros ti" and c: "\<And>t. b (g_ulStatus t) = c (status_link ti t)"
  shows "app_ok ti s \<Longrightarrow> list_all (event_fits ti) es \<Longrightarrow>
    ends (wait_on ti b es) s (\<lambda>r s'. app_ok ti s' \<and> same_run s s' \<and> (case r of
        None \<Rightarrow> (\<forall>n \<le> length es. \<not> c (links (take n es) (status_link ti s)))
      | Some rest \<Rightarrow> c (status_link ti s') \<and>
          (\<exists>n. first_after c (status_link ti s) es n \<and> rest = drop n es)))"
proof (induction es arbitrary: s)
  case Nil
  then show ?case
    using first_after_0 [of c "status_link ti s" "[]"]
    by (auto simp: ends_def same_run_def c links_def)
next
  case (Cons e es)
  show ?case
  proof (cases "c (status_link ti s)")
    case True
    with Cons.prems first_after_0 [of c "status_link ti s" "e # es"] show ?thesis
      by (auto simp: ends_def same_run_def c intro!: exI [where x = 0])
  next
    case False
    from Cons.prems have first: "ends (deliver ti e) s (\<lambda>_ s'. app_ok ti s' \<and> same_run s s' \<and>
        status_link ti s' = link_step e (status_link ti s))"
      by (intro deliver_link [OF ti]) simp_all
    have step: "ends (chain (deliver ti e) (\<lambda>_. wait_on ti b es)) s (\<lambda>r s'. app_ok ti s' \<and> same_run s s' \<and> (case r of
        None \<Rightarrow> (\<forall>n \<le> length (e # es). \<not> c (links (take n (e # es)) (status_link ti s)))
      | Some rest \<Rightarrow> c (status_link ti s') \<and>
          (\<exists>n. first_after c (status_link ti s) (e # es) n \<and> rest = drop n (e # es))))"
    proof (rule ends_through [OF first], rule ends_weaken [OF Cons.IH])
      fix a t r s'
      assume t: "app_ok ti t \<and> same_run s t \<and> status_link ti t = link_step e (status_link ti s)"
        and r: "app_ok ti s' \<and> same_run t s' \<and> (case r of
          None \<Rightarrow> (\<forall>n \<le> length es. \<not> c (links (take n es) (status_link ti t)))
        | Some rest \<Rightarrow> c (status_link ti s') \<and>
            (\<exists>n. first_after c (status_link ti t) es n \<and> rest = drop n es))"
      have none: "\<not> c (links (take n (e # es)) (status_link ti s))"
        if "\<forall>n \<le> length es. \<not> c (links (take n es) (link_step e (status_link ti s)))"
          "n \<le> length (e # es)" for n
        using that False by (cases n) (auto simp: links_def)
      show "app_ok ti s' \<and> same_run s s' \<and> (case r of
          None \<Rightarrow> (\<forall>n \<le> length (e # es). \<not> c (links (take n (e # es)) (status_link ti s)))
        | Some rest \<Rightarrow> c (status_link ti s') \<and>
            (\<exists>n. first_after c (status_link ti s) (e # es) n \<and> rest = drop n (e # es)))"
      proof (cases r)
        case None
        with r t none show ?thesis by (simp add: same_run_def)
      next
        case (Some rest)
        with r t obtain n where "first_after c (link_step e (status_link ti s)) es n" "rest = drop n es"
          by auto
        with first_after_Suc [of c, OF False] Some r t show ?thesis
          by (auto simp: same_run_def intro!: exI [where x = "Suc n"])
      qed
    qed (use Cons.prems in simp_all)
    with False show ?thesis by (simp add: ends_def c)
  qed
qed

lemma wait_until_ends:
  assumes "ti_macros ti" and "\<And>t. b (g_ulStatus t) = c (status_link ti t)"
    and "app_ok ti s" and "list_all (event_fits ti) (pending s)"
    and waits: "\<And>s'. app_ok ti s' \<Longrightarrow> ti_log s' = ti_log s \<Longrightarrow> pending s' = [] \<Longrightarrow>
      \<forall>n \<le> length (pending s). \<not> c (links (take n (pending s)) (status_link ti s)) \<Longrightarrow> Q False s'"
    and holds: "\<And>s' n. app_ok ti s' \<Longrightarrow> ti_log s' = ti_log s \<Longrightarrow>
      first_after c (status_link ti s) (pending s) n \<Longrightarrow> pending s' = drop n (pending s) \<Longrightarrow>
      c (status_link ti s') \<Longrightarrow> Q True s'"
  shows "ends (wait_until ti b) s Q"
  unfolding wait_until_def
proof (rule ends_chain, rule ends_simple(2), rule ends_through [OF wait_on_ends [where b = b and c = c, OF assms(1-4)]])
  fix r t
  assume r: "app_ok ti t \<and> same_run s t \<and> (case r of
      None \<Rightarrow> (\<forall>n \<le> length (pending s). \<not> c (links (take n (pending s)) (status_link ti s)))
    | Some rest \<Rightarrow> c (status_link ti t) \<and>
        (\<exists>n. first_after c (status_link ti s) (pending s) n \<and> rest = drop n (pending s)))"
  show "ends (case r of
        None \<Rightarrow> chain (modify (\<lambda>s. s\<lparr>pending := []\<rparr>)) (\<lambda>_. ret False)
      | Some es' \<Rightarrow> chain (modify (\<lambda>s. s\<lparr>pending := es'\<rparr>)) (\<lambda>_. ret True)) t Q"
  proof (cases r)
    case None
    have "Q False (t\<lparr>pending := []\<rparr>)"
      by (rule waits) (use r None in \<open>simp_all add: app_ok_def same_run_def\<close>)
    with None show ?thesis by (auto simp: ends_def)
  next
    case (Some rest)
    with r obtain n where n: "first_after c (status_link ti s) (pending s) n" "rest = drop n (pending s)"
      by auto
    have "Q True (t\<lparr>pending := rest\<rparr>)"
      by (rule holds [where n = n])
        (use r Some n in \<open>simp_all add: app_ok_def same_run_def status_link_def\<close>)
    with Some show ?thesis by (auto simp: ends_def)
  qed
qed

section \<open>Configuration\<close>

text \<open>What holds between the statements of \<open>main\<close>: the arrays and the coming events are as they should be.\<close>

definition running :: "'w ti \<Rightarrow> 'w cc_app \<Rightarrow> bool" where
  "running ti s \<longleftrightarrow> app_ok ti s \<and> list_all (event_fits ti) (pending s)"

lemma running_print [simp]: "running ti (s\<lparr>uart := u\<rparr>) = running ti s"
  by (simp add: running_def app_ok_def)

lemma list_all_drop: "list_all P xs \<Longrightarrow> list_all P (drop n xs)"
  by (auto simp: list_all_iff dest: in_set_dropD)

text \<open>The last call of the driver did not return what the program needs.\<close>

definition call_failed :: "'w ti \<Rightarrow> 'w cc_app \<Rightarrow> bool" where
  "call_failed ti s \<longleftrightarrow> (\<exists>c r v. ti_log s \<noteq> [] \<and> last (ti_log s) = (c, r, v) \<and>
     (r < 0 \<or> c = sl_Start \<and> r \<noteq> ROLE_STA ti \<or> c = osi_MsgQCreate ''MSGQ'' MAX_MSG_LENGTH 10 \<and> r \<noteq> OSI_OK ti))"

lemma call_failed_print [simp]: "call_failed ti (s\<lparr>uart := u\<rparr>) = call_failed ti s"
  by (simp add: call_failed_def)

definition configured :: "'w ti \<Rightarrow> int option \<Rightarrow> 'w cc_app \<Rightarrow> bool" where
  "configured ti r s \<longleftrightarrow> running ti s \<and> (case r of
     None \<Rightarrow> pending s = []
   | Some n \<Rightarrow> if n < 0 then call_failed ti s else status_link ti s = (False, False))"

lemma called:
  assumes "ti_macros ti" and "driver_fits ti" and "running ti s"
    and "\<And>r t. running ti t \<Longrightarrow> pending t = pending s \<Longrightarrow> ti_log t = ti_log s @ [(c, r, g_ulStatus s)] \<Longrightarrow> ends (k r) t Q"
  shows "ends (chain (call_ti ti c) k) s Q"
proof -
  obtain r es w where "ti_run ti c (device s) = (r, es, w)" by (metis prod.exhaust)
  from this show ?thesis
    by (intro ends_chain, elim call_ti_ends [OF assms(1,2), rotated])
      (use assms(3,4) in \<open>simp_all add: running_def\<close>)
qed

lemma checked_ends:
  assumes "ti_macros ti" and "driver_fits ti" and "running ti s"
    and "\<And>r t. 0 \<le> r \<Longrightarrow> running ti t \<Longrightarrow> ti_log t = ti_log s @ [(c, r, g_ulStatus s)] \<Longrightarrow> ends (k r) t (configured ti)"
  shows "ends (checked ti c k) s (configured ti)"
  unfolding checked_def
proof (rule called [OF assms(1-3)])
  fix r t
  assume t: "running ti t" "ti_log t = ti_log s @ [(c, r, g_ulStatus s)]"
  show "ends (on_error ti r (k r)) t (configured ti)"
  proof (cases "r < 0")
    case True
    with t assms(1) show ?thesis
      unfolding on_error_def
      by (intro ends_intros) (auto simp: configured_def call_failed_def ti_macros_def)
  next
    case False
    with t assms(1,4) show ?thesis by (simp add: on_error_def ti_macros_def)
  qed
qed

lemma waited:
  assumes "ti_macros ti" and "\<And>t. b (g_ulStatus t) = c (status_link ti t)" and "running ti s"
    and "\<And>t. running ti t \<Longrightarrow> pending t = [] \<Longrightarrow> ends (k False) t Q"
    and "\<And>t. running ti t \<Longrightarrow> c (status_link ti t) \<Longrightarrow> ends (k True) t Q"
  shows "ends (chain (wait_until ti b) k) s Q"
  by (rule ends_chain, rule wait_until_ends [where c = c, OF assms(1,2)])
    (use assms(3-5) in \<open>simp_all add: running_def list_all_drop\<close>)

lemma configure_rest_ends:
  assumes "ti_macros ti" and "driver_fits ti" and "running ti s"
  shows "ends (configure_rest ti) s (configured ti)"
  unfolding configure_rest_def InitializeAppVariables_def
  by (intro checked_ends [OF assms(1,2)] ends_intros)
    (use assms in \<open>auto simp: configured_def running_def app_ok_def status_link_def ti_macros_def\<close>)

lemma configure_station_ends:
  assumes "ti_macros ti" and "driver_fits ti" and "running ti s"
  shows "ends (configure_station ti) s (configured ti)"
proof -
  let ?wait = "\<lambda>r. if r = 0 then wait_until ti (\<lambda>v. \<not> IS_CONNECTED ti v) else ret True"
  have after: "ends (chain (?wait r) (\<lambda>ok. if ok then configure_rest ti else ret None)) t (configured ti)"
    if "running ti t" for r t
  proof (cases "r = 0")
    case True
    then show ?thesis
      by simp (rule waited [where c = "\<lambda>l. \<not> fst l", OF assms(1)],
        use that in \<open>auto simp: status_link_def configured_def ends_def [of "ret None"]
          intro: configure_rest_ends [OF assms(1,2)]\<close>)
  next
    case False
    with configure_rest_ends [OF assms(1,2) that] show ?thesis by (simp add: ends_def)
  qed
  show ?thesis
    unfolding configure_station_def print_version_def
    by (intro checked_ends [OF assms(1,2)] called [OF assms(1,2)] after ends_intros)
      (use assms(3) in simp_all)
qed

lemma configure_ends:
  assumes "ti_macros ti" and "driver_fits ti" and "running ti s"
  shows "ends (ConfigureSimpleLinkToDefaultState ti) s (configured ti)"
proof -
  let ?wait = "\<lambda>m. if ROLE_AP ti = m then wait_until ti (IS_IP_ACQUIRED ti) else ret True"
  let ?switch = "checked ti (sl_WlanSetMode (ROLE_STA ti)) (\<lambda>_.
    checked ti (sl_Stop 0xFF) (\<lambda>_.
    checked ti sl_Start (\<lambda>lRetVal.
    if ROLE_STA ti \<noteq> lRetVal then ret (Some DEVICE_NOT_IN_STATION_MODE) else configure_station ti)))"
  have switch: "ends ?switch t (configured ti)" if "running ti t" for t
    by (intro checked_ends [OF assms(1,2)] ends_cases(1) configure_station_ends [OF assms(1,2)] ends_simple(1))
      (use that in \<open>auto simp: configured_def call_failed_def DEVICE_NOT_IN_STATION_MODE_def\<close>)
  have after: "ends (chain (?wait m) (\<lambda>ok. if \<not> ok then ret None else ?switch)) t (configured ti)"
    if "running ti t" for m t
  proof (cases "ROLE_AP ti = m")
    case True
    then show ?thesis
      by simp (rule waited [where c = snd, OF assms(1)],
        use that switch in \<open>auto simp: status_link_def configured_def ends_def [of "ret None"]\<close>)
  next
    case False
    with switch [OF that] show ?thesis by (simp add: ends_def)
  qed
  show ?thesis
    unfolding ConfigureSimpleLinkToDefaultState_def
    by (intro checked_ends [OF assms(1,2)] ends_cases(1) configure_station_ends [OF assms(1,2)] after)
      (use assms(3) in simp_all)
qed

section \<open>Connection and start\<close>

abbreviation wlan_call :: "'w ti \<Rightarrow> ti_call" where
  "wlan_call ti \<equiv> sl_WlanConnect (SSID_NAME ti) (SECURITY_KEY ti) (SECURITY_TYPE ti)"

text \<open>How a wait for a connection with an address ends, from the link \<open>l\<close> on.\<close>

definition connect_waited :: "'w ti \<Rightarrow> link \<Rightarrow> async_event list \<Rightarrow> int option \<Rightarrow> 'w cc_app \<Rightarrow> bool" where
  "connect_waited ti l es a s' \<longleftrightarrow>
     a = None \<and> pending s' = [] \<and> (\<forall>n \<le> length es. links (take n es) l \<noteq> (True, True)) \<or>
     a = Some (SUCCESS ti) \<and> status_link ti s' = (True, True) \<and>
       (\<exists>n. first_after (\<lambda>l. l = (True, True)) l es n \<and> pending s' = drop n es)"

lemma wlan_connect_ends:
  assumes "ti_macros ti" and "driver_fits ti" and "running ti s"
    and "ti_run ti (wlan_call ti) (device s) = (r, es, w)"
  shows "ends (WlanConnect ti) s (\<lambda>a s'. running ti s' \<and> ti_log s' = ti_log s @ [(wlan_call ti, r, g_ulStatus s)] \<and>
    (r < 0 \<longrightarrow> a = Some r \<and> pending s' = pending s) \<and>
    (0 \<le> r \<longrightarrow> connect_waited ti (links es (status_link ti s)) (pending s) a s'))" (is "ends _ s ?Q")
  unfolding WlanConnect_def checked_def
proof (rule ends_chain, rule call_ti_ends [OF assms(1,2) _ assms(4)])
  show "app_ok ti s" using assms(3) by (simp add: running_def)
next
  fix t
  assume t: "app_ok ti t" "pending t = pending s" "ti_log t = ti_log s @ [(wlan_call ti, r, g_ulStatus s)]"
    "status_link ti t = links es (status_link ti s)"
  then have up: "running ti t" using assms(3) by (simp add: running_def)
  show "ends (on_error ti r (chain (wait_until ti (\<lambda>v. IS_CONNECTED ti v \<and> IS_IP_ACQUIRED ti v))
      (\<lambda>ok. ret (if ok then Some (SUCCESS ti) else None)))) t ?Q"
  proof (cases "r < 0")
    case True
    with t up assms(1) show ?thesis
      unfolding on_error_def
      by (intro ends_intros) (auto simp: ti_macros_def)
  next
    case False
    have "ends (wait_until ti (\<lambda>v. IS_CONNECTED ti v \<and> IS_IP_ACQUIRED ti v)) t
        (\<lambda>ok s'. ?Q (if ok then Some (SUCCESS ti) else None) s')"
    proof (rule wait_until_ends [where c = "\<lambda>l. l = (True, True)", OF assms(1) _ t(1)])
      show "list_all (event_fits ti) (pending t)" using up by (simp add: running_def)
    next
      fix s'
      assume "app_ok ti s'" "ti_log s' = ti_log t" "pending s' = []"
        "\<forall>n \<le> length (pending t). links (take n (pending t)) (status_link ti t) \<noteq> (True, True)"
      with False t show "?Q (if False then Some (SUCCESS ti) else None) s'"
        by (simp add: running_def connect_waited_def)
    next
      fix s' n
      assume s': "app_ok ti s'" "ti_log s' = ti_log t"
        "first_after (\<lambda>l. l = (True, True)) (status_link ti t) (pending t) n"
        "pending s' = drop n (pending t)" "status_link ti s' = (True, True)"
      have "connect_waited ti (links es (status_link ti s)) (pending s) (Some (SUCCESS ti)) s'"
        unfolding connect_waited_def using s'(3-5) t(2,4) by (intro disjI2 conjI exI [where x = n]) simp_all
      with False s' t up show "?Q (if True then Some (SUCCESS ti) else None) s'"
        by (simp add: running_def list_all_drop)
    qed (simp add: status_link_def)
    moreover have "\<not> ASSERT_ON_ERROR ti r" using False assms(1) by (simp add: ti_macros_def)
    ultimately show ?thesis unfolding on_error_def by (auto simp: ends_def)
  qed
qed

text \<open>
  The driver calls of a run that starts the scheduler: a successful \<open>sl_WlanConnect\<close>, then the queue,
  created while the status word \<open>v\<close> says that the station is connected and has an address, then the
  mutex, the task and the scheduler.
\<close>

definition started :: "'w ti \<Rightarrow> (ti_call \<times> int \<times> 32 word) list \<Rightarrow> bool" where
  "started ti calls \<longleftrightarrow> (\<exists>before r0 v0 v r1 v1 r2 v2 r3 v3.
     calls = before @ [(wlan_call ti, r0, v0), (osi_MsgQCreate ''MSGQ'' MAX_MSG_LENGTH 10, OSI_OK ti, v),
       (osi_LockObjCreate, r1, v1), (osi_TaskCreate_call ''vCmdTask'' ''CMDTASK'' (OSI_STACK_SIZE * 10) 1, r2, v2),
       (osi_start, r3, v3)] \<and>
     0 \<le> r0 \<and> IS_CONNECTED ti v \<and> IS_IP_ACQUIRED ti v)"

text \<open>How \<open>main\<close> may end.\<close>

definition main_ended :: "'w ti \<Rightarrow> main_end \<Rightarrow> 'w cc_app \<Rightarrow> bool" where
  "main_ended ti e s \<longleftrightarrow> (case e of
      Waits \<Rightarrow> pending s = []
    | LoopsForever \<Rightarrow> call_failed ti s
    | Returns n \<Rightarrow> n = 0 \<and> started ti (ti_log s))"

lemma start_tasks_ends:
  assumes "ti_macros ti" and "driver_fits ti" and "running ti s" and "status_link ti s = (True, True)"
    and "ti_log s = before @ [(wlan_call ti, r0, v0)]" and "0 \<le> r0"
  shows "ends (start_tasks ti) s (main_ended ti)"
proof -
  let ?q = "osi_MsgQCreate ''MSGQ'' MAX_MSG_LENGTH 10"
  let ?v = "g_ulStatus s"
  have v: "IS_CONNECTED ti ?v" "IS_IP_ACQUIRED ti ?v" using assms(4) by (simp_all add: status_link_def)
  have tasks: "ends (chain (call_ti ti (osi_TaskCreate_call ''vCmdTask'' ''CMDTASK'' (OSI_STACK_SIZE * 10) 1))
      (\<lambda>_. chain (call_ti ti osi_start) (\<lambda>_. ret (Returns 0)))) t (main_ended ti)"
    if "running ti t" "ti_log t = ti_log s @ [(?q, OSI_OK ti, ?v), (osi_LockObjCreate, r, v1)]" for t r v1
    by (intro called [OF assms(1,2)] ends_simple(1))
      (use that assms(5,6) v in \<open>auto simp: main_ended_def started_def intro!: exI\<close>)
  have lock: "ends (chain (call_ti ti osi_LockObjCreate) (\<lambda>r.
      chain (if r \<noteq> OSI_OK ti then UART_PRINT (''create mutex failed.'' @ LF @ CR) else ret ()) (\<lambda>_.
      chain (call_ti ti (osi_TaskCreate_call ''vCmdTask'' ''CMDTASK'' (OSI_STACK_SIZE * 10) 1))
        (\<lambda>_. chain (call_ti ti osi_start) (\<lambda>_. ret (Returns 0)))))) t (main_ended ti)"
    if "running ti t" "ti_log t = ti_log s @ [(?q, OSI_OK ti, ?v)]" for t
    by (rule called [OF assms(1,2) that(1)], rule ends_chain, rule ends_cases(1))
      ((rule ends_print(1), rule tasks, (use that(2) in simp_all)[2]),
       (rule ends_simple(1), rule tasks, (use that(2) in simp_all)[2]))
  show ?thesis
    unfolding start_tasks_def
  proof (rule called [OF assms(1-3)], rule ends_cases(1))
    fix r t
    assume "running ti t" "ti_log t = ti_log s @ [(?q, r, ?v)]" "r \<noteq> OSI_OK ti"
    then show "ends (ret LoopsForever) t (main_ended ti)"
      by (simp add: ends_def main_ended_def call_failed_def)
  next
    fix r t
    assume "running ti t" "ti_log t = ti_log s @ [(?q, r, ?v)]" "\<not> r \<noteq> OSI_OK ti"
    then show "ends (chain (call_ti ti osi_LockObjCreate) (\<lambda>r.
      chain (if r \<noteq> OSI_OK ti then UART_PRINT (''create mutex failed.'' @ LF @ CR) else ret ()) (\<lambda>_.
      chain (call_ti ti (osi_TaskCreate_call ''vCmdTask'' ''CMDTASK'' (OSI_STACK_SIZE * 10) 1))
        (\<lambda>_. chain (call_ti ti osi_start) (\<lambda>_. ret (Returns 0)))))) t (main_ended ti)"
      by (intro lock) simp_all
  qed
qed

lemma connect_and_start_ends:
  assumes "ti_macros ti" and "driver_fits ti" and "running ti s"
  shows "ends (connect_and_start ti) s (main_ended ti)"
proof -
  have failed: "ends (chain (UART_PRINT u) (\<lambda>_. ret LoopsForever)) t (main_ended ti)" if "call_failed ti t" for u t
    by (intro ends_intros) (use that in \<open>simp add: main_ended_def\<close>)
  have up: "ends (chain (UART_PRINT u) (\<lambda>_. chain (gets g_ulIpAddr) (\<lambda>a. chain (UART_PRINT (f a)) (\<lambda>_. start_tasks ti))))
      t (main_ended ti)"
    if "running ti t" "status_link ti t = (True, True)" "ti_log t = b @ [(wlan_call ti, r, v)]" "0 \<le> r" for u f t b r v
    by (intro ends_chain ends_print(1) ends_simple(2) start_tasks_ends [OF assms(1,2), of _ b r v])
      (use that in \<open>simp_all add: status_link_def\<close>)
  have wlan: "ends (chain (WlanConnect ti) (\<lambda>r. case r of
        None \<Rightarrow> ret Waits
      | Some lRetVal \<Rightarrow>
          if lRetVal < 0 then chain (UART_PRINT u) (\<lambda>_. ret LoopsForever)
          else chain (UART_PRINT v) (\<lambda>_.
            chain (gets g_ulIpAddr) (\<lambda>a. chain (UART_PRINT (f a)) (\<lambda>_. start_tasks ti))))) t (main_ended ti)"
    if "running ti t" for u v f t
  proof -
    obtain r es w where run: "ti_run ti (wlan_call ti) (device t) = (r, es, w)" by (metis prod.exhaust)
    show ?thesis
    proof (rule ends_through [OF wlan_connect_ends [OF assms(1,2) that run]])
      fix a t'
      assume t': "running ti t' \<and> ti_log t' = ti_log t @ [(wlan_call ti, r, g_ulStatus t)] \<and>
        (r < 0 \<longrightarrow> a = Some r \<and> pending t' = pending t) \<and>
        (0 \<le> r \<longrightarrow> connect_waited ti (links es (status_link ti t)) (pending t) a t')"
      then consider "r < 0" "a = Some r" "call_failed ti t'" | "a = None" "pending t' = []"
        | "a = Some (SUCCESS ti)" "status_link ti t' = (True, True)" "0 \<le> r"
        unfolding connect_waited_def call_failed_def by fastforce
      then show "ends (case a of None \<Rightarrow> ret Waits
        | Some lRetVal \<Rightarrow>
          if lRetVal < 0 then chain (UART_PRINT u) (\<lambda>_. ret LoopsForever)
          else chain (UART_PRINT v) (\<lambda>_.
            chain (gets g_ulIpAddr) (\<lambda>a. chain (UART_PRINT (f a)) (\<lambda>_. start_tasks ti)))) t' (main_ended ti)"
      proof cases
        case 1
        with failed show ?thesis by simp
      next
        case 2
        then show ?thesis by (simp add: ends_def main_ended_def)
      next
        case 3
        with up [of t'] t' assms(1) show ?thesis by (simp add: ti_macros_def)
      qed
    qed
  qed
  show ?thesis
    unfolding connect_and_start_def
  proof (rule called [OF assms], rule ends_cases(1))
    fix r t
    assume "running ti t" "ti_log t = ti_log s @ [(sl_Start, r, g_ulStatus s)]" "r < 0"
    then show "ends (chain (UART_PRINT (''Failed to start the device '' @ LF @ CR)) (\<lambda>_. ret LoopsForever)) t
        (main_ended ti)"
      by (intro failed) (simp add: call_failed_def)
  qed (rule ends_chain, rule ends_print(1), rule ends_chain, rule ends_print(1), rule wlan, simp)
qed

lemma call_each_ends:
  assumes "ti_macros ti" and "driver_fits ti" and "running ti s" and "\<And>t. running ti t \<Longrightarrow> ends (k ()) t Q"
  shows "ends (chain (call_each ti cs) k) s Q"
  using assms(3)
proof (induction cs arbitrary: s)
  case Nil
  with assms(4) show ?case by (simp add: ends_def)
next
  case (Cons c cs)
  have "chain (call_each ti (c # cs)) k = chain (call_ti ti c) (\<lambda>_. chain (call_each ti cs) k)"
    by (simp add: chain_assoc)
  then show ?case
    by (simp del: call_each.simps) (rule called [OF assms(1,2) Cons.prems], rule Cons.IH)
qed

lemma banner_ends:
  assumes "running ti s" and "\<And>t. running ti t \<Longrightarrow> ends (k ()) t Q"
  shows "ends (chain (DisplayBanner name) k) s Q"
  unfolding DisplayBanner_def
  by (intro ends_chain ends_print(1) assms(2)) (use assms(1) in simp)

lemma cc_main_ends:
  assumes "ti_macros ti" and "driver_fits ti" and "running ti s"
  shows "ends (cc_main ti) s (main_ended ti)"
proof -
  let ?go = "\<lambda>lRetVal. if lRetVal < 0 then
      chain (if DEVICE_NOT_IN_STATION_MODE = lRetVal
        then UART_PRINT (''Failed to configure the device in its default state '' @ LF @ CR)
        else ret ()) (\<lambda>_. ret LoopsForever)
    else chain (UART_PRINT (''Device is configured in default state '' @ LF @ CR)) (\<lambda>_. connect_and_start ti)"
  have go: "ends (?go n) t (main_ended ti)" if "configured ti (Some n) t" for n t
    by (intro ends_cases(1) ends_chain ends_print(1) ends_simple(1) connect_and_start_ends [OF assms(1,2)])
      (use that in \<open>simp_all add: configured_def main_ended_def\<close>)
  have configure: "ends (chain (ConfigureSimpleLinkToDefaultState ti)
      (\<lambda>r. case r of None \<Rightarrow> ret Waits | Some lRetVal \<Rightarrow> ?go lRetVal)) t (main_ended ti)" if "running ti t" for t
  proof (rule ends_through [OF configure_ends [OF assms(1,2) that]])
    fix r t
    assume r: "configured ti r t"
    show "ends (case r of None \<Rightarrow> ret Waits | Some lRetVal \<Rightarrow> ?go lRetVal) t (main_ended ti)"
    proof (cases r)
      case None
      with r show ?thesis by (simp add: ends_def configured_def main_ended_def)
    next
      case (Some n)
      with go [of n t] r show ?thesis by (simp only: option.case)
    qed
  qed
  have init: "ends (chain InitializeAppVariables (\<lambda>_. chain (ConfigureSimpleLinkToDefaultState ti)
      (\<lambda>r. case r of None \<Rightarrow> ret Waits | Some lRetVal \<Rightarrow> ?go lRetVal))) t (main_ended ti)" if "running ti t" for t
    unfolding InitializeAppVariables_def
    by (intro ends_chain ends_simple(3) configure) (use that in \<open>simp add: running_def app_ok_def\<close>)
  show ?thesis
    unfolding cc_main_def BoardInit_def PinMuxConfig_def
    by (intro call_each_ends [OF assms(1,2)] banner_ends init) (use assms(3) in simp_all)
qed

section \<open>Properties\<close>

text \<open>A driver for the witnesses: every call succeeds and brings no events.\<close>

definition sample_ti :: "unit ti" where
  "sample_ti =
     \<lparr>ti_run = (\<lambda>c w. (0, [], w)), ti_version = (\<lambda>w. ([1, 2, 3, 4], [1, 2, 3, 4], [1, 2, 3, 4])), ti_vtable = True,
      SET_STATUS_BIT = (\<lambda>v b. set_bit b v), CLR_STATUS_BIT = (\<lambda>v b. unset_bit b v),
      IS_CONNECTED = (\<lambda>v. bit v 1), IS_IP_ACQUIRED = (\<lambda>v. bit v 2),
      STATUS_BIT_CONNECTION = 1, STATUS_BIT_IP_AQUIRED = 2, SL_IPV4_BYTE = (\<lambda>v i. v),
      ASSERT_ON_ERROR = (\<lambda>r. r < 0), assert_text = (\<lambda>r. ''error''),
      SSID_LEN_MAX = 32, BSSID_LEN_MAX = 6, SL_BSSID_LENGTH = 6, FILTER_BUFFER_REST = 4,
      SL_WLAN_DISCONNECT_USER_INITIATED_DISCONNECTION = 200, SL_ECLOSE = - 1, SL_STOP_TIMEOUT = 200,
      ROLE_STA = 0, ROLE_AP = 2, OSI_OK = 0, SUCCESS = 0, SL_DRIVER_VERSION = ''1'', SSID_NAME = ''ap'',
      SECURITY_KEY = ''key'', SECURITY_TYPE = 2, PRCM_UARTA0 = 14, PRCM_RUN_MODE_CLK = 1,
      PIN_55 = 54, PIN_57 = 56, PIN_MODE_3 = 3\<rparr>"

definition sample_events :: "async_event list" where
  "sample_events =
     [NetAppEvent (Some (SL_NETAPP_IPV4_IPACQUIRED_EVENT 1 2)), WlanEvent (Some (SL_WLAN_DISCONNECT_EVENT 1)),
      WlanEvent (Some (SL_WLAN_CONNECT_EVENT ''ap'' 2 [1, 2, 3, 4, 5, 6])), GeneralEvent None,
      NetAppEvent (Some (SL_NETAPP_IPV4_IPACQUIRED_EVENT 1 2)), SockEvent None]"

definition sample_cc :: "unit cc_app" where
  "sample_cc =
     \<lparr>g_ulStatus = 0, g_ulGatewayIP = 0, g_ucConnectionSSID = replicate 33 NUL,
      g_ucConnectionBSSID = replicate 6 0, g_ulDestinationIp = 0, g_uiPortNum = 0, g_ulPacketCount = 0,
      g_ulIpAddr = 0, uart = [], pending = sample_events, ti_log = [], device = ()\<rparr>"

lemma sample_ti_ok: "ti_macros sample_ti" "driver_fits sample_ti" "running sample_ti sample_cc"
  by (auto simp: ti_macros_def driver_fits_def running_def app_ok_def sample_ti_def 
      sample_cc_def sample_events_def bit_simps)

lemma sample_first: "first_after (\<lambda>l. l = (True, True)) (False, False) sample_events 5"
  by code_simp

lemma first_after_unique: "first_after c l es n \<Longrightarrow> first_after c l es m \<Longrightarrow> n = m"
  unfolding first_after_def by (metis linorder_neqE_nat)

text \<open>
  C14. \<open>WlanConnect\<close> follows the link. Under what TI documents of its macros, and for events whose
  data have the sizes they announce, it never faults. A driver that refuses the connection makes
  it return the error at once. Otherwise it returns \<open>SUCCESS\<close> after exactly those pending events
  that it takes until the station is connected and has an address at the same time, counting
  disconnections, and leaves the later events; and if no prefix of the events brings that about,
  it has not returned when they are used up.
\<close>

theorem WlanConnect_waits:
  assumes "ti_macros ti" and "driver_fits ti" and "running ti s"
    and "ti_run ti (sl_WlanConnect (SSID_NAME ti) (SECURITY_KEY ti) (SECURITY_TYPE ti)) (device s) = (r, es, w)"
  shows "\<exists>a s'. WlanConnect ti s = Inr (a, s') \<and> running ti s' \<and>
    (r < 0 \<longrightarrow> a = Some r \<and> pending s' = pending s) \<and>
    (0 \<le> r \<longrightarrow>
      a = None \<and> (\<forall>n \<le> length (pending s). links (take n (pending s)) (links es (status_link ti s)) \<noteq> (True, True)) \<or>
      a = Some (SUCCESS ti) \<and> status_link ti s' = (True, True) \<and>
        (\<exists>n. first_after (\<lambda>l. l = (True, True)) (links es (status_link ti s)) (pending s) n \<and>
          pending s' = drop n (pending s)))"
  using wlan_connect_ends [OF assms]
  by (auto simp: ends_def connect_waited_def)

theorem WlanConnect_waits_witness:
  "\<exists>s'. WlanConnect sample_ti sample_cc = Inr (Some 0, s') \<and> pending s' = [SockEvent None] \<and>
     status_link sample_ti s' = (True, True)"
proof -
  have run: "ti_run sample_ti (sl_WlanConnect (SSID_NAME sample_ti) (SECURITY_KEY sample_ti) (SECURITY_TYPE sample_ti))
      (device sample_cc) = (0, [], ())" and down: "links [] (status_link sample_ti sample_cc) = (False, False)"
    by (simp_all add: sample_ti_def  sample_cc_def links_def status_link_def)
  have five: "first_after (\<lambda>l. l = (True, True)) (False, False) (pending sample_cc) 5"
    using sample_first by (simp add: sample_cc_def)
  have unique: "n = 5" if "first_after (\<lambda>l. l = (True, True)) (False, False) (pending sample_cc) n" for n
    using first_after_unique [OF that five] .
  have rest: "drop 5 (pending sample_cc) = [SockEvent None]" "SUCCESS sample_ti = 0"
    by (simp_all add: sample_cc_def sample_events_def sample_ti_def)
  obtain a s' where ends: "WlanConnect sample_ti sample_cc = Inr (a, s')"
    and "a = None \<and> (\<forall>n \<le> length (pending sample_cc). links (take n (pending sample_cc)) (False, False) \<noteq> (True, True)) \<or>
      a = Some 0 \<and> status_link sample_ti s' = (True, True) \<and>
        (\<exists>n. first_after (\<lambda>l. l = (True, True)) (False, False) (pending sample_cc) n \<and>
          pending s' = drop n (pending sample_cc))"
    using WlanConnect_waits [OF sample_ti_ok run] unfolding down rest by auto
  then show ?thesis
  proof (elim disjE)
    assume "a = None \<and> (\<forall>n \<le> length (pending sample_cc). links (take n (pending sample_cc)) (False, False) \<noteq> (True, True))"
    with five show ?thesis unfolding first_after_def by blast
  next
    assume "a = Some 0 \<and> status_link sample_ti s' = (True, True) \<and>
      (\<exists>n. first_after (\<lambda>l. l = (True, True)) (False, False) (pending sample_cc) n \<and>
        pending s' = drop n (pending sample_cc))"
    with ends rest(1) show ?thesis by (auto dest: unique)
  qed
qed

text \<open>
  C28. How the CC3200 program starts. It never faults before the scheduler runs. It ends in a loop
  of its own only right after a call of the driver that did not return what the program needs;
  it waits only when all events are used up; and when it starts the scheduler, its last calls of
  the driver were a successful \<open>sl_WlanConnect\<close>, the creation of the message queue, which succeeded
  and was made when the status word said that the station is connected and has an address, and
  those of the mutex, the task and the scheduler. The results of creating the mutex and the task
  are not looked at: the command task may run without them.
\<close>

theorem cc_main_outcome:
  assumes "ti_macros ti" and "driver_fits ti" and "running ti s"
  shows "\<exists>e s'. cc_main ti s = Inr (e, s') \<and> (case e of
      Waits \<Rightarrow> pending s' = []
    | LoopsForever \<Rightarrow> call_failed ti s'
    | Returns n \<Rightarrow> n = 0 \<and> started ti (ti_log s'))"
  using cc_main_ends [OF assms] unfolding ends_def main_ended_def by blast

text \<open>The run of \<open>main\<close> on this driver, up to the state that its waits look at.\<close>

definition sample_before :: "unit cc_app \<Rightarrow> bool" where
  "sample_before s \<longleftrightarrow> running sample_ti s \<and> g_ulStatus s = 0 \<and> pending s = sample_events"

lemma sample_calls:
  "sample_before s \<Longrightarrow> (\<And>t. sample_before t \<Longrightarrow> ends (k 0) t Q) \<Longrightarrow> ends (chain (call_ti sample_ti c) k) s Q"
  "sample_before s \<Longrightarrow> (\<And>t. sample_before t \<Longrightarrow> ends (n ()) t Q) \<Longrightarrow> ends (chain (UART_PRINT u) n) s Q"
  "sample_before s \<Longrightarrow> (\<And>t. sample_before t \<Longrightarrow> ends (l ()) t Q) \<Longrightarrow> ends (chain InitializeAppVariables l) s Q"
  by (auto simp: ends_def chain_def call_ti_def UART_PRINT_def InitializeAppVariables_def sample_before_def
      running_def app_ok_def sample_ti_def)

lemma sample_checked:
  "sample_before s \<Longrightarrow> (\<And>t. sample_before t \<Longrightarrow> ends (chain (k 0) m) t Q) \<Longrightarrow>
    ends (chain (checked sample_ti c k) m) s Q"
  unfolding checked_def chain_assoc
  by (erule sample_calls(1)) (simp add: on_error_def sample_ti_def)

lemma sample_ti_simps:
  "\<not> IS_CONNECTED sample_ti 0" "ROLE_STA sample_ti = 0" "OSI_OK sample_ti = 0" "SUCCESS sample_ti = 0"
  by (simp_all add: sample_ti_def)

lemma wait_until_now: "b (g_ulStatus s) \<Longrightarrow> wait_until ti b s = Inr (True, s)"
proof -
  assume "b (g_ulStatus s)"
  then have "wait_on ti b es s = Inr (Some es, s)" for es
    by (cases es) simp_all
  then show ?thesis by (simp add: wait_until_def)
qed

lemma sample_wait:
  "sample_before s \<Longrightarrow> ends (k True) s Q \<Longrightarrow>
    ends (chain (wait_until sample_ti (\<lambda>v. \<not> IS_CONNECTED sample_ti v)) k) s Q"
  by (simp add: ends_def wait_until_now sample_before_def sample_ti_simps)

lemma sample_print_version:
  "sample_before s \<Longrightarrow> (\<And>t. sample_before t \<Longrightarrow> ends (k ()) t Q) \<Longrightarrow>
    ends (chain (print_version sample_ti) k) s Q"
  by (auto simp: ends_def chain_def print_version_def UART_PRINT_def sample_before_def running_def app_ok_def
      split: prod.splits)

lemma sample_station:
  assumes "sample_before s" and "\<And>t. sample_before t \<Longrightarrow> ends (k (Some 0)) t Q"
  shows "ends (chain (configure_station sample_ti) k) s Q"
proof -
  have rest: "ends (chain (configure_rest sample_ti) k) t Q" if "sample_before t" for t
    unfolding configure_rest_def
    by (intro sample_checked) (use that assms(2) in \<open>auto intro: sample_calls(3)\<close>)
  have wait: "ends (chain (if r = 0 then wait_until sample_ti (\<lambda>v. \<not> IS_CONNECTED sample_ti v) else ret True)
      (\<lambda>ok. chain (if ok then configure_rest sample_ti else ret None) k)) t Q" if "sample_before t" "r = 0" for r t
    unfolding that(2) if_P [OF refl] using that(1) by (rule sample_wait) (use rest [OF that(1)] in simp)
  show ?thesis
    unfolding configure_station_def
    by (rule sample_checked [OF assms(1)], simp only: chain_assoc, rule sample_print_version, assumption,
      (rule sample_checked, assumption)+, simp only: chain_assoc, rule sample_calls(1), assumption,
      rule wait, assumption, rule refl)
qed

lemma sample_configure:
  "sample_before s \<Longrightarrow> (\<And>t. sample_before t \<Longrightarrow> ends (k (Some 0)) t Q) \<Longrightarrow>
    ends (chain (ConfigureSimpleLinkToDefaultState sample_ti) k) s Q"
  unfolding ConfigureSimpleLinkToDefaultState_def
  by (erule sample_checked) (simp add: sample_ti_simps sample_station)

text \<open>After the wait the pending events are not what they were.\<close>

lemma sample_print:
  "running sample_ti s \<Longrightarrow> (\<And>t. running sample_ti t \<Longrightarrow> ends (k ()) t Q) \<Longrightarrow>
    ends (chain (UART_PRINT u) k) s Q"
  by (auto simp: ends_def chain_def UART_PRINT_def running_def app_ok_def)

lemma sample_call:
  "running sample_ti s \<Longrightarrow> (\<And>t. running sample_ti t \<Longrightarrow> ends (k 0) t Q) \<Longrightarrow>
    ends (chain (call_ti sample_ti c) k) s Q"
  by (auto simp: ends_def chain_def call_ti_def running_def app_ok_def sample_ti_def)

lemma sample_start_tasks:
  "running sample_ti s \<Longrightarrow> ends (start_tasks sample_ti) s (\<lambda>e _. e = Returns 0)"
  unfolding start_tasks_def
  by (erule sample_call, simp only: sample_ti_simps simp_thms if_False, erule sample_call,
    simp only: sample_ti_simps simp_thms if_False chain_ret, erule sample_call, erule sample_call)
    (simp add: ends_def)

lemma sample_wlan:
  assumes "sample_before s" and "\<And>t. running sample_ti t \<Longrightarrow> ends (k (Some 0)) t Q"
  shows "ends (chain (WlanConnect sample_ti) k) s Q"
proof -
  from assms(1) have s: "running sample_ti s" "pending s = sample_events"
    "status_link sample_ti s = (False, False)" "links [] (False, False) = (False, False)"
    by (simp_all add: sample_before_def status_link_def sample_ti_def links_def)
  have "ti_run sample_ti (wlan_call sample_ti) (device s) = (0, [], ())"
    by (simp add: sample_ti_def)
  from wlan_connect_ends [OF sample_ti_ok(1,2) s(1) this] show ?thesis
  proof (rule ends_through)
    fix a t
    assume t: "running sample_ti t \<and> ti_log t = ti_log s @ [(wlan_call sample_ti, 0, g_ulStatus s)] \<and>
      (0 < (0 :: int) \<longrightarrow> a = Some 0 \<and> pending t = pending s) \<and>
      (0 \<le> (0 :: int) \<longrightarrow> connect_waited sample_ti (links [] (status_link sample_ti s)) (pending s) a t)"
    with sample_first have "a = Some 0"
      unfolding s connect_waited_def first_after_def by (auto simp: sample_ti_simps)
    with assms(2) t show "ends (k a) t Q" by simp
  qed
qed

lemma sample_each:
  "sample_before s \<Longrightarrow> (\<And>t. sample_before t \<Longrightarrow> ends (k ()) t Q) \<Longrightarrow>
    ends (chain (call_each sample_ti cs) k) s Q"
proof (induction cs arbitrary: s)
  case (Cons c cs)
  show ?case
    unfolding call_each.simps chain_assoc
    by (rule sample_calls(1) [OF Cons.prems(1)], erule Cons.IH, erule Cons.prems(2))
qed (simp add: ends_def)

lemma sample_banner:
  "sample_before s \<Longrightarrow> (\<And>t. sample_before t \<Longrightarrow> ends (k ()) t Q) \<Longrightarrow>
    ends (chain (DisplayBanner u) k) s Q"
  unfolding DisplayBanner_def chain_assoc
  by ((erule sample_calls(2))+) simp

lemma sample_connect_and_start:
  "sample_before s \<Longrightarrow> ends (connect_and_start sample_ti) s (\<lambda>e _. e = Returns 0)"
  unfolding connect_and_start_def
  apply (erule sample_calls(1), simp only: less_irrefl if_False)
  apply (erule sample_calls(2))+
  apply (erule sample_wlan, simp only: option.case less_irrefl if_False)
  apply (erule sample_print, rule ends_chain, rule ends_simple(2))
  apply (erule sample_print, erule sample_start_tasks)
  done

theorem cc_main_outcome_witness:
  "\<exists>s'. cc_main sample_ti sample_cc = Inr (Returns 0, s') \<and> started sample_ti (ti_log s')"
proof -
  have "ends (cc_main sample_ti) sample_cc (\<lambda>e _. e = Returns 0)"
    unfolding cc_main_def BoardInit_def PinMuxConfig_def
    apply (rule sample_each)
    subgoal by (simp add: sample_before_def sample_ti_ok) (simp add: sample_cc_def)
    apply ((erule sample_each)+, erule sample_banner, erule sample_calls(3), erule sample_configure)
    apply (simp only: option.case less_irrefl if_False)
    apply (erule sample_calls(2), erule sample_connect_and_start)
    done
  with cc_main_outcome [OF sample_ti_ok] show ?thesis
    by (auto simp: ends_def)
qed

end
