(* ===== verification/CC3200_Light.thy ===== *)
theory CC3200_Light
  imports Linux_Handlers Linux_Platform
begin

text \<open>
  The smart light of the CC3200 sample (cc3200-sample/freertos_thingsdk_demo/main.c): the
  light behind its mutex, \<open>action_handler\<close> and \<open>state_handler\<close>. The state that an action stores
  is the one that the next upload's text reads back to.
\<close>

section \<open>The light and its surroundings\<close>

record prv_smartlight_t =
  light_power :: int
  brightness :: int
  color :: "int \<times> int \<times> int"
  color_temperature :: int

record 'x light_world =
  m_smartlight :: prv_smartlight_t
  light_uart :: string
  light_stdout :: string
  light_rest :: 'x

datatype light_field_type = KII_JSON_FIELD_TYPE_BOOLEAN | KII_JSON_FIELD_TYPE_INTEGER

text \<open>
  TI's mutex calls, the enumerators that are compared, and \<open>kii_json_read_object\<close> on a JSON text, the
  size of the array for its message and the paths and types of the fields: its result, the value
  that it leaves in \<open>field_copy\<close> of each field, and the message that it wrote if it did.
\<close>

record 'x light_sys =
  osi_LockObjLock :: "'x \<Rightarrow> int \<times> 'x"
  osi_LockObjUnlock :: "'x \<Rightarrow> int \<times> 'x"
  light_OSI_OK :: int
  light_JSON_TRUE :: int
  light_read_object ::
    "string \<Rightarrow> nat \<Rightarrow> (string \<times> light_field_type) list \<Rightarrow>
       kii_json_parse_result \<times> (nat \<Rightarrow> int) \<times> string option"

definition light_Report :: "string \<Rightarrow> ('x light_world, unit) prog" where
  "light_Report t = modify (\<lambda>w. w\<lparr>light_uart := light_uart w @ t\<rparr>)"

definition light_printf :: "string \<Rightarrow> ('x light_world, unit) prog" where
  "light_printf t = modify (\<lambda>w. w\<lparr>light_stdout := light_stdout w @ t\<rparr>)"

definition light_mutex :: "('x \<Rightarrow> int \<times> 'x) \<Rightarrow> ('x light_world, int) prog" where
  "light_mutex f = (\<lambda>w. case f (light_rest w) of (r, x) \<Rightarrow> Inr (r, w\<lparr>light_rest := x\<rparr>))"

section \<open>The code\<close>

text \<open>The result and what \<open>*smartlight\<close> holds then.\<close>

definition prv_get_smartlight_info ::
  "'x light_sys \<Rightarrow> prv_smartlight_t \<Rightarrow> ('x light_world, bool \<times> prv_smartlight_t) prog" where
  "prv_get_smartlight_info dev smartlight =
     chain (light_mutex (osi_LockObjLock dev)) (\<lambda>r.
     if r \<noteq> light_OSI_OK dev then ret (False, smartlight)
     else
       chain (gets m_smartlight) (\<lambda>m.
       chain (light_mutex (osi_LockObjUnlock dev)) (\<lambda>r.
       if r \<noteq> 0 then ret (False, m) else ret (True, m))))"

definition prv_set_smartlight_info ::
  "'x light_sys \<Rightarrow> prv_smartlight_t \<Rightarrow> ('x light_world, bool) prog" where
  "prv_set_smartlight_info dev smartlight =
     chain (light_mutex (osi_LockObjLock dev)) (\<lambda>r.
     if r \<noteq> light_OSI_OK dev then ret False
     else
       chain (modify (\<lambda>w. w\<lparr>m_smartlight := smartlight\<rparr>)) (\<lambda>_.
       chain (light_mutex (osi_LockObjUnlock dev)) (\<lambda>r.
       if r \<noteq> light_OSI_OK dev then ret False else ret True)))"

definition zero_smartlight :: prv_smartlight_t where
  "zero_smartlight = \<lparr>light_power = 0, brightness = 0, color = (0, 0, 0), color_temperature = 0\<rparr>"

definition prv_json_read_object_light ::
  "'x light_sys \<Rightarrow> string \<Rightarrow> (string \<times> light_field_type) list \<Rightarrow>
     kii_json_parse_result \<times> (nat \<Rightarrow> int) \<times> string option" where
  "prv_json_read_object_light dev json fs = light_read_object dev json (EMESSAGE_SIZE + 1) fs"

text \<open>
  One branch of the action handler: the fields it reads, its complaint when that fails, and what it
  does to the copy of the light. The result is the new copy if there is one, and the message.
\<close>

definition read_action ::
  "'x light_sys \<Rightarrow> string \<Rightarrow> (string \<times> light_field_type) list \<Rightarrow> string \<Rightarrow> ((nat \<Rightarrow> int) \<Rightarrow> prv_smartlight_t) \<Rightarrow>
     ('x light_world, prv_smartlight_t option \<times> string option) prog" where
  "read_action dev action_params fs complaint change =
     (case prv_json_read_object_light dev action_params fs of (r, v, m) \<Rightarrow>
        if r \<noteq> KII_JSON_PARSE_SUCCESS then
          chain (light_Report (complaint @ [CHR 0x0A])) (\<lambda>_. ret (None, m))
        else ret (Some (change v), m))"

definition change_light ::
  "'x light_sys \<Rightarrow> string \<Rightarrow> string \<Rightarrow> prv_smartlight_t \<Rightarrow>
     ('x light_world, prv_smartlight_t option \<times> string option) prog" where
  "change_light dev action_name action_params smartlight =
     (if action_name = ''turnPower'' then
        read_action dev action_params [(''/power'', KII_JSON_FIELD_TYPE_BOOLEAN)] ''invalid turnPower json''
          (\<lambda>v. smartlight\<lparr>light_power := v 0\<rparr>)
      else if action_name = ''setBrightness'' then
        read_action dev action_params [(''/brightness'', KII_JSON_FIELD_TYPE_INTEGER)] ''invalid brightness json''
          (\<lambda>v. smartlight\<lparr>brightness := v 0\<rparr>)
      else if action_name = ''setColor'' then
        read_action dev action_params
          [(''/color/[0]'', KII_JSON_FIELD_TYPE_INTEGER), (''/color/[1]'', KII_JSON_FIELD_TYPE_INTEGER),
           (''/color/[2]'', KII_JSON_FIELD_TYPE_INTEGER)] ''invalid color json''
          (\<lambda>v. smartlight\<lparr>color := (v 0, v 1, v 2)\<rparr>)
      else if action_name = ''setColorTemperature'' then
        read_action dev action_params [(''/colorTemperature'', KII_JSON_FIELD_TYPE_INTEGER)]
          ''invalid colorTemperature json'' (\<lambda>v. smartlight\<lparr>color_temperature := v 0\<rparr>)
      else
        chain (light_Report (''invalid action: '' @ action_name @ [CHR 0x0A])) (\<lambda>_. ret (None, None)))"

text \<open>The result, and the text written to \<open>error\<close> if one was.\<close>

definition action_handler_cc3200 ::
  "'x light_sys \<Rightarrow> string \<Rightarrow> int \<Rightarrow> string \<Rightarrow> string \<Rightarrow> ('x light_world, bool \<times> string option) prog" where
  "action_handler_cc3200 dev schema schema_version action_name action_params =
     chain (light_Report (''schema='' @ schema @ '', schema_version='' @ show_int schema_version @
       '', action name='' @ action_name @ '', action params='' @ action_params @ '' '' @
       show_int (as_int (length action_params)) @ [CHR 0x0A])) (\<lambda>_.
     if schema \<noteq> ''SmartLightDemo'' \<and> schema_version \<noteq> 1 then
       chain (light_Report (''invalid schema: '' @ schema @ '' '' @ show_int schema_version @ [CHR 0x0A])) (\<lambda>_.
       chain (sprintf_buf (EMESSAGE_SIZE + 1) (''invalid schema: '' @ schema @ '' '' @ show_int schema_version)) (\<lambda>t.
       ret (False, Some t)))
     else
       chain (prv_get_smartlight_info dev zero_smartlight) (\<lambda>(ok, smartlight).
       if \<not> ok then
         chain (light_Report (''fail to lock.'' @ [CHR 0x0A])) (\<lambda>_. ret (False, Some ''fail to lock.''))
       else
         chain (change_light dev action_name action_params smartlight) (\<lambda>(new, m).
         case new of
           None \<Rightarrow> ret (False, m)
         | Some l \<Rightarrow>
             chain (prv_set_smartlight_info dev l) (\<lambda>ok.
             if \<not> ok then chain (light_Report (''fail to unlock.'' @ [CHR 0x0A])) (\<lambda>_. ret (False, m))
             else ret (True, m)))))"

text \<open>\<open>if ((*writer)(kii, ...) == KII_FALSE) { return KII_FALSE; }\<close>, with the text made by \<open>sprintf\<close>.\<close>

definition write_or_fail ::
  "(kii_ptr \<Rightarrow> string \<Rightarrow> ('s, bool) prog) \<Rightarrow> kii_ptr \<Rightarrow> string \<Rightarrow> ('s, bool) prog \<Rightarrow> ('s, bool) prog" where
  "write_or_fail wr kii t k = chain (wr kii t) (\<lambda>ok. if \<not> ok then ret False else k)"

definition state_handler_cc3200 ::
  "'x light_sys \<Rightarrow> kii_ptr \<Rightarrow> (kii_ptr \<Rightarrow> string \<Rightarrow> (('p, 'x light_world) st, bool) prog) \<Rightarrow>
     (('p, 'x light_world) st, bool) prog" where
  "state_handler_cc3200 dev kii wr =
     chain (on_world (prv_get_smartlight_info dev zero_smartlight)) (\<lambda>(ok, smartlight).
     if \<not> ok then chain (on_world (light_printf (''fail to lock.'' @ [CHR 0x0A]))) (\<lambda>_. ret False)
     else
       write_or_fail wr kii (''{'' @ dquote @ ''power'' @ dquote @ '':'')
       (write_or_fail wr kii (if light_power smartlight = light_JSON_TRUE dev then ''true,'' else ''false,'')
       (write_or_fail wr kii (dquote @ ''brightness'' @ dquote @ '':'')
       (chain (sprintf_buf 256 (show_int (brightness smartlight) @ '','')) (\<lambda>buf.
       write_or_fail wr kii buf
       (write_or_fail wr kii (dquote @ ''color'' @ dquote @ '':'')
       (chain (case color smartlight of (r, g, b) \<Rightarrow>
         sprintf_buf 256 (''['' @ show_int r @ '','' @ show_int g @ '','' @ show_int b @ ''],'')) (\<lambda>buf.
       write_or_fail wr kii buf
       (write_or_fail wr kii (dquote @ ''colorTemperature'' @ dquote @ '':'')
       (chain (sprintf_buf 256 (show_int (color_temperature smartlight) @ ''}'')) (\<lambda>buf.
       write_or_fail wr kii buf (ret True))))))))))))"

section \<open>Reading the uploaded text\<close>

text \<open>A reader for the text of the state: literal pieces and decimal numbers.\<close>

definition expect :: "string \<Rightarrow> string \<Rightarrow> string option" where
  "expect p t = (if take (length p) t = p then Some (drop (length p) t) else None)"

definition read_digits :: "string \<Rightarrow> (int \<times> string) option" where
  "read_digits t =
     (if takeWhile is_digit t = [] then None else Some (digits_value t, dropWhile is_digit t))"

definition read_int :: "string \<Rightarrow> (int \<times> string) option" where
  "read_int t =
     (case t of
        [] \<Rightarrow> None
      | c # u \<Rightarrow> if c = CHR ''-'' then map_option (\<lambda>(n, v). (- n, v)) (read_digits u) else read_digits t)"

definition read_bool :: "string \<Rightarrow> (bool \<times> string) option" where
  "read_bool t =
     (case expect ''true'' t of
        Some u \<Rightarrow> Some (True, u)
      | None \<Rightarrow> map_option (\<lambda>u. (False, u)) (expect ''false'' t))"

text \<open>A number and the literal behind it.\<close>

definition read_member :: "string \<Rightarrow> string \<Rightarrow> (int \<times> string) option" where
  "read_member p t = Option.bind (read_int t) (\<lambda>(n, u). map_option (Pair n) (expect p u))"

type_synonym light_view = "bool \<times> int \<times> (int \<times> int \<times> int) \<times> int"

definition read_light :: "string \<Rightarrow> light_view option" where
  "read_light t =
     Option.bind (expect (''{'' @ dquote @ ''power'' @ dquote @ '':'') t) (\<lambda>t.
     Option.bind (read_bool t) (\<lambda>(on, t).
     Option.bind (expect ('','' @ dquote @ ''brightness'' @ dquote @ '':'') t) (\<lambda>t.
     Option.bind (read_member ('','' @ dquote @ ''color'' @ dquote @ '':['') t) (\<lambda>(n, t).
     Option.bind (read_member '','' t) (\<lambda>(r, t).
     Option.bind (read_member '','' t) (\<lambda>(g, t).
     Option.bind (read_member (''],'' @ dquote @ ''colorTemperature'' @ dquote @ '':'') t) (\<lambda>(b, t).
     Option.bind (read_member ''}'' t) (\<lambda>(k, t).
     if t = [] then Some (on, n, (r, g, b), k) else None))))))))"

definition view :: "'x light_sys \<Rightarrow> prv_smartlight_t \<Rightarrow> light_view" where
  "view dev l = (light_power l = light_JSON_TRUE dev, brightness l, color l, color_temperature l)"

definition light_json :: "light_view \<Rightarrow> string" where
  "light_json v = (case v of (on, n, (r, g, b), k) \<Rightarrow>
     ''{'' @ dquote @ ''power'' @ dquote @ '':'' @ (if on then ''true'' else ''false'') @
     '','' @ dquote @ ''brightness'' @ dquote @ '':'' @ show_int n @
     '','' @ dquote @ ''color'' @ dquote @ '':['' @ show_int r @ '','' @ show_int g @ '','' @ show_int b @
     ''],'' @ dquote @ ''colorTemperature'' @ dquote @ '':'' @ show_int k @ ''}'')"

lemma expect_append [simp]: "expect p (p @ t) = Some t"
  by (simp add: expect_def)

lemma show_nat_digits: "list_all is_digit (show_nat n)"
proof (induction n rule: show_nat.induct)
  case (1 n)
  have "n mod 10 \<le> 9" using mod_less_divisor [of 10 n] by linarith
  with 1 show ?case by (subst show_nat.simps) (simp add: is_digit_def [of "char_of _"])
qed

lemma fold_show_nat:
  "foldl (\<lambda>n c. 10 * n + int (of_char c) - 48) 0 (show_nat n) = int n"
proof (induction n rule: show_nat.induct)
  case (1 n)
  have "10 * int (n div 10) + int (n mod 10) = int n" by presburger
  with 1 show ?case by (subst show_nat.simps) simp
qed

lemma span_append:
  "list_all P xs \<Longrightarrow> \<not> P c \<Longrightarrow> takeWhile P (xs @ c # ys) = xs \<and> dropWhile P (xs @ c # ys) = c # ys"
  by (induction xs) auto

lemma read_digits_show:
  "\<not> is_digit c \<Longrightarrow> read_digits (show_nat n @ c # t) = Some (int n, c # t)"
  using span_append [OF show_nat_digits, of c n t] show_nat_nonempty [of n]
  by (simp add: read_digits_def digits_value_def fold_show_nat)

lemma read_int_show: "\<not> is_digit c \<Longrightarrow> read_int (show_int n @ c # t) = Some (n, c # t)"
proof (cases "n < 0")
  case True
  assume "\<not> is_digit c"
  with True show ?thesis by (simp add: read_int_def show_int_def read_digits_show)
next
  case False
  assume c: "\<not> is_digit c"
  obtain d u where d: "show_nat (nat n) = d # u" using show_nat_nonempty [of "nat n"] by (metis neq_Nil_conv)
  with show_nat_digits [of "nat n"] have "d \<noteq> CHR ''-''" by (auto simp: is_digit_def)
  with False d read_digits_show [OF c, of "nat n" t] show ?thesis
    by (simp add: read_int_def show_int_def)
qed

lemma read_light_json: "read_light (light_json v) = Some v"
proof -
  obtain on n r g b k where v: "v = (on, n, (r, g, b), k)" by (metis prod.exhaust)
  show ?thesis
    unfolding v light_json_def read_light_def read_bool_def read_member_def dquote_def
    by (cases "on") (simp_all add: expect_def read_int_show is_digit_def)
qed

section \<open>What the handlers do\<close>

text \<open>What an action asks for: the fields of its parameters and how they change the light.\<close>

definition asked ::
  "'x light_sys \<Rightarrow> string \<Rightarrow> ((string \<times> light_field_type) list \<times> ((nat \<Rightarrow> int) \<Rightarrow> light_view \<Rightarrow> light_view)) option"
where
  "asked dev name =
     map_of
       [(''turnPower'', ([(''/power'', KII_JSON_FIELD_TYPE_BOOLEAN)],
           \<lambda>v (on, n, c, k). (v 0 = light_JSON_TRUE dev, n, c, k))),
        (''setBrightness'', ([(''/brightness'', KII_JSON_FIELD_TYPE_INTEGER)],
           \<lambda>v (on, n, c, k). (on, v 0, c, k))),
        (''setColor'', ([(''/color/[0]'', KII_JSON_FIELD_TYPE_INTEGER), (''/color/[1]'', KII_JSON_FIELD_TYPE_INTEGER),
             (''/color/[2]'', KII_JSON_FIELD_TYPE_INTEGER)],
           \<lambda>v (on, n, c, k). (on, n, (v 0, v 1, v 2), k))),
        (''setColorTemperature'', ([(''/colorTemperature'', KII_JSON_FIELD_TYPE_INTEGER)],
           \<lambda>v (on, n, c, k). (on, n, c, v 0)))]
       name"

text \<open>The light that an action asks for, if its name is known and its parameters can be read.\<close>

definition asked_view :: "'x light_sys \<Rightarrow> string \<Rightarrow> string \<Rightarrow> light_view \<Rightarrow> light_view option" where
  "asked_view dev name params l =
     (case asked dev name of
        None \<Rightarrow> None
      | Some (fs, change) \<Rightarrow> (case light_read_object dev params 51 fs of (r, v, m) \<Rightarrow>
          if r = KII_JSON_PARSE_SUCCESS then Some (change v l) else None))"

lemma change_light_ends:
  "ends (change_light dev name params l) w (\<lambda>(new, m) w'. m_smartlight w' = m_smartlight w \<and>
     map_option (view dev) new = asked_view dev name params (view dev l))"
  unfolding change_light_def read_action_def prv_json_read_object_light_def light_Report_def
  by (intro ends_cases(1,3) ends_chain ends_simple)
    (auto simp: asked_view_def asked_def view_def EMESSAGE_SIZE_def)

definition light_mutex_works :: "'x light_sys \<Rightarrow> bool" where
  "light_mutex_works dev \<longleftrightarrow> light_OSI_OK dev = 0 \<and>
     (\<forall>x. fst (osi_LockObjLock dev x) = 0 \<and> fst (osi_LockObjUnlock dev x) = 0)"

lemma ends_light [ends_intros]:
  "(\<And>r x. f (light_rest w) = (r, x) \<Longrightarrow> Q r (w\<lparr>light_rest := x\<rparr>)) \<Longrightarrow> ends (light_mutex f) w Q"
  "S () (w\<lparr>light_uart := light_uart w @ t\<rparr>) \<Longrightarrow> ends (light_Report t) w S"
  "S () (w\<lparr>light_stdout := light_stdout w @ t\<rparr>) \<Longrightarrow> ends (light_printf t) w S"
  by (auto simp: ends_def light_mutex_def light_Report_def light_printf_def split: prod.splits)

lemma works_locks:
  "light_mutex_works dev \<Longrightarrow> osi_LockObjLock dev x = (r, y) \<Longrightarrow> r = light_OSI_OK dev"
  "light_mutex_works dev \<Longrightarrow> osi_LockObjUnlock dev x = (r, y) \<Longrightarrow> r = 0"
  "light_mutex_works dev \<Longrightarrow> osi_LockObjUnlock dev x = (r, y) \<Longrightarrow> r = light_OSI_OK dev"
  unfolding light_mutex_works_def by (metis fst_conv)+

lemma info_ends:
  "ends (prv_get_smartlight_info dev z) w (\<lambda>(ok, m) w'. m_smartlight w' = m_smartlight w \<and>
     (ok \<longrightarrow> m = m_smartlight w) \<and> (light_mutex_works dev \<longrightarrow> ok))"
  "ends (prv_set_smartlight_info dev l) w (\<lambda>ok w'. m_smartlight w' \<in> {m_smartlight w, l} \<and>
     (ok \<longrightarrow> m_smartlight w' = l) \<and> (light_mutex_works dev \<longrightarrow> ok))"
  unfolding prv_get_smartlight_info_def prv_set_smartlight_info_def
  by (intro ends_intros; auto dest: works_locks)+

definition complaint :: "string \<Rightarrow> int \<Rightarrow> string" where
  "complaint schema ver = ''invalid schema: '' @ schema @ '' '' @ show_int ver"

definition schema_refused :: "string \<Rightarrow> int \<Rightarrow> bool" where
  "schema_refused schema ver \<longleftrightarrow> schema \<noteq> ''SmartLightDemo'' \<and> ver \<noteq> 1"

text \<open>What an action that is not refused by its schema comes to.\<close>

definition action_done ::
  "'x light_sys \<Rightarrow> string \<Rightarrow> string \<Rightarrow> 'x light_world \<Rightarrow> bool \<Rightarrow> 'x light_world \<Rightarrow> bool" where
  "action_done dev name params w ok w' \<longleftrightarrow>
     (let l = view dev (m_smartlight w); new = asked_view dev name params l; l' = view dev (m_smartlight w')
      in (ok \<longrightarrow> new = Some l') \<and> (l' = l \<or> new = Some l') \<and>
         (light_mutex_works dev \<and> \<not> ok \<longrightarrow> new = None \<and> l' = l))"

lemma action_accepted:
  assumes "\<not> schema_refused schema ver"
  shows "ends (action_handler_cc3200 dev schema ver name params) w (\<lambda>(ok, m) w'. action_done dev name params w ok w')"
proof -
  have set_light: "ends (chain (prv_set_smartlight_info dev l) (\<lambda>ok.
      if \<not> ok then chain (light_Report u) (\<lambda>_. ret (False, m)) else ret (True, m))) w'
      (\<lambda>(ok, m) w''. action_done dev name params w ok w'')"
    if "m_smartlight w' = m_smartlight w" "asked_view dev name params (view dev (m_smartlight w)) = Some (view dev l)"
    for l u m w'
    by (rule ends_through [OF info_ends(2)], intro ends_intros)
      (use that in \<open>auto simp: action_done_def Let_def\<close>)
  have change: "ends (chain (change_light dev name params l) (\<lambda>(new, m). case new of
        None \<Rightarrow> ret (False, m)
      | Some l \<Rightarrow> chain (prv_set_smartlight_info dev l) (\<lambda>ok.
          if \<not> ok then chain (light_Report u) (\<lambda>_. ret (False, m)) else ret (True, m)))) w'
      (\<lambda>(ok, m) w''. action_done dev name params w ok w'')"
    if "m_smartlight w' = m_smartlight w" "l = m_smartlight w" for l u w'
    by (rule ends_through [OF change_light_ends], intro ends_cases(2,3) set_light ends_simple(1))
      (use that in \<open>auto simp: action_done_def Let_def\<close>)
  show ?thesis
    unfolding action_handler_cc3200_def
    by (rule ends_chain, rule ends_light(2), rule ends_cases(1),
      use assms in \<open>simp add: schema_refused_def\<close>,
      rule ends_through [OF info_ends(1)], intro ends_cases(1,3) change ends_intros)
      (auto simp: action_done_def Let_def)
qed

lemma action_refused:
  "schema_refused schema ver \<Longrightarrow>
     if length (complaint schema ver) \<le> EMESSAGE_SIZE
     then \<exists>w'. action_handler_cc3200 dev schema ver name params w = Inr ((False, Some (complaint schema ver)), w') \<and>
       m_smartlight w' = m_smartlight w
     else action_handler_cc3200 dev schema ver name params w = Inl OutOfBounds"
  by (auto simp: action_handler_cc3200_def schema_refused_def complaint_def light_Report_def sprintf_buf_def
      chain_def EMESSAGE_SIZE_def)

section \<open>What is uploaded\<close>

definition light_pieces :: "light_view \<Rightarrow> string list" where
  "light_pieces v = (case v of (on, n, (r, g, b), k) \<Rightarrow>
     [''{'' @ dquote @ ''power'' @ dquote @ '':'', if on then ''true,'' else ''false,'',
      dquote @ ''brightness'' @ dquote @ '':'', show_int n @ '','',
      dquote @ ''color'' @ dquote @ '':'', ''['' @ show_int r @ '','' @ show_int g @ '','' @ show_int b @ ''],'',
      dquote @ ''colorTemperature'' @ dquote @ '':'', show_int k @ ''}''])"

lemma concat_light_pieces: "concat (light_pieces v) = light_json v"
  by (simp add: light_pieces_def light_json_def dquote_def split: prod.split)

lemma yields_write_or_fail:
  "(\<And>t. trace t = trace s @ [ApiAppend p b 0] \<Longrightarrow> yields k t Q) \<Longrightarrow> (\<And>t. Q False t) \<Longrightarrow>
    yields (write_or_fail (prv_writer env) p b k) s Q"
  unfolding write_or_fail_def
  by (rule yields_chain, rule yields_writer) (simp_all add: yields_simple(1))

lemma yields_sprintf: "Q t s \<Longrightarrow> yields (sprintf_buf n t) s Q"
  by (simp add: yields_def sprintf_buf_def)

lemma get_light_yields:
  "yields (prv_get_smartlight_info dev z) w (\<lambda>(ok, m) w'. ok \<longrightarrow> m = m_smartlight w)"
  using info_ends(1) [of dev z w] by (auto simp: yields_def ends_def)

lemma state_handler_pieces:
  "yields (state_handler_cc3200 dev p (prv_writer env)) s (\<lambda>ok t. ok \<longrightarrow>
     trace t = trace s @ map (\<lambda>c. ApiAppend p c 0) (light_pieces (view dev (m_smartlight (world s)))))"
proof -
  obtain r g b where c: "color (m_smartlight (world s)) = (r, g, b)" by (metis prod.exhaust)
  show ?thesis
    unfolding state_handler_cc3200_def
    apply (rule yields_chain, rule yields_on_world, rule yields_weaken [OF get_light_yields])
    apply (rule yields_cases(3), rule yields_cases(1))
    subgoal by (simp add: yields_def chain_eq_Inr)
    apply (intro yields_write_or_fail yields_chain yields_sprintf yields_cases(3) yields_simple(1))
    apply (use c in \<open>auto simp: light_pieces_def view_def\<close>)
    done
qed

section \<open>Properties\<close>

text \<open>
  C29. Actions of the smart light. Only a command with both an unknown schema and a version other
  than 1 is refused (the check joins the two conditions with \<open>&&\<close>); the refusal is written into an array
  of 51 characters with \<open>sprintf\<close> and overruns it when the schema's name is too long. Every other
  command ends without a fault. If the mutex works it succeeds exactly when its name is known and its
  parameters can be read, and then the light is what it asks for; a command that fails leaves the light
  alone. With a failing mutex a success still means that the light was set.
\<close>

theorem light_action_outcome:
  "if schema_refused schema ver
   then if length (complaint schema ver) \<le> EMESSAGE_SIZE
     then \<exists>w'. action_handler_cc3200 dev schema ver name params w = Inr ((False, Some (complaint schema ver)), w') \<and>
       m_smartlight w' = m_smartlight w
     else action_handler_cc3200 dev schema ver name params w = Inl OutOfBounds
   else \<exists>ok m w'. action_handler_cc3200 dev schema ver name params w = Inr ((ok, m), w') \<and>
     action_done dev name params w ok w'"
proof (cases "schema_refused schema ver")
  case True
  from action_refused [OF this, of dev name params w] True show ?thesis by auto
next
  case False
  with action_accepted [OF False, of dev name params w] show ?thesis
    by (simp add: ends_def)
qed

text \<open>
  C11. The state of the smart light makes the round trip. After an action that succeeded, a state
  upload that succeeds writes a text that reads back as exactly the light that the action asked for:
  the light of before, with the members that the action names set to the values in its parameters.
\<close>

theorem light_roundtrip:
  assumes "action_handler_cc3200 dev schema ver name params w = Inr ((True, m), w')"
    and "m_smartlight (world s) = m_smartlight w'"
    and "state_handler_cc3200 dev p (prv_writer env) s = Inr (True, s')"
  shows "\<exists>pieces l. trace s' = trace s @ map (\<lambda>c. ApiAppend p c 0) pieces \<and>
    asked_view dev name params (view dev (m_smartlight w)) = Some l \<and> read_light (concat pieces) = Some l"
proof -
  have "\<not> schema_refused schema ver"
    using assms(1) action_refused [of schema ver dev name params w] by (auto split: if_splits)
  from action_accepted [OF this, of dev name params w] assms(1)
  have "asked_view dev name params (view dev (m_smartlight w)) = Some (view dev (m_smartlight w'))"
    by (simp add: ends_def action_done_def Let_def)
  moreover from yieldsD [OF state_handler_pieces assms(3)]
  have "trace s' = trace s @ map (\<lambda>c. ApiAppend p c 0) (light_pieces (view dev (m_smartlight w')))"
    using assms(2) by simp
  ultimately show ?thesis
    by (intro exI conjI) (auto simp: concat_light_pieces read_light_json)
qed

text \<open>A mutex that works and a reader that finds 80 for every number, for the witness.\<close>

definition sample_light_sys :: "unit light_sys" where
  "sample_light_sys =
     \<lparr>osi_LockObjLock = Pair 0, osi_LockObjUnlock = Pair 0, light_OSI_OK = 0, light_JSON_TRUE = 1,
      light_read_object = (\<lambda>t n fs. (KII_JSON_PARSE_SUCCESS, \<lambda>i. 80, None))\<rparr>"

definition sample_light :: "unit light_world" where
  "sample_light =
     \<lparr>m_smartlight = \<lparr>light_power = 1, brightness = 10, color = (255, - 1, 0), color_temperature = 30\<rparr>,
      light_uart = [], light_stdout = [], light_rest = ()\<rparr>"

definition sample_light_env :: "(nat, unit light_world) env" where
  "sample_light_env =
     \<lparr>noassert = False, ulongbufsize = 35, token_num = 128, field_zero = KII_JSON_FIELD_PARSE_SUCCESS,
      http_error_zero = KII_HTTP_ERROR_NONE, zero_private = 0,
      kii_init_with_info = (\<lambda>k host appid appkey info. (0, k)),
      kii_api_call_start = (\<lambda>k meth path ctype auth w. (0, k, w)),
      kii_api_call_append_body = (\<lambda>k b w. (0, k, w)),
      kii_api_call_run = (\<lambda>k w. (0, k, w)), kii_push_start_routine = (\<lambda>k w. (0, k, w)),
      kii_json_read_object = (\<lambda>t fs. (KII_JSON_PARSE_SUCCESS, fs)),
      jsmn_parse = (\<lambda>t n. (JSMN_ERROR_INVAL, [])),
      call_task_create = (\<lambda>f name p w. (True, w)), call_delay_ms = (\<lambda>f ms w. w),
      call_action_handler = (\<lambda>f al name val w. ((False, None), w)),
      call_state_handler = (\<lambda>f. state_handler_cc3200 sample_light_sys),
      call_push_handler = (\<lambda>f p n. ret True)\<rparr>"

definition sample_light_st :: "unit light_world \<Rightarrow> (nat, unit light_world) st" where
  "sample_light_st w =
     \<lparr>thing = \<lparr>command_handler = sample_kii, state_updater = sample_kii, action_handler = None,
        state_handler_for_period = None, state_handler_for_command_reaction = None,
        custom_push_handler = None, state_update_period = 60, state = KII_THING_IF_STATE_ONBOARDED\<rparr>,
      err = None, msg = [], heap = (\<lambda>a. None), world = w, trace = []\<rparr>"

lemma sample_light_write:
  "(\<And>t. ends k t Q) \<Longrightarrow> ends (write_or_fail (prv_writer sample_light_env) p b k) s Q"
  by (simp add: ends_def write_or_fail_def prv_writer_def api_append_def call_kii_def chain_def sample_light_env_def)

lemma ends_sprintf: "length t < n \<Longrightarrow> Q t s \<Longrightarrow> ends (sprintf_buf n t) s Q"
  by (simp add: ends_def sprintf_buf_def)

lemma ends_on_world: "ends m (world s) (\<lambda>a w. Q a (s\<lparr>world := w\<rparr>)) \<Longrightarrow> ends (on_world m) s Q"
  by (auto simp: ends_def on_world_def)

lemma sample_light_works: "light_mutex_works sample_light_sys"
  by (simp add: light_mutex_works_def sample_light_sys_def)

lemma sample_light_action:
  "\<exists>m w. action_handler_cc3200 sample_light_sys ''SmartLightDemo'' 1 ''setBrightness'' ''80'' sample_light =
     Inr ((True, m), w) \<and> view sample_light_sys (m_smartlight w) = (True, 80, (255, - 1, 0), 30)"
proof -
  have new: "asked_view sample_light_sys ''setBrightness'' ''80'' (view sample_light_sys (m_smartlight sample_light)) =
      Some (True, 80, (255, - 1, 0), 30)"
    by (simp add: asked_view_def asked_def sample_light_sys_def view_def sample_light_def)
  have "\<not> schema_refused ''SmartLightDemo'' 1" by (simp add: schema_refused_def)
  from action_accepted [OF this, of sample_light_sys "''setBrightness''" "''80''" sample_light]
  obtain ok m w where "action_handler_cc3200 sample_light_sys ''SmartLightDemo'' 1 ''setBrightness'' ''80'' sample_light =
      Inr ((ok, m), w)" "action_done sample_light_sys ''setBrightness'' ''80'' sample_light ok w"
    by (auto simp: ends_def)
  with sample_light_works show ?thesis
    unfolding action_done_def new Let_def by auto
qed

lemma sample_light_upload:
  assumes "view sample_light_sys (m_smartlight w) = (True, 80, (255, - 1, 0), 30)"
  shows "\<exists>s'. state_handler_cc3200 sample_light_sys CommandHandler (prv_writer sample_light_env) (sample_light_st w) =
    Inr (True, s')"
proof -
  have l: "brightness (m_smartlight w) = 80" "color (m_smartlight w) = (255, - 1, 0)"
    "color_temperature (m_smartlight w) = 30"
    using assms by (simp_all add: view_def)
  have n: "length (show_int 80) \<le> 11" "length (show_int 255) \<le> 11" "length (show_int (- 1)) \<le> 11"
    "length (show_int 0) \<le> 11" "length (show_int 30) \<le> 11"
    by (rule length_show_int32, simp)+
  have "ends (state_handler_cc3200 sample_light_sys CommandHandler (prv_writer sample_light_env)) (sample_light_st w)
      (\<lambda>ok s. ok)"
    unfolding state_handler_cc3200_def
    apply (rule ends_chain, rule ends_on_world, rule ends_weaken [OF info_ends(1)])
    apply (rule ends_cases(3), rule ends_cases(1))
    subgoal using sample_light_works by simp
    apply (intro sample_light_write ends_chain ends_cases(3) ends_sprintf ends_simple(1))
    apply (use l n in \<open>auto simp: sample_light_st_def\<close>)
    done
  then show ?thesis by (auto simp: ends_def)
qed

theorem light_roundtrip_witness:
  "\<exists>m w s' pieces. action_handler_cc3200 sample_light_sys ''SmartLightDemo'' 1 ''setBrightness'' ''80'' sample_light =
       Inr ((True, m), w) \<and>
     state_handler_cc3200 sample_light_sys CommandHandler (prv_writer sample_light_env) (sample_light_st w) =
       Inr (True, s') \<and>
     trace s' = map (\<lambda>c. ApiAppend CommandHandler c 0) pieces \<and>
     read_light (concat pieces) = Some (True, 80, (255, - 1, 0), 30)"
proof -
  obtain m w where action: "action_handler_cc3200 sample_light_sys ''SmartLightDemo'' 1 ''setBrightness'' ''80'' sample_light =
      Inr ((True, m), w)" and light: "view sample_light_sys (m_smartlight w) = (True, 80, (255, - 1, 0), 30)"
    using sample_light_action by blast
  obtain s' where upload: "state_handler_cc3200 sample_light_sys CommandHandler (prv_writer sample_light_env)
      (sample_light_st w) = Inr (True, s')"
    using sample_light_upload [OF light] by blast
  have "m_smartlight (world (sample_light_st w)) = m_smartlight w" "trace (sample_light_st w) = []"
    by (simp_all add: sample_light_st_def)
  from light_roundtrip [OF action this(1) upload] this(2) action upload show ?thesis
    by (auto simp: asked_view_def asked_def sample_light_sys_def view_def sample_light_def)
qed

end
