(* ===== verification/Spec2Isabelle.thy ===== *)
theory Spec2Isabelle
  imports Tasks Command_Tests Linux_Main_Properties Linux_Commands Linux_Platform CC3200_Platform
    Socket_Contract CC3200_Wlan_Properties CC3200_Light
begin

text \<open>
  Verification of the Kii Thing-IF SDK for things (kii_thing_if.c and include/kii_thing_if.h).

  The program. A thing holds one \<open>kii_thing_if_t\<close> with two \<open>kii_t\<close> connections: the command
  handler, which onboarding, the thing information operations and the push callback use, and the
  state updater, which the periodic task uses. An application initialises the structure, onboards
  the thing (or initialises it as onboarded) and starts it; after that pushed commands arrive in
  \<open>received_callback\<close> and the task \<open>prv_update_status\<close> uploads the state.

  How C is modelled (Prelude, Kii). A function is a \<open>prog\<close>: from a state to a fault or to a value
  and a new state. A fault stands for an execution without a defined continuation (failed
  assertion, NULL dereference, access outside an array, read of an uninitialised object, signed
  overflow) or for fuel that ran out. The state \<open>st\<close> holds the \<open>kii_thing_if_t\<close>, the object
  behind \<open>error\<close>, the message array of the push callback, the application's buffers, the world
  outside, and the list of the calls made so far, which the program never reads. The Kii library
  and jsmn are git submodules and the callbacks are the application's: they are fields of \<open>env\<close>,
  arbitrary functions unless a theorem names a hypothesis. These hypotheses are \<open>kii_api_frame\<close>
  (building and running a request keeps the connection's identity), \<open>writes_only\<close> (a state
  handler has no way to the SDK's state but its writer), \<open>reader_bounded\<close> (the JSON reader finds
  no element at an index beyond its text) and \<open>handler_returns\<close>. Sample_Env gives a concrete
  library (a JSON reader, a server) on which every hypothesis holds and the witnesses run.

  The theories.
    Prelude: programs, their combinators and the calculus of invariants; C strings and arrays.
    Kii: data of the public header (the life cycle states as a linear order), environment, state, calls of the library.
    Api: requests as an abstract view of the calls; the interfaces \<open>append_invariant\<close>,
      \<open>api_invariant\<close> and \<open>author_invariant\<close>, through which an invariant of the library's calls
      becomes one of every operation, with their interpretations.
    Json_Body: prv_append_key_value and its callers, against a list of pieces as reference.
    Resource_Path: the four prv_set_*_resource_path, as instances of one interface.
    Http_Session: prv_kii_api_call_start, prv_execute_http_session, the JSON reads.
    Onboarding: prv_kii_thing_if_get_anonymous_token, prv_onboard_with_*, prv_set_author,
      onboard_with_vendor_thing_id, onboard_with_thing_id.
    Lifecycle: prv_init_kii_thing_if, both initialisers, start.
    Thing_Info: get and update of firmware version and thing type, as instances of one interface.
    State_Update: prv_writer, prv_send_state, prv_update_status.
    Command: prv_kii_thing_if_get_key_and_value_from_json, get_key_and_value_at_index,
      handle_command, received_callback. Command_Frame has its invariants, Command_Spec what a
      command asks for (its steps) and the proof that the code performs them,
      Command_Properties and Command_Tests the theorems.
    Session: sequences of operations, pushed messages, status rounds and outside changes after a
      successful initialisation, and the invariant of the states they reach.
    Tasks: the two tasks of a started thing; what one of them leaves to the other, and that
      neither dereferences NULL.
    Linux_Platform: the callbacks of the Linux sample (sys_cb_linux.c, linux-env/*.c) over the
      operating system and OpenSSL as parameters; descriptors, memory and TLS objects are counted.
    Linux_Handlers: the sample's state, action_handler, state_handler and custom_push_handler
      (linux-sample/example.c) and \<open>linux_env\<close>, the environment that they make of a Kii library.
    Linux_Commands: the SDK and the sample together: what a pushed command makes of the air
      conditioner and what is uploaded after it.
    Linux_Main: main of the sample with its subcommands; getopt_long is a parameter, and the
      endless loop at the end of main is a result. Linux_Main_Properties has the theorems.
    CC3200_Platform: the socket, task and delay callbacks of the CC3200 sample
      (kii_thing_if_environment_cc3200.c) over TI's driver as a parameter.
    Socket_Contract: the interface between a platform's socket callbacks and the Kii library that
      connects and closes again for every request (\<open>socket_provider\<close>), with the sockets of both
      samples as its providers.
    CC3200_Wlan: the driver's event handlers, ConfigureSimpleLinkToDefaultState, WlanConnect and
      main of cc3200-sample/freertos_thingsdk_demo/main.c, and pinmux.c. CC3200_Wlan_Properties relates the
      status word to a link with two flags.
    CC3200_Light: prv_get/set_smartlight_info, action_handler and state_handler of that file.

  What the theorems show. For each operation: when it reports success, which requests were sent,
  and what the state is then; what a failure leaves behind; and where the code departs from what
  it means to do (each such case has a theorem).

  Fuel and bounds. \<open>handle_command\<close> takes fuel for its two loops;
  \<open>handle_command_terminates\<close> shows that one unit more than the message has characters is
  enough. The status task is an endless loop: \<open>prv_update_status\<close> with \<open>n\<close> is its run up to the
  end of round \<open>n\<close>, and claims are for every \<open>n\<close>.

  \<open>fgets_pieces\<close> and the option loops of the Linux sample recurse on their input. The waits of the
  CC3200 sample consume a list of events; a wait that has not ended with it has the result \<open>None\<close>.

  Not modelled. Logging (\<open>M_KII_LOG\<close> and the loggers, which have no effect on the state). Two tasks run
  at the same time: the model runs one operation at a time. vCmdTask of the CC3200 sample calls the
  initialiser and the onboarding of an older SDK, with other parameters than the ones under src/, and
  installs a handler whose signature is the older one: it has no meaning on this SDK. The hooks
  of FreeRTOS in that file are empty or endless loops, and the headers of the samples declare without code.
\<close>

end
